(* ===== verification/Prelude.thy ===== *)
theory Prelude
  imports
    Main
    "HOL-Library.Sublist"
    "HOL-Library.Char_ord"
    "HOL-Library.List_Lexorder"
begin

text \<open>
  Shared material of the gateway development: the collections the component proofs draw
  on, C++ exceptions as values of a sum type, the ordered associative container
  \<^verbatim>\<open>std::map\<close> with the contract its clients use, and the readings of the
  process clocks.
\<close>

named_theorems omap_simps "look-up and update laws of the ordered map"
named_theorems text_simps "evaluation of the character classes and string routines"
named_theorems handler_defs "definitions that unfold together in proofs about handlers"

section \<open>Exceptions as values\<close>

text \<open>
  The standard exceptions the sources throw or catch, with the message that
  \<^verbatim>\<open>e.what()\<close> returns. A call that may throw returns \<open>exn + 'a\<close>.
\<close>

datatype exn =
    Invalid_argument string
  | Out_of_range string
  | Runtime_error string

fun what :: "exn \<Rightarrow> string" where
  "what (Invalid_argument m) = m"
| "what (Out_of_range m) = m"
| "what (Runtime_error m) = m"

type_synonym 'a result = "exn + 'a"

definition bind_result :: "'a result \<Rightarrow> ('a \<Rightarrow> 'b result) \<Rightarrow> 'b result" where
  "bind_result r f = (case r of Inl e \<Rightarrow> Inl e | Inr a \<Rightarrow> f a)"

section \<open>The ordered map\<close>

text \<open>
  \<^verbatim>\<open>std::map<K, V>\<close> is iterated in ascending key order, and both the
  header search of the authorization filter and the metrics page depend on it. It is
  modelled as the list of its entries in that order. The order of
  \<^verbatim>\<open>std::string\<close> keys is the lexicographic one on unsigned bytes, which is
  the order the library gives to \<^typ>\<open>string\<close>.
\<close>

type_synonym ('k, 'v) omap = "('k \<times> 'v) list"
type_synonym headers = "(string, string) omap"

abbreviation om_empty :: "('k, 'v) omap" where
  "om_empty \<equiv> []"

fun om_put :: "'k::linorder \<Rightarrow> 'v \<Rightarrow> ('k, 'v) omap \<Rightarrow> ('k, 'v) omap" where
  "om_put k v [] = [(k, v)]"
| "om_put k v (e # m) =
     (if fst e < k then e # om_put k v m
      else if fst e = k then (k, v) # m
      else (k, v) # e # m)"

definition om_get :: "('k, 'v) omap \<Rightarrow> 'k \<Rightarrow> 'v option" where
  "om_get m k = map_of m k"

definition om_wf :: "('k::linorder, 'v) omap \<Rightarrow> bool" where
  "om_wf m \<longleftrightarrow> sorted_wrt (<) (map fst m)"

section \<open>Clocks\<close>

text \<open>
  The sources read \<^verbatim>\<open>steady_clock\<close> and \<^verbatim>\<open>system_clock\<close> at
  many points of one request. A \<open>World\<close> holds, for each clock, the value (in
  nanoseconds) of its \<open>k\<close>-th reading and how many readings were made, so that any
  amount of time may pass between two readings.
\<close>

record World =
  steady_ns :: "nat \<Rightarrow> int"
  steady_reads :: nat
  system_ns :: "nat \<Rightarrow> int"
  system_reads :: nat

definition steady_now :: "World \<Rightarrow> int \<times> World" where
  "steady_now w = (steady_ns w (steady_reads w), w\<lparr>steady_reads := Suc (steady_reads w)\<rparr>)"

definition system_now :: "World \<Rightarrow> int \<times> World" where
  "system_now w = (system_ns w (system_reads w), w\<lparr>system_reads := Suc (system_reads w)\<rparr>)"

text \<open>
  \<^verbatim>\<open>steady_clock\<close> never goes back; this is what its standard promises.
\<close>

definition steady_mono :: "World \<Rightarrow> bool" where
  "steady_mono w \<longleftrightarrow> mono (steady_ns w)"

text \<open>
  \<^verbatim>\<open>duration_cast\<close> truncates towards zero.
\<close>

definition trunc_div :: "int \<Rightarrow> int \<Rightarrow> int" where
  "trunc_div a b = (if a < 0 then - ((- a) div b) else a div b)"

definition ns_to_ms :: "int \<Rightarrow> int" where
  "ns_to_ms t = trunc_div t 1000000"

definition ns_to_s :: "int \<Rightarrow> int" where
  "ns_to_s t = trunc_div t 1000000000"

section \<open>Lemmas on results\<close>

lemma bind_result_simps [simp]:
  "bind_result (Inl e) f = Inl e"
  "bind_result (Inr a) f = f a"
  by (simp_all add: bind_result_def)

lemma bind_result_Inr:
  "bind_result r f = Inr b \<longleftrightarrow> (\<exists>a. r = Inr a \<and> f a = Inr b)"
  by (cases r) auto

lemma bind_result_Inl:
  "bind_result r f = Inl e \<longleftrightarrow> r = Inl e \<or> (\<exists>a. r = Inr a \<and> f a = Inl e)"
  by (cases r) auto

section \<open>Lemmas on the ordered map\<close>

lemma om_put_keys: "set (map fst (om_put k v m)) = insert k (set (map fst m))"
  by (induction m) auto

lemma om_wf_Nil [simp]: "om_wf []"
  by (simp add: om_wf_def)

lemma om_wf_Cons:
  "om_wf (e # m) \<longleftrightarrow> (\<forall>x \<in> set m. fst e < fst x) \<and> om_wf m"
  by (auto simp: om_wf_def)

lemma om_wf_put [simp]: "om_wf m \<Longrightarrow> om_wf (om_put k v m)"
proof (induction m)
  case Nil
  then show ?case by (simp add: om_wf_Cons)
next
  case (Cons e m)
  then have wf: "om_wf m" and lt: "\<forall>x \<in> set m. fst e < fst x"
    by (auto simp: om_wf_Cons)
  have "\<forall>x \<in> set (om_put k v m). fst x = k \<or> fst x \<in> fst ` set m"
    using om_put_keys [of k v m] by (auto simp: image_iff set_eq_iff)
  then show ?case
    using Cons.IH [OF wf] wf lt by (fastforce simp: om_wf_Cons not_less)
qed

lemma om_get_Nil [simp]: "om_get [] k = None"
  by (simp add: om_get_def)

lemma om_get_Cons [simp]: "om_get (e # m) k = (if fst e = k then Some (snd e) else om_get m k)"
  by (cases e) (simp add: om_get_def)

lemma om_get_put [omap_simps]:
  "om_wf m \<Longrightarrow> om_get (om_put k v m) k' = (if k' = k then Some v else om_get m k')"
  by (induction m) (auto simp: om_get_Cons om_wf_Cons)

lemma om_get_put_same [simp]: "om_get (om_put k v m) k = Some v"
  by (induction m) (auto simp: om_get_Cons)

lemma om_get_put_other [simp]: "k' \<noteq> k \<Longrightarrow> om_get (om_put k v m) k' = om_get m k'"
  by (induction m) (auto simp: om_get_Cons)

lemma om_get_in: "om_get m k = Some v \<Longrightarrow> (k, v) \<in> set m"
  by (auto simp: om_get_def dest: map_of_SomeD)

lemma om_wf_distinct: "om_wf m \<Longrightarrow> distinct (map fst m)"
  by (simp add: om_wf_def strict_sorted_iff)

lemma om_get_iff: "om_wf m \<Longrightarrow> om_get m k = Some v \<longleftrightarrow> (k, v) \<in> set m"
  by (simp add: om_get_def om_wf_distinct)

subsection \<open>The contract of the container\<close>

text \<open>
  What the clients of a keyed container rely on: the operation
  \<^verbatim>\<open>m[k] = v\<close> changes the entry of \<open>k\<close> and no other, and keeps the
  container's invariant.
\<close>

locale keyed_store =
  fixes empty :: 'm
    and put :: "'k \<Rightarrow> 'v \<Rightarrow> 'm \<Rightarrow> 'm"
    and get :: "'m \<Rightarrow> 'k \<Rightarrow> 'v option"
    and invar :: "'m \<Rightarrow> bool"
  assumes get_empty: "get empty k = None"
    and get_put: "invar m \<Longrightarrow> get (put k v m) k' = (if k' = k then Some v else get m k')"
    and invar_empty: "invar empty"
    and invar_put: "invar m \<Longrightarrow> invar (put k v m)"
begin

lemma invar_puts: "invar m \<Longrightarrow> invar (fold (\<lambda>(k, v). put k v) kvs m)"
  by (induction kvs arbitrary: m) (auto simp: invar_put)

lemma get_puts:
  "invar m \<Longrightarrow>
   get (fold (\<lambda>(k, v). put k v) kvs m) k =
     (case map_of (rev kvs) k of Some v \<Rightarrow> Some v | None \<Rightarrow> get m k)"
  by (induction kvs arbitrary: m)
     (auto simp: invar_put get_put map_add_def split: option.splits)

lemma get_puts_other:
  "invar m \<Longrightarrow> k \<notin> fst ` set kvs \<Longrightarrow> get (fold (\<lambda>(k, v). put k v) kvs m) k = get m k"
  by (simp add: get_puts map_of_eq_None_iff [THEN iffD2] image_image rev_swap)

end

interpretation om: keyed_store om_empty om_put om_get om_wf
  by unfold_locales (auto simp: omap_simps)

section \<open>Codecs\<close>

text \<open>
  The contract of a text encoding: decoding what was encoded gives the value back, for
  the values the encoding is meant for. Such an encoding never confuses two of them.
\<close>

locale codec =
  fixes enc :: "'a \<Rightarrow> 'b"
    and dec :: "'b \<Rightarrow> 'a option"
    and valid :: "'a \<Rightarrow> bool"
  assumes dec_enc: "valid x \<Longrightarrow> dec (enc x) = Some x"
begin

lemma enc_inj: "valid x \<Longrightarrow> valid y \<Longrightarrow> enc x = enc y \<longleftrightarrow> x = y"
  by (metis dec_enc option.inject)

lemma enc_inj_on: "inj_on enc {x. valid x}"
  by (auto simp: enc_inj intro: inj_onI)

end

section \<open>Lemmas on clocks\<close>

lemma steady_now_simps [simp]:
  "fst (steady_now w) = steady_ns w (steady_reads w)"
  "steady_ns (snd (steady_now w)) = steady_ns w"
  "steady_reads (snd (steady_now w)) = Suc (steady_reads w)"
  "system_ns (snd (steady_now w)) = system_ns w"
  "system_reads (snd (steady_now w)) = system_reads w"
  by (simp_all add: steady_now_def)

lemma system_now_simps [simp]:
  "fst (system_now w) = system_ns w (system_reads w)"
  "steady_ns (snd (system_now w)) = steady_ns w"
  "steady_reads (snd (system_now w)) = steady_reads w"
  "system_ns (snd (system_now w)) = system_ns w"
  "system_reads (snd (system_now w)) = Suc (system_reads w)"
  by (simp_all add: system_now_def)

lemma trunc_div_nonneg: "0 \<le> a \<Longrightarrow> 0 < b \<Longrightarrow> 0 \<le> trunc_div a b"
  by (simp add: trunc_div_def pos_imp_zdiv_nonneg_iff)

lemma trunc_div_mono:
  assumes "a \<le> a'" and "0 < b"
  shows "trunc_div a b \<le> trunc_div a' b"
proof (cases "a < 0")
  case True
  show ?thesis
  proof (cases "a' < 0")
    case True
    with assms have "(- a') div b \<le> (- a) div b"
      by (intro zdiv_mono1) auto
    with \<open>a < 0\<close> True show ?thesis by (simp add: trunc_div_def)
  next
    case False
    with assms have "0 \<le> a' div b" by (simp add: pos_imp_zdiv_nonneg_iff)
    moreover from True assms have "0 \<le> (- a) div b" by (simp add: pos_imp_zdiv_nonneg_iff)
    ultimately show ?thesis using True False by (simp add: trunc_div_def)
  qed
next
  case False
  with assms show ?thesis by (simp add: trunc_div_def zdiv_mono1)
qed

end
