(* ===== verification/CppStd.thy ===== *)
theory CppStd
  imports Prelude
begin

text \<open>
  The parts of the C++ standard library the sources use: the character classes of
  \<^verbatim>\<open><cctype>\<close> in the C locale, the searches of
  \<^verbatim>\<open>std::string\<close>, decimal output of integers, and
  \<^verbatim>\<open>std::stoi\<close> / \<^verbatim>\<open>std::stoll\<close> with their exceptions.
  A \<^typ>\<open>char\<close> is one byte, so a \<^typ>\<open>string\<close> is exactly the byte sequence a
  \<^verbatim>\<open>std::string\<close> holds.
\<close>

abbreviation code :: "char \<Rightarrow> nat" where
  "code c \<equiv> of_char c"

section \<open>Character classes\<close>

definition isspace :: "char \<Rightarrow> bool" where
  "isspace c \<longleftrightarrow> code c = 32 \<or> (9 \<le> code c \<and> code c \<le> 13)"

definition isdigit :: "char \<Rightarrow> bool" where
  "isdigit c \<longleftrightarrow> 48 \<le> code c \<and> code c \<le> 57"

definition isxdigit :: "char \<Rightarrow> bool" where
  "isxdigit c \<longleftrightarrow> isdigit c \<or> (65 \<le> code c \<and> code c \<le> 70) \<or> (97 \<le> code c \<and> code c \<le> 102)"

definition tolower :: "char \<Rightarrow> char" where
  "tolower c = (if 65 \<le> code c \<and> code c \<le> 90 then char_of (code c + 32) else c)"

section \<open>Searching strings\<close>

text \<open>\<^verbatim>\<open>s.find(pat)\<close>: the first position of \<open>pat\<close> in \<open>s\<close>, \<open>None\<close> for npos.\<close>

fun str_find :: "string \<Rightarrow> string \<Rightarrow> nat option" where
  "str_find pat [] = (if pat = [] then Some 0 else None)"
| "str_find pat (c # s) =
     (if prefix pat (c # s) then Some 0 else map_option Suc (str_find pat s))"

text \<open>\<^verbatim>\<open>s.find(c)\<close> for a single character.\<close>

fun char_find :: "char \<Rightarrow> string \<Rightarrow> nat option" where
  "char_find x [] = None"
| "char_find x (c # s) = (if c = x then Some 0 else map_option Suc (char_find x s))"

text \<open>\<^verbatim>\<open>s.find(c, pos)\<close>.\<close>

definition char_find_from :: "char \<Rightarrow> string \<Rightarrow> nat \<Rightarrow> nat option" where
  "char_find_from x s pos = map_option (\<lambda>i. pos + i) (char_find x (drop pos s))"

text \<open>\<^verbatim>\<open>value.rfind(prefix, 0) == 0\<close>.\<close>

definition starts_with :: "string \<Rightarrow> string \<Rightarrow> bool" where
  "starts_with s pre \<longleftrightarrow> take (length pre) s = pre"

section \<open>Decimal output\<close>

definition digit_char :: "nat \<Rightarrow> char" where
  "digit_char d = char_of (48 + d)"

fun show_nat :: "nat \<Rightarrow> string" where
  "show_nat n = (if n < 10 then [digit_char n] else show_nat (n div 10) @ [digit_char (n mod 10)])"

text \<open>\<^verbatim>\<open>std::to_string\<close> and \<^verbatim>\<open>operator<<\<close> on integers.\<close>

definition show_int :: "int \<Rightarrow> string" where
  "show_int i = (if i < 0 then CHR ''-'' # show_nat (nat (- i)) else show_nat (nat i))"

section \<open>Decimal input\<close>

definition digit_val :: "char \<Rightarrow> nat" where
  "digit_val c = code c - 48"

definition digits_val :: "string \<Rightarrow> nat" where
  "digits_val ds = foldl (\<lambda>a c. 10 * a + digit_val c) 0 ds"

definition INT_MIN :: int where "INT_MIN = - 2147483648"
definition INT_MAX :: int where "INT_MAX = 2147483647"
definition INT64_MIN :: int where "INT64_MIN = - 9223372036854775808"
definition INT64_MAX :: int where "INT64_MAX = 9223372036854775807"

text \<open>
  \<^verbatim>\<open>std::stoll(s)\<close> and \<^verbatim>\<open>std::stoi(s)\<close>: leading white space is
  skipped, an optional sign is read, then the longest run of digits; what follows is
  ignored. No digits is \<^verbatim>\<open>invalid_argument\<close>, a value outside the type's
  range \<^verbatim>\<open>out_of_range\<close>; the message of both is the function's name.
\<close>

definition sto_signed :: "string \<Rightarrow> int \<Rightarrow> int \<Rightarrow> string \<Rightarrow> int result" where
  "sto_signed name lo hi s =
     (let t = dropWhile isspace s;
          neg = (t \<noteq> [] \<and> hd t = CHR ''-'');
          u = (if t \<noteq> [] \<and> (hd t = CHR ''-'' \<or> hd t = CHR ''+'') then tl t else t);
          ds = takeWhile isdigit u;
          v = (if neg then - int (digits_val ds) else int (digits_val ds))
      in if ds = [] then Inl (Invalid_argument name)
         else if v < lo \<or> hi < v then Inl (Out_of_range name)
         else Inr v)"

definition stoll :: "string \<Rightarrow> int result" where
  "stoll s = sto_signed ''stoll'' INT64_MIN INT64_MAX s"

definition stoi :: "string \<Rightarrow> int result" where
  "stoi s = sto_signed ''stoi'' INT_MIN INT_MAX s"

definition in_int :: "int \<Rightarrow> bool" where
  "in_int i \<longleftrightarrow> INT_MIN \<le> i \<and> i \<le> INT_MAX"

definition in_int64 :: "int \<Rightarrow> bool" where
  "in_int64 i \<longleftrightarrow> INT64_MIN \<le> i \<and> i \<le> INT64_MAX"

text \<open>\<^verbatim>\<open>static_cast<int>\<close> of a wider integer keeps the low 32 bits.\<close>

definition cast_int :: "int \<Rightarrow> int" where
  "cast_int i = (i + 2147483648) mod 4294967296 - 2147483648"

declare show_nat.simps [simp del]

section \<open>Lemmas on characters\<close>

lemma code_less_256 [simp]: "code c < 256"
  by (rule of_char_mod_256 [THEN mod_eq_self_iff_div_eq_0 [THEN iffD1], THEN div_eq_0_iff [THEN iffD1], THEN disjE]) simp_all

lemma code_char_of [simp]: "n < 256 \<Longrightarrow> code (char_of n) = n"
  by (simp add: of_char_of)

lemma isdigit_digit_char [simp]: "d < 10 \<Longrightarrow> isdigit (digit_char d)"
  by (simp add: isdigit_def digit_char_def)

lemma digit_val_digit_char [simp]: "d < 10 \<Longrightarrow> digit_val (digit_char d) = d"
  by (simp add: digit_val_def digit_char_def)

lemma isdigit_not_space: "isdigit c \<Longrightarrow> \<not> isspace c"
  by (auto simp: isdigit_def isspace_def)

lemma isdigit_not_sign: "isdigit c \<Longrightarrow> c \<noteq> CHR ''-'' \<and> c \<noteq> CHR ''+''"
  by (auto simp: isdigit_def)

section \<open>Lemmas on searching\<close>

lemma starts_with_prefix: "starts_with s pre \<longleftrightarrow> prefix pre s"
  unfolding starts_with_def prefix_def by (metis append_eq_conv_conj append_take_drop_id)

lemma starts_with_append [simp]: "starts_with (pre @ s) pre"
  by (simp add: starts_with_def)

text \<open>
  \<open>no_match pat xs ys\<close>: no occurrence of \<open>pat\<close> in \<open>xs @ ys\<close> begins inside
  \<open>xs\<close>. A search over \<open>xs @ ys\<close> may then skip \<open>xs\<close>.
\<close>

fun no_match :: "string \<Rightarrow> string \<Rightarrow> string \<Rightarrow> bool" where
  "no_match pat [] ys \<longleftrightarrow> True"
| "no_match pat (x # xs) ys \<longleftrightarrow> \<not> prefix pat (x # xs @ ys) \<and> no_match pat xs ys"

lemma no_match_append:
  "no_match pat (xs @ zs) ys \<longleftrightarrow> no_match pat xs (zs @ ys) \<and> no_match pat zs ys"
  by (induction xs) auto

lemma no_match_head: "pat \<noteq> [] \<Longrightarrow> hd pat \<notin> set xs \<Longrightarrow> no_match pat xs ys"
  by (induction xs) (auto simp: prefix_def neq_Nil_conv Cons_eq_append_conv)

lemma str_find_skip:
  "no_match pat xs ys \<Longrightarrow> str_find pat (xs @ ys) = map_option (\<lambda>i. length xs + i) (str_find pat ys)"
  by (induction xs; cases "str_find pat ys") auto

lemma str_find_here: "str_find pat (pat @ s) = Some 0"
proof (cases "pat @ s")
  case (Cons c t)
  then have "prefix pat (c # t)" by (metis prefixI)
  with Cons show ?thesis by simp
qed simp

lemma str_find_at:
  "no_match pat xs (pat @ ys) \<Longrightarrow> str_find pat (xs @ pat @ ys) = Some (length xs)"
  by (simp add: str_find_skip str_find_here)

lemma str_find_SomeD:
  "str_find pat s = Some i \<Longrightarrow> prefix pat (drop i s) \<and> i \<le> length s"
proof (induction s arbitrary: i)
  case Nil
  then show ?case by (auto split: if_splits)
next
  case (Cons c s)
  then show ?case by (auto split: if_splits)
qed

lemma char_find_at: "x \<notin> set xs \<Longrightarrow> char_find x (xs @ x # ys) = Some (length xs)"
  by (induction xs) auto

lemma char_find_None: "char_find x xs = None \<longleftrightarrow> x \<notin> set xs"
  by (induction xs) auto

lemma char_find_Some:
  "char_find x s = Some i \<longleftrightarrow>
     (\<exists>xs ys. s = xs @ x # ys \<and> x \<notin> set xs \<and> i = length xs)"
proof (induction s arbitrary: i)
  case Nil
  then show ?case by simp
next
  case (Cons c s)
  show ?case
  proof (cases "c = x")
    case True
    then show ?thesis by (auto simp: Cons_eq_append_conv)
  next
    case False
    then have "char_find x (c # s) = Some i \<longleftrightarrow>
        (\<exists>xs ys. s = xs @ x # ys \<and> x \<notin> set xs \<and> i = Suc (length xs))"
      by (auto simp: Cons.IH)
    also have "\<dots> \<longleftrightarrow> (\<exists>xs ys. c # s = xs @ x # ys \<and> x \<notin> set xs \<and> i = length xs)"
      using False
      by (auto simp: Cons_eq_append_conv) (metis length_Cons set_ConsD)+
    finally show ?thesis .
  qed
qed

section \<open>Lemmas on decimal text\<close>

lemma show_nat_digits: "\<forall>c \<in> set (show_nat n). isdigit c"
proof (induction n rule: show_nat.induct)
  case (1 n)
  then show ?case by (subst show_nat.simps) auto
qed

lemma show_nat_nonempty [simp]: "show_nat n \<noteq> []"
  by (subst show_nat.simps) simp

lemma digits_val_append1: "digits_val (ds @ [c]) = 10 * digits_val ds + digit_val c"
  by (simp add: digits_val_def)

lemma digits_val_show_nat [simp]: "digits_val (show_nat n) = n"
proof (induction n rule: show_nat.induct)
  case (1 n)
  show ?case
  proof (cases "n < 10")
    case True
    then show ?thesis by (subst show_nat.simps) (simp add: digits_val_def)
  next
    case False
    with 1 have "digits_val (show_nat n) = 10 * (n div 10) + n mod 10"
      by (subst show_nat.simps) (simp add: digits_val_append1)
    then show ?thesis by simp
  qed
qed

lemma show_int_chars: "\<forall>c \<in> set (show_int i). isdigit c \<or> c = CHR ''-''"
  using show_nat_digits by (auto simp: show_int_def)

lemma show_int_nonempty [simp]: "show_int i \<noteq> []"
  by (simp add: show_int_def)

lemma hd_show_nat: "isdigit (hd (show_nat n))"
  using show_nat_digits [of n] hd_in_set [OF show_nat_nonempty] by blast

lemma takeWhile_show_nat [simp]: "takeWhile isdigit (show_nat n) = show_nat n"
  using show_nat_digits by (simp add: takeWhile_eq_all_conv)

lemma dropWhile_space_show_nat [simp]: "dropWhile isspace (show_nat n) = show_nat n"
  using hd_show_nat [of n] isdigit_not_space by (cases "show_nat n") auto

lemma sto_signed_show_int:
  assumes "lo \<le> i" and "i \<le> hi"
  shows "sto_signed name lo hi (show_int i) = Inr i"
proof (cases "i < 0")
  case True
  then have "show_int i = CHR ''-'' # show_nat (nat (- i))"
    by (simp add: show_int_def)
  moreover have "\<not> isspace (CHR ''-'')" by (simp add: isspace_def)
  ultimately show ?thesis
    using True assms by (simp add: sto_signed_def Let_def)
next
  case False
  then have "show_int i = show_nat (nat i)" by (simp add: show_int_def)
  moreover have "hd (show_nat (nat i)) \<noteq> CHR ''-''" "hd (show_nat (nat i)) \<noteq> CHR ''+''"
    using isdigit_not_sign [OF hd_show_nat] by auto
  ultimately show ?thesis
    using False assms by (simp add: sto_signed_def Let_def)
qed

lemma stoll_show_int: "in_int64 i \<Longrightarrow> stoll (show_int i) = Inr i"
  by (simp add: stoll_def in_int64_def sto_signed_show_int)

lemma stoi_show_int: "in_int i \<Longrightarrow> stoi (show_int i) = Inr i"
  by (simp add: stoi_def in_int_def sto_signed_show_int)

interpretation int64_text: codec show_int "\<lambda>s. case stoll s of Inr i \<Rightarrow> Some i | Inl _ \<Rightarrow> None" in_int64
  by unfold_locales (simp add: stoll_show_int)

interpretation int_text: codec show_int "\<lambda>s. case stoi s of Inr i \<Rightarrow> Some i | Inl _ \<Rightarrow> None" in_int
  by unfold_locales (simp add: stoi_show_int)

lemma sto_signed_range: "sto_signed name lo hi s = Inr v \<Longrightarrow> lo \<le> v \<and> v \<le> hi"
  by (auto simp: sto_signed_def Let_def split: if_splits)

lemma cast_int_id: "in_int i \<Longrightarrow> cast_int i = i"
  by (simp add: cast_int_def in_int_def INT_MIN_def INT_MAX_def)

lemma show_nat_inj: "show_nat m = show_nat n \<longleftrightarrow> m = n"
  by (metis digits_val_show_nat)

lemma show_int_inj: "show_int i = show_int j \<longleftrightarrow> i = j"
proof
  assume eq: "show_int i = show_int j"
  have "hd (show_nat n) \<noteq> CHR ''-''" for n
    using isdigit_not_sign [OF hd_show_nat] by blast
  then show "i = j"
    using eq by (auto simp: show_int_def show_nat_inj split: if_splits) (metis list.sel(1))+
qed simp

end
