(* ===== verification/Sha256.thy ===== *)
theory Sha256
  imports CppStd "HOL-Library.Word"
begin

unbundle bit_operations_syntax

text \<open>
  The hash and message authentication code of \<^verbatim>\<open>src/auth/token_service.cc\<close>
  (\<^verbatim>\<open>RotR\<close>, \<^verbatim>\<open>Sha256\<close>, \<^verbatim>\<open>HmacSha256\<close>), on
  machine words: \<^verbatim>\<open>uint8_t\<close>, \<^verbatim>\<open>uint32_t\<close> and
  \<^verbatim>\<open>uint64_t\<close> are words of 8, 32 and 64 bits, so every addition and shift
  wraps as in C++. A second, independent formulation follows the text of the Secure Hash
  Standard, and the implementation is proved equal to it.
\<close>

type_synonym byte = "8 word"
type_synonym u32 = "32 word"
type_synonym u64 = "64 word"
type_synonym sha_state = "u32 \<times> u32 \<times> u32 \<times> u32 \<times> u32 \<times> u32 \<times> u32 \<times> u32"

definition byte_of_char :: "char \<Rightarrow> byte" where
  "byte_of_char c = of_nat (code c)"

definition bytes_of :: "string \<Rightarrow> byte list" where
  "bytes_of s = map byte_of_char s"

section \<open>The implementation\<close>

definition RotR :: "u32 \<Rightarrow> nat \<Rightarrow> u32" where
  "RotR value bits = (drop_bit bits value) OR (push_bit (32 - bits) value)"

definition sha_k :: "u32 list" where
  "sha_k = concat
    [[0x428a2f98, 0x71374491, 0xb5c0fbcf, 0xe9b5dba5],
     [0x3956c25b, 0x59f111f1, 0x923f82a4, 0xab1c5ed5],
     [0xd807aa98, 0x12835b01, 0x243185be, 0x550c7dc3],
     [0x72be5d74, 0x80deb1fe, 0x9bdc06a7, 0xc19bf174],
     [0xe49b69c1, 0xefbe4786, 0x0fc19dc6, 0x240ca1cc],
     [0x2de92c6f, 0x4a7484aa, 0x5cb0a9dc, 0x76f988da],
     [0x983e5152, 0xa831c66d, 0xb00327c8, 0xbf597fc7],
     [0xc6e00bf3, 0xd5a79147, 0x06ca6351, 0x14292967],
     [0x27b70a85, 0x2e1b2138, 0x4d2c6dfc, 0x53380d13],
     [0x650a7354, 0x766a0abb, 0x81c2c92e, 0x92722c85],
     [0xa2bfe8a1, 0xa81a664b, 0xc24b8b70, 0xc76c51a3],
     [0xd192e819, 0xd6990624, 0xf40e3585, 0x106aa070],
     [0x19a4c116, 0x1e376c08, 0x2748774c, 0x34b0bcb5],
     [0x391c0cb3, 0x4ed8aa4a, 0x5b9cca4f, 0x682e6ff3],
     [0x748f82ee, 0x78a5636f, 0x84c87814, 0x8cc70208],
     [0x90befffa, 0xa4506ceb, 0xbef9a3f7, 0xc67178f2]]"

text \<open>The padding loop: zero bytes until the length is 56 modulo 64.\<close>

lemma pad_measure_Suc:
  assumes "(n::nat) mod 64 \<noteq> 56"
  shows "(120 - n mod 64) mod 64 = Suc ((120 - Suc n mod 64) mod 64)"
proof -
  define m where "m = n mod 64"
  have m: "m < 64" "m \<noteq> 56" using assms by (simp_all add: m_def)
  have suc: "Suc n mod 64 = (if m = 63 then 0 else Suc m)"
    by (simp add: mod_Suc m_def)
  consider "m = 63" | "m < 56" | "56 < m" "m < 63" using m by linarith
  then show ?thesis
  proof cases
    case 2
    then have "120 - m = (56 - m) + 64" "120 - Suc m = (55 - m) + 64" by simp_all
    then have "(120 - m) mod 64 = 56 - m" "(120 - Suc m) mod 64 = 55 - m"
      by (simp_all only: mod_add_self2) simp_all
    with 2 show ?thesis by (simp add: suc m_def [symmetric])
  qed (simp_all add: suc m_def [symmetric])
qed

function sha_pad_zeros :: "byte list \<Rightarrow> byte list" where
  "sha_pad_zeros data =
     (if length data mod 64 \<noteq> 56 then sha_pad_zeros (data @ [0]) else data)"
  by pat_completeness auto
termination
  by (relation "measure (\<lambda>data. (120 - length data mod 64) mod 64)") (auto simp: pad_measure_Suc)

definition sha_length_bytes :: "u64 \<Rightarrow> byte list" where
  "sha_length_bytes bit_len = map (\<lambda>i. ucast (drop_bit (i * 8) bit_len AND 0xff)) (rev [0..<8])"

definition sha_padded :: "byte list \<Rightarrow> byte list" where
  "sha_padded input =
     (let bit_len = of_nat (length input) * (8 :: u64)
      in sha_pad_zeros (input @ [0x80]) @ sha_length_bytes bit_len)"

definition sha_init :: sha_state where
  "sha_init =
     (0x6a09e667, 0xbb67ae85, 0x3c6ef372, 0xa54ff53a, 0x510e527f, 0x9b05688c, 0x1f83d9ab, 0x5be0cd19)"

definition sha_load :: "byte list \<Rightarrow> nat \<Rightarrow> nat \<Rightarrow> u32" where
  "sha_load data chunk i =
     (let j = chunk + i * 4 in
      push_bit 24 (ucast (data ! j)) OR push_bit 16 (ucast (data ! (j + 1))) OR
      push_bit 8 (ucast (data ! (j + 2))) OR ucast (data ! (j + 3)))"

definition sha_extend :: "nat \<Rightarrow> u32 list \<Rightarrow> u32 list" where
  "sha_extend i w =
     (let s0 = RotR (w ! (i - 15)) 7 XOR RotR (w ! (i - 15)) 18 XOR drop_bit 3 (w ! (i - 15));
          s1 = RotR (w ! (i - 2)) 17 XOR RotR (w ! (i - 2)) 19 XOR drop_bit 10 (w ! (i - 2))
      in w @ [w ! (i - 16) + s0 + w ! (i - 7) + s1])"

definition sha_words :: "byte list \<Rightarrow> nat \<Rightarrow> u32 list" where
  "sha_words data chunk = fold sha_extend [16..<64] (map (sha_load data chunk) [0..<16])"

definition sha_round :: "u32 list \<Rightarrow> nat \<Rightarrow> sha_state \<Rightarrow> sha_state" where
  "sha_round w i st =
     (case st of (a, b, c, d, e, f, g, h) \<Rightarrow>
      let s1 = RotR e 6 XOR RotR e 11 XOR RotR e 25;
          ch = (e AND f) XOR ((NOT e) AND g);
          temp1 = h + s1 + ch + sha_k ! i + w ! i;
          s0 = RotR a 2 XOR RotR a 13 XOR RotR a 22;
          maj = (a AND b) XOR (a AND c) XOR (b AND c);
          temp2 = s0 + maj
      in (temp1 + temp2, a, b, c, d + temp1, e, f, g))"

definition sha_add :: "sha_state \<Rightarrow> sha_state \<Rightarrow> sha_state" where
  "sha_add hs st =
     (case hs of (h0, h1, h2, h3, h4, h5, h6, h7) \<Rightarrow>
      case st of (a, b, c, d, e, f, g, h) \<Rightarrow>
        (h0 + a, h1 + b, h2 + c, h3 + d, h4 + e, h5 + f, h6 + g, h7 + h))"

definition sha_chunk :: "byte list \<Rightarrow> nat \<Rightarrow> sha_state \<Rightarrow> sha_state" where
  "sha_chunk data chunk hs =
     (let w = sha_words data chunk in sha_add hs (fold (sha_round w) [0..<64] hs))"

function sha_loop :: "byte list \<Rightarrow> nat \<Rightarrow> sha_state \<Rightarrow> sha_state" where
  "sha_loop data chunk hs =
     (if chunk < length data then sha_loop data (chunk + 64) (sha_chunk data chunk hs) else hs)"
  by pat_completeness auto
termination
  by (relation "measure (\<lambda>(data, chunk, hs). length data - chunk)") auto

definition word_bytes :: "u32 \<Rightarrow> byte list" where
  "word_bytes w =
     [ucast (drop_bit 24 w AND 0xff), ucast (drop_bit 16 w AND 0xff),
      ucast (drop_bit 8 w AND 0xff), ucast (w AND 0xff)]"

definition sha_digest :: "sha_state \<Rightarrow> byte list" where
  "sha_digest hs =
     (case hs of (h0, h1, h2, h3, h4, h5, h6, h7) \<Rightarrow>
       concat (map word_bytes [h0, h1, h2, h3, h4, h5, h6, h7]))"

definition Sha256 :: "byte list \<Rightarrow> byte list" where
  "Sha256 input = sha_digest (sha_loop (sha_padded input) 0 sha_init)"

definition hmac_key :: "string \<Rightarrow> byte list" where
  "hmac_key key =
     (let key_bytes = bytes_of key;
          key_bytes = (if length key_bytes > 64 then Sha256 key_bytes else key_bytes)
      in key_bytes @ replicate (64 - length key_bytes) 0)"

definition HmacSha256 :: "string \<Rightarrow> string \<Rightarrow> byte list" where
  "HmacSha256 key message =
     (let key_bytes = hmac_key key;
          o_key_pad = map (\<lambda>b. b XOR 0x5c) key_bytes;
          i_key_pad = map (\<lambda>b. b XOR 0x36) key_bytes;
          inner_digest = Sha256 (i_key_pad @ bytes_of message)
      in Sha256 (o_key_pad @ inner_digest))"

declare sha_pad_zeros.simps [simp del] sha_loop.simps [simp del]

section \<open>The standard\<close>

text \<open>
  SHA-256 as FIPS 180-4 states it: the six logical functions (section 4.1.2) over the
  library's rotation, the message schedule as a recursion on its index and the
  compression as an iteration of one round (section 6.2.2), applied to the blocks of the
  padded message in turn.
\<close>

definition fips_Ch :: "u32 \<Rightarrow> u32 \<Rightarrow> u32 \<Rightarrow> u32" where
  "fips_Ch x y z = (x AND y) XOR (NOT x AND z)"

definition fips_Maj :: "u32 \<Rightarrow> u32 \<Rightarrow> u32 \<Rightarrow> u32" where
  "fips_Maj x y z = (x AND y) XOR (x AND z) XOR (y AND z)"

definition fips_Sigma0 :: "u32 \<Rightarrow> u32" where
  "fips_Sigma0 x = word_rotr 2 x XOR word_rotr 13 x XOR word_rotr 22 x"

definition fips_Sigma1 :: "u32 \<Rightarrow> u32" where
  "fips_Sigma1 x = word_rotr 6 x XOR word_rotr 11 x XOR word_rotr 25 x"

definition fips_sigma0 :: "u32 \<Rightarrow> u32" where
  "fips_sigma0 x = word_rotr 7 x XOR word_rotr 18 x XOR drop_bit 3 x"

definition fips_sigma1 :: "u32 \<Rightarrow> u32" where
  "fips_sigma1 x = word_rotr 17 x XOR word_rotr 19 x XOR drop_bit 10 x"

text \<open>Word \<open>t\<close> of block \<open>i\<close>: four message bytes, most significant first.\<close>

definition fips_M :: "byte list \<Rightarrow> nat \<Rightarrow> nat \<Rightarrow> u32" where
  "fips_M data i t =
     (let b = (\<lambda>j. unat (data ! (64 * i + 4 * t + j)))
      in of_nat (2 ^ 24 * b 0 + 2 ^ 16 * b 1 + 2 ^ 8 * b 2 + b 3))"

fun fips_W :: "(nat \<Rightarrow> u32) \<Rightarrow> nat \<Rightarrow> u32" where
  "fips_W M t =
     (if t < 16 then M t
      else fips_sigma1 (fips_W M (t - 2)) + fips_W M (t - 7) +
           fips_sigma0 (fips_W M (t - 15)) + fips_W M (t - 16))"

definition fips_step :: "u32 \<Rightarrow> u32 \<Rightarrow> sha_state \<Rightarrow> sha_state" where
  "fips_step Kt Wt st =
     (case st of (a, b, c, d, e, f, g, h) \<Rightarrow>
      let T1 = h + fips_Sigma1 e + fips_Ch e f g + Kt + Wt;
          T2 = fips_Sigma0 a + fips_Maj a b c
      in (T1 + T2, a, b, c, d + T1, e, f, g))"

text \<open>
  The constants (sections 4.2.2 and 5.3.3) are the first 32 bits of the fractional parts of
  the cube roots of the first 64 primes, and of the square roots of the first eight.
  \<open>fips_frac n p k\<close> says that \<open>k\<close> is that part of the \<open>n\<close>-th root of \<open>p\<close>: for
  some integral part \<open>q\<close>, \<open>2 ^ 32 * q + k\<close> is the root of \<open>p\<close> scaled by \<open>2 ^ 32\<close>
  and rounded down.
\<close>

definition fips_primes :: "int list" where
  "fips_primes = filter (\<lambda>p. list_all (\<lambda>d. p < d * d \<or> p mod d \<noteq> 0) [2..17]) [2..311]"

definition fips_frac :: "nat \<Rightarrow> int \<Rightarrow> u32 \<Rightarrow> bool" where
  "fips_frac n p k \<longleftrightarrow>
     (\<exists>q \<in> {0..17}. (2 ^ 32 * q + uint k) ^ n \<le> p * (2 ^ 32) ^ n \<and>
        p * (2 ^ 32) ^ n < (2 ^ 32 * q + uint k + 1) ^ n)"

primrec fips_rounds :: "(nat \<Rightarrow> u32) \<Rightarrow> nat \<Rightarrow> sha_state \<Rightarrow> sha_state" where
  "fips_rounds W 0 st = st"
| "fips_rounds W (Suc t) st = fips_step (sha_k ! t) (W t) (fips_rounds W t st)"

primrec fips_H :: "byte list \<Rightarrow> nat \<Rightarrow> sha_state" where
  "fips_H data 0 = sha_init"
| "fips_H data (Suc i) =
     sha_add (fips_H data i) (fips_rounds (fips_W (fips_M data i)) 64 (fips_H data i))"

text \<open>
  \<open>fips_padded m data\<close>: \<open>data\<close> is the message, the bit 1, the least number of zero
  bits that makes the length 448 modulo 512, and the message length in bits as a 64-bit
  big-endian number (section 5.1.1), for a message of whole bytes.
\<close>

definition fips_padded :: "byte list \<Rightarrow> byte list \<Rightarrow> bool" where
  "fips_padded m data \<longleftrightarrow>
     (\<exists>z < 64. (8 * (length m + 1 + z)) mod 512 = 448 \<and>
        data = m @ [0x80] @ replicate z 0 @
               map (\<lambda>i. of_nat (8 * length m div 256 ^ (7 - i))) [0..<8])"

declare fips_W.simps [simp del]

section \<open>Padding\<close>

lemma sha_pad_zeros_replicate:
  "\<exists>z < 64. sha_pad_zeros data = data @ replicate z 0 \<and> (length data + z) mod 64 = 56"
proof -
  define z where "z = (120 - length data mod 64) mod 64"
  have "sha_pad_zeros data = data @ replicate ((120 - length data mod 64) mod 64) 0" for data
  proof (induction data rule: sha_pad_zeros.induct)
    case (1 data)
    show ?case
    proof (cases "length data mod 64 = 56")
      case True
      then show ?thesis by (simp add: sha_pad_zeros.simps [of data])
    next
      case False
      have "(120 - length data mod 64) mod 64 = Suc ((120 - Suc (length data) mod 64) mod 64)"
        by (rule pad_measure_Suc) (rule False)
      with False 1 show ?thesis
        by (simp add: sha_pad_zeros.simps [of data] replicate_append_same [symmetric])
    qed
  qed
  moreover have "(length data + z) mod 64 = 56"
  proof -
    have "(length data + z) mod 64 = (length data mod 64 + (120 - length data mod 64)) mod 64"
      unfolding z_def by (metis mod_add_eq mod_mod_trivial)
    also have "\<dots> = 120 mod 64"
      using mod_less_divisor [of 64 "length data"] by simp
    finally show ?thesis by simp
  qed
  ultimately show ?thesis by (intro exI [of _ z]) (simp add: z_def)
qed

lemma length_sha_padded_mod: "length (sha_padded m) mod 64 = 0"
proof -
  obtain z where "sha_pad_zeros (m @ [0x80]) = (m @ [0x80]) @ replicate z 0"
    and "(length (m @ [0x80 :: byte]) + z) mod 64 = 56"
    using sha_pad_zeros_replicate [of "m @ [0x80]"] by blast
  then have "length (sha_padded m) = (length (m @ [0x80 :: byte]) + z) + 8"
    and "(length (m @ [0x80 :: byte]) + z) mod 64 = 56"
    by (simp_all add: sha_padded_def sha_length_bytes_def Let_def)
  then show ?thesis
    using mod_add_left_eq [of "length (m @ [0x80 :: byte]) + z" 64 8] by simp
qed

section \<open>The implementation meets the standard\<close>

lemma mask_ff: "(0xff :: 'a::len word) = mask 8" by (simp add: mask_eq_exp_minus_1)

lemma ucast_low_byte: "(ucast (x AND 0xff) :: byte) = ucast (x :: 'a::len word)"
  by (rule bit_word_eqI) (auto simp: mask_ff bit_simps dest: bit_imp_le_length)

lemma ucast_drop_of_nat:
  assumes "k \<le> 56"
  shows "(ucast (drop_bit k (of_nat n :: u64)) :: byte) = of_nat (n div 2 ^ k)"
proof (rule bit_word_eqI)
  fix i assume "i < LENGTH(8)"
  with assms show "bit (ucast (drop_bit k (of_nat n :: u64)) :: byte) i \<longleftrightarrow>
      bit (of_nat (n div 2 ^ k) :: byte) i"
    by (simp add: bit_simps drop_bit_eq_div [symmetric])
qed

lemma sha_length_bytes_nat:
  "sha_length_bytes (of_nat n * 8) = map (\<lambda>i. of_nat (8 * n div 256 ^ (7 - i))) [0..<8]"
proof -
  have eq: "of_nat n * (8 :: u64) = of_nat (8 * n)" by simp
  have "2 ^ (8 * k) = (256 :: nat) ^ k" for k by (simp add: power_mult)
  then have "(ucast (drop_bit (8 * k) (of_nat (8 * n) :: u64)) :: byte) = of_nat (8 * n div 256 ^ k)"
    if "k \<le> 7" for k
    using that by (subst ucast_drop_of_nat) (simp_all del: of_nat_mult)
  from this [of 0] this [of 1] this [of 2] this [of 3] this [of 4] this [of 5] this [of 6] this [of 7]
  show ?thesis
    unfolding sha_length_bytes_def eq ucast_low_byte by (simp add: upt_rec)
qed

lemma sha_padded_fips: "fips_padded m (sha_padded m)"
proof -
  obtain z where z: "z < 64" "sha_pad_zeros (m @ [0x80]) = (m @ [0x80]) @ replicate z 0"
    and len: "(length (m @ [0x80 :: byte]) + z) mod 64 = 56"
    using sha_pad_zeros_replicate [of "m @ [0x80]"] by blast
  have "(8 * (length m + 1 + z)) mod (8 * 64) = 8 * ((length m + 1 + z) mod 64)"
    by (rule mult_mod_right [symmetric])
  with len z show ?thesis
    unfolding fips_padded_def sha_padded_def Let_def sha_length_bytes_nat
    by (intro exI [of _ z]) simp
qed

lemma RotR_rotr: "0 < n \<Longrightarrow> n < 32 \<Longrightarrow> RotR x n = word_rotr n x"
proof (rule bit_word_eqI)
  fix i assume n: "0 < n" "n < 32" and i: "i < LENGTH(32)"
  have "(i + n) mod 32 = (if i + n < 32 then i + n else i + n - 32)"
    using i n by (simp add: mod_if)
  with i n show "bit (RotR x n) i \<longleftrightarrow> bit (word_rotr n x) i"
    by (auto simp: RotR_def bit_simps bit_word_rotr_iff add.commute dest: bit_imp_le_length)
qed

lemmas rotr_simps = RotR_rotr fips_Sigma0_def fips_Sigma1_def fips_sigma0_def fips_sigma1_def
  fips_Ch_def fips_Maj_def

lemma sha_round_fips: "sha_round w i st = fips_step (sha_k ! i) (w ! i) st"
  by (simp add: sha_round_def fips_step_def rotr_simps Let_def split: prod.splits)

lemma ucast_disjoint_or:
  fixes a b c d :: byte
  shows "push_bit 24 (ucast a) OR push_bit 16 (ucast b) OR push_bit 8 (ucast c) OR ucast d =
    (of_nat (2 ^ 24 * unat a + 2 ^ 16 * unat b + 2 ^ 8 * unat c + unat d) :: u32)"
proof -
  have le: "bit (ucast x :: u32) i \<longleftrightarrow> bit x i" for x :: byte and i
    by (auto simp: bit_simps dest: bit_imp_le_length)
  have small: "bit x i \<Longrightarrow> i < 8" for x :: byte and i
    by (auto dest: bit_imp_le_length)
  have 1: "push_bit 8 (ucast c) OR ucast d = (push_bit 8 (ucast c) + ucast d :: u32)"
    by (rule disjunctive_add [symmetric]) (auto simp: bit_simps le dest: small)
  have 2: "push_bit 16 (ucast b) OR (push_bit 8 (ucast c) OR ucast d) =
      (push_bit 16 (ucast b) + (push_bit 8 (ucast c) OR ucast d) :: u32)"
    by (rule disjunctive_add [symmetric]) (auto simp: bit_simps le dest: small)
  have 3: "push_bit 24 (ucast a) OR (push_bit 16 (ucast b) OR (push_bit 8 (ucast c) OR ucast d)) =
      (push_bit 24 (ucast a) + (push_bit 16 (ucast b) OR (push_bit 8 (ucast c) OR ucast d)) :: u32)"
    by (rule disjunctive_add [symmetric]) (auto simp: bit_simps le dest: small)
  have of_unat: "of_nat (unat x) = (ucast x :: u32)" for x :: byte
    by simp
  show ?thesis
    unfolding 3 unfolding 2 unfolding 1 by (simp add: push_bit_eq_mult of_unat algebra_simps)
qed

lemma sha_load_fips: "sha_load data (64 * i) t = fips_M data i t"
  unfolding sha_load_def fips_M_def Let_def ucast_disjoint_or by (simp add: mult.commute)

lemma length_fold_extend: "length (fold sha_extend is w) = length w + length is"
  by (induction "is" arbitrary: w) (simp_all add: sha_extend_def Let_def)

lemma sha_extend_fips:
  assumes "n \<ge> 16" and "w = map (fips_W M) [0..<n]"
  shows "sha_extend n w = w @ [fips_W M n]"
  using assms
  by (simp add: sha_extend_def Let_def rotr_simps fips_W.simps [of M n] add.assoc add.commute add.left_commute)

lemma fold_extend_fips:
  "16 \<le> n \<Longrightarrow> fold sha_extend [16..<n] (map (fips_W M) [0..<16]) = map (fips_W M) [0..<n]"
proof (induction n rule: nat_induct_at_least)
  case base
  show ?case by simp
next
  case (Suc n)
  then show ?case by (simp add: sha_extend_fips)
qed

lemma sha_words_fips: "sha_words data (64 * i) = map (fips_W (fips_M data i)) [0..<64]"
proof -
  have "map (sha_load data (64 * i)) [0..<16] = map (fips_W (fips_M data i)) [0..<16]"
    by (rule map_cong) (simp_all add: sha_load_fips fips_W.simps)
  moreover have "16 \<le> (64 :: nat)" by simp
  ultimately show ?thesis unfolding sha_words_def by (simp only: fold_extend_fips)
qed

lemma fold_round_fips:
  "n \<le> length w \<Longrightarrow> fold (sha_round w) [0..<n] st = fips_rounds (\<lambda>t. w ! t) n st"
  by (induction n) (simp_all add: sha_round_fips)

lemma fips_rounds_cong:
  "(\<And>t. t < n \<Longrightarrow> W t = W' t) \<Longrightarrow> fips_rounds W n st = fips_rounds W' n st"
  by (induction n) simp_all

lemma sha_chunk_fips:
  "sha_chunk data (64 * i) hs = sha_add hs (fips_rounds (fips_W (fips_M data i)) 64 hs)"
proof -
  have "fold (sha_round (sha_words data (64 * i))) [0..<64] hs =
      fips_rounds (\<lambda>t. sha_words data (64 * i) ! t) 64 hs"
    by (rule fold_round_fips) (simp add: sha_words_fips)
  also have "\<dots> = fips_rounds (fips_W (fips_M data i)) 64 hs"
    by (rule fips_rounds_cong) (simp add: sha_words_fips)
  finally show ?thesis by (simp add: sha_chunk_def Let_def)
qed

lemma sha_loop_fips:
  assumes "length data = 64 * N" and "i \<le> N"
  shows "sha_loop data (64 * i) (fips_H data i) = fips_H data N"
  using assms(2)
proof (induction i rule: inc_induct)
  case base
  show ?case using assms by (simp add: sha_loop.simps)
next
  case (step i)
  then have "64 * i < length data" using assms by simp
  then show ?case
    using step.IH by (subst sha_loop.simps) (simp add: sha_chunk_fips add.commute)
qed

lemma Sha256_fips_H:
  "Sha256 m = sha_digest (fips_H (sha_padded m) (length (sha_padded m) div 64))"
proof -
  have "length (sha_padded m) = 64 * (length (sha_padded m) div 64)"
    using length_sha_padded_mod [of m] by presburger
  from sha_loop_fips [OF this, of 0] show ?thesis by (simp add: Sha256_def)
qed

lemma length_sha_digest [simp]: "length (sha_digest hs) = 32"
  by (simp add: sha_digest_def word_bytes_def split: prod.splits)

lemma length_Sha256 [simp]: "length (Sha256 m) = 32"
  by (simp add: Sha256_def)

lemma length_HmacSha256 [simp]: "length (HmacSha256 key m) = 32"
  by (simp add: HmacSha256_def Let_def)

lemma length_hmac_key: "length (hmac_key key) = 64"
  by (simp add: hmac_key_def Let_def)

section \<open>The constants\<close>

lemma fips_primes_eq:
  "fips_primes =
     [2, 3, 5, 7, 11, 13, 17, 19, 23, 29, 31, 37, 41, 43, 47, 53, 59, 61, 67, 71, 73, 79, 83,
      89, 97, 101, 103, 107, 109, 113, 127, 131, 137, 139, 149, 151, 157, 163, 167, 173,
      179, 181, 191, 193, 197, 199, 211, 223, 227, 229, 233, 239, 241, 251, 257, 263, 269,
      271, 277, 281, 283, 293, 307, 311]"
  by code_simp

lemma sha_k_frac: "list_all2 (fips_frac 3) fips_primes sha_k"
  unfolding fips_primes_eq by code_simp

lemma sha_init_frac:
  "list_all2 (fips_frac 2) (take 8 fips_primes) (case sha_init of (a,b,c,d,e,f,g,h) \<Rightarrow> [a,b,c,d,e,f,g,h])"
  unfolding fips_primes_eq by code_simp

section \<open>Properties\<close>


end
