(* ===== verification/Base64Url.thy ===== *)
theory Base64Url
  imports Sha256
begin

unbundle bit_operations_syntax

text \<open>
  The base64url codec of \<^verbatim>\<open>src/auth/token_service.cc\<close>. Both loops keep
  their bits in an \<^verbatim>\<open>int\<close> that is shifted left without ever being masked:
  it is modelled by a 32-bit word that wraps, with the arithmetic right shift of a signed
  value, which is what the compiled code computes. A reference codec on groups of three
  bytes and four sextets follows, and the loops are proved to implement it.
\<close>

section \<open>The implementation\<close>

definition kBase64UrlAlphabet :: string where
  "kBase64UrlAlphabet = ''ABCDEFGHIJKLMNOPQRSTUVWXYZabcdefghijklmnopqrstuvwxyz0123456789-_''"

definition b64_char :: "u32 \<Rightarrow> nat \<Rightarrow> char" where
  "b64_char value shift = kBase64UrlAlphabet ! unat (signed_drop_bit shift value AND 0x3F)"

text \<open>The inner loop \<^verbatim>\<open>while (bits >= 0)\<close>.\<close>

function b64_flush :: "u32 \<Rightarrow> int \<Rightarrow> string \<Rightarrow> int \<times> string" where
  "b64_flush value bits output =
     (if bits \<ge> 0 then b64_flush value (bits - 6) (output @ [b64_char value (nat bits)])
      else (bits, output))"
  by pat_completeness auto
termination
  by (relation "measure (\<lambda>(value, bits, output). nat (bits + 6))") auto

declare b64_flush.simps [simp del]

fun b64_encode_loop :: "byte list \<Rightarrow> u32 \<Rightarrow> int \<Rightarrow> string \<Rightarrow> string" where
  "b64_encode_loop [] value bits output =
     (if bits > -6 then output @ [b64_char (push_bit 8 value) (nat (bits + 8))] else output)"
| "b64_encode_loop (d # data) value bits output =
     (let value = push_bit 8 value + ucast d;
          (bits, output) = b64_flush value (bits + 8) output
      in b64_encode_loop data value bits output)"

definition Base64UrlEncodeBytes :: "byte list \<Rightarrow> string" where
  "Base64UrlEncodeBytes data = b64_encode_loop data 0 (-6) []"

definition Base64UrlEncode :: "string \<Rightarrow> string" where
  "Base64UrlEncode input = Base64UrlEncodeBytes (bytes_of input)"

definition Base64UrlValue :: "char \<Rightarrow> int" where
  "Base64UrlValue c =
     (if code c \<ge> 65 \<and> code c \<le> 90 then int (code c) - 65
      else if code c \<ge> 97 \<and> code c \<le> 122 then int (code c) - 97 + 26
      else if code c \<ge> 48 \<and> code c \<le> 57 then int (code c) - 48 + 52
      else if c = CHR ''-'' then 62
      else if c = CHR ''_'' then 63
      else -1)"

fun b64_decode_loop :: "string \<Rightarrow> u32 \<Rightarrow> int \<Rightarrow> string \<Rightarrow> string option" where
  "b64_decode_loop [] value bits output = Some output"
| "b64_decode_loop (c # input) value bits output =
     (let decoded = Base64UrlValue c in
      if decoded < 0 then None
      else let value = push_bit 6 value + of_int decoded; bits = bits + 6 in
        if bits \<ge> 0
        then b64_decode_loop input value (bits - 8)
               (output @ [char_of (unat (signed_drop_bit (nat bits) value AND 0xFF))])
        else b64_decode_loop input value bits output)"

definition Base64UrlDecode :: "string \<Rightarrow> string option" where
  "Base64UrlDecode input = b64_decode_loop input 0 (-8) []"

section \<open>The reference codec\<close>

fun b64_sextets :: "nat list \<Rightarrow> nat list" where
  "b64_sextets [] = []"
| "b64_sextets [a] = [a div 4, (a mod 4) * 16]"
| "b64_sextets [a, b] = [a div 4, (a mod 4) * 16 + b div 16, (b mod 16) * 4]"
| "b64_sextets (a # b # c # r) =
     [a div 4, (a mod 4) * 16 + b div 16, (b mod 16) * 4 + c div 64, c mod 64] @ b64_sextets r"

fun b64_octets :: "nat list \<Rightarrow> nat list" where
  "b64_octets [] = []"
| "b64_octets [w] = []"
| "b64_octets [w, x] = [w * 4 + x div 16]"
| "b64_octets [w, x, y] = [w * 4 + x div 16, (x mod 16) * 16 + y div 4]"
| "b64_octets (w # x # y # z # r) =
     [w * 4 + x div 16, (x mod 16) * 16 + y div 4, (y mod 4) * 64 + z] @ b64_octets r"

lemma b64_octets_sextets:
  "\<forall>b \<in> set bs. b < 256 \<Longrightarrow> b64_octets (b64_sextets bs) = bs"
proof (induction bs rule: b64_sextets.induct)
  case (4 a b c r)
  have "(b mod 16 * 4 + c div 64) div 4 = b mod 16 + c div 64 div 4" by simp
  with 4 show ?case by (auto simp: div_mult2_eq [symmetric] mod_mult2_eq [symmetric])
qed (auto simp: div_add1_eq)

lemma b64_sextets_less: "\<forall>b \<in> set bs. b < 256 \<Longrightarrow> s \<in> set (b64_sextets bs) \<Longrightarrow> s < 64"
  by (induction bs rule: b64_sextets.induct) auto

section \<open>Reading bits off the accumulator\<close>

lemma signed_drop_bit_mask:
  assumes "n + k \<le> 32"
  shows "signed_drop_bit n (w :: u32) AND mask k = drop_bit n w AND mask k"
proof (rule bit_word_eqI)
  fix i assume "i < LENGTH(32)"
  then show "bit (signed_drop_bit n w AND mask k) i \<longleftrightarrow> bit (drop_bit n w AND mask k) i"
    using assms by (auto simp: bit_simps dest: bit_imp_le_length)
qed

lemma unat_signed_drop_bit_mask:
  assumes "n + k \<le> 32"
  shows "unat (signed_drop_bit n (of_nat x :: u32) AND mask k) = (x div 2 ^ n) mod 2 ^ k"
proof -
  have "unat (drop_bit n (of_nat x :: u32) AND mask k) = take_bit k (drop_bit n x)"
    using assms by (intro bit_eqI) (auto simp: bit_simps)
  then show ?thesis
    using assms by (simp add: signed_drop_bit_mask take_bit_eq_mod drop_bit_eq_div)
qed

lemma mask_3f: "(0x3F :: u32) = mask 6" by (simp add: mask_eq_exp_minus_1)
lemma mask_ff32: "(0xFF :: u32) = mask 8" by (simp add: mask_eq_exp_minus_1)

lemma b64_char_nat:
  "n + 6 \<le> 32 \<Longrightarrow> b64_char (of_nat x) n = kBase64UrlAlphabet ! ((x div 2 ^ n) mod 64)"
  by (simp add: b64_char_def mask_3f unat_signed_drop_bit_mask)

lemma push_bit_of_nat: "push_bit k (of_nat x) = (of_nat (x * 2 ^ k) :: u32)"
  by (simp add: push_bit_eq_mult mult.commute)

lemma ucast_byte: "(ucast (d :: byte) :: u32) = of_nat (unat d)"
  by simp

lemma b64_flush_simps:
  "b64_flush v 2 out = (-4, out @ [b64_char v 2])"
  "b64_flush v 4 out = (-2, out @ [b64_char v 4])"
  "b64_flush v 6 out = (-6, out @ [b64_char v 6, b64_char v 0])"
  by (simp_all add: b64_flush.simps)

lemma b64_encode_step:
  "b64_encode_loop (d # data) (of_nat x) bits out =
     (case b64_flush (of_nat (x * 256 + unat d)) (bits + 8) out of
        (bits, out) \<Rightarrow> b64_encode_loop data (of_nat (x * 256 + unat d)) bits out)"
  by (simp add: push_bit_of_nat Let_def del: of_nat_add of_nat_mult) (simp add: push_bit_eq_mult mult.commute)


lemma byte_less: "unat (d :: byte) < 256"
  using unsigned_less [of d] by simp

lemma drop_high: "(y * (k * m) + c) mod m = c mod (m :: nat)"
  by (metis mod_mult_self3 mult.assoc)

lemma group_digits: "q < m \<Longrightarrow> (y * m + q) mod (m * k) = (y mod k) * m + (q :: nat)"
  by (simp add: mod_mult2_eq)

lemma shift_group:
  assumes "0 < m" "q < j * m"
  shows "(y * (j * m) + q) div m mod (j * k) = (y mod k) * j + q div (m :: nat)"
proof -
  have "y * (j * m) + q = (y * j) * m + q" by simp
  then have "(y * (j * m) + q) div m = y * j + q div m"
    using assms by (simp only: div_mult_self3)
  moreover have "q div m < j" using assms by (simp add: less_mult_imp_div_less)
  ultimately show ?thesis using group_digits [of "q div m" j y k] by simp
qed

lemma sextet_simps:
  "a < 256 \<Longrightarrow> (y * 256 + a) div 4 mod 64 = a div (4 :: nat)"
  "b < 256 \<Longrightarrow> (y * 256 + b) div 16 mod 64 = (y mod 4) * 16 + b div (16 :: nat)"
  "c < 256 \<Longrightarrow> (y * 256 + c) div 64 mod 64 = (y mod 16) * 4 + c div (64 :: nat)"
  "(y * 256 + c) mod 64 = c mod (64 :: nat)"
  "(y * 256 + c) mod 16 = c mod (16 :: nat)"
  "(y * 256 + c) mod 4 = c mod (4 :: nat)"
  using shift_group [of 4 a 64 y 1] shift_group [of 16 b 16 y 4] shift_group [of 64 c 4 y 16]
    drop_high [of y 4 64 c] drop_high [of y 16 16 c] drop_high [of y 64 4 c]
  by simp_all

lemma b64_char_last:
  "b64_char (push_bit 8 (of_nat x)) 4 = kBase64UrlAlphabet ! ((x mod 4) * 16)"
  "b64_char (push_bit 8 (of_nat x)) 6 = kBase64UrlAlphabet ! ((x mod 16) * 4)"
  using sextet_simps(2) [of 0 x] sextet_simps(3) [of 0 x]
  by (simp_all add: push_bit_of_nat b64_char_nat del: of_nat_mult)

lemma b64_encode_loop_sextets:
  "b64_encode_loop data (of_nat x) (-6) out =
     out @ map ((!) kBase64UrlAlphabet) (b64_sextets (map unat data))"
proof (induction "map unat data" arbitrary: data x out rule: b64_sextets.induct)
  case 1
  then show ?case by simp
next
  case (2 a)
  then obtain d where "data = [d]" "a = unat d" by auto
  then show ?case
    by (simp add: b64_encode_step b64_flush_simps b64_char_nat b64_char_last sextet_simps byte_less
        del: b64_encode_loop.simps(2) of_nat_add of_nat_mult distrib_left_numeral distrib_right_numeral)
next
  case (3 a b)
  then obtain d e where "data = [d, e]" by (auto simp: map_eq_Cons_conv)
  then show ?case
    by (simp add: b64_encode_step b64_flush_simps b64_char_nat b64_char_last sextet_simps byte_less
        del: b64_encode_loop.simps(2) of_nat_add of_nat_mult distrib_left_numeral distrib_right_numeral)
next
  case (4 a b c r)
  then obtain d e f data' where data: "data = d # e # f # data'" and r: "r = map unat data'"
    by (auto simp: Cons_eq_map_conv)
  show ?case
    unfolding data
    using 4(1) [OF r, of "((x * 256 + unat d) * 256 + unat e) * 256 + unat f"]
    by (simp add: b64_encode_step b64_flush_simps b64_char_nat sextet_simps byte_less
        del: b64_encode_loop.simps(2) of_nat_add of_nat_mult distrib_left_numeral distrib_right_numeral)
qed

section \<open>Decoding\<close>

lemma Base64UrlValue_alphabet:
  assumes "n < 64"
  shows "Base64UrlValue (kBase64UrlAlphabet ! n) = int n"
proof -
  have "list_all (\<lambda>n. Base64UrlValue (kBase64UrlAlphabet ! n) = int n) [0..<64]"
    by code_simp
  with assms show ?thesis by (auto simp: list_all_iff)
qed

lemma octet_simps:
  "x < 64 \<Longrightarrow> (y * 64 + x) div 16 mod 256 = (y mod 64) * 4 + x div (16 :: nat)"
  "x < 64 \<Longrightarrow> (y * 64 + x) div 4 mod 256 = (y mod 16) * 16 + x div (4 :: nat)"
  "x < 64 \<Longrightarrow> (y * 64 + x) mod 256 = (y mod 4) * 64 + (x :: nat)"
  "x < 64 \<Longrightarrow> (y * 64 + x) mod 64 = (x :: nat)"
  "(y * 64 + x) mod 16 = x mod (16 :: nat)"
  "(y * 64 + x) mod 4 = x mod (4 :: nat)"
  using shift_group [of 16 x 4 y 64] shift_group [of 4 x 16 y 16] group_digits [of x 64 y 4]
    drop_high [of y 4 16 x] drop_high [of y 16 4 x]
  by simp_all

lemma b64_decode_step:
  assumes "n < 64"
  shows "b64_decode_loop (kBase64UrlAlphabet ! n # input) (of_nat v) bits out =
     (if 0 \<le> bits + 6
      then b64_decode_loop input (of_nat (v * 64 + n)) (bits - 2)
             (out @ [char_of (unat (signed_drop_bit (nat (bits + 6)) (of_nat (v * 64 + n) :: u32) AND 0xFF))])
      else b64_decode_loop input (of_nat (v * 64 + n)) (bits + 6) out)"
  using assms
  by (simp add: Let_def Base64UrlValue_alphabet push_bit_of_nat algebra_simps)

lemma octet_nat:
  "n + 8 \<le> 32 \<Longrightarrow> unat (signed_drop_bit n (of_nat x :: u32) AND 0xFF) = (x div 2 ^ n) mod 256"
  by (simp add: mask_ff32 unat_signed_drop_bit_mask)

lemma octet_nat_0: "unat ((of_nat x :: u32) AND 0xFF) = x mod 256"
  using octet_nat [of 0 x] by simp

lemma b64_decode_loop_octets:
  "\<forall>n \<in> set ns. n < 64 \<Longrightarrow>
   b64_decode_loop (map ((!) kBase64UrlAlphabet) ns) (of_nat v) (-8) out =
     Some (out @ map char_of (b64_octets ns))"
proof (induction ns arbitrary: v out rule: b64_octets.induct)
  case (5 w x y z r)
  then show ?case
    using "5.IH" [of "(((v * 64 + w) * 64 + x) * 64 + y) * 64 + z"]
    by (simp add: b64_decode_step octet_nat octet_nat_0 octet_simps
        del: b64_decode_loop.simps(2) of_nat_add of_nat_mult distrib_left_numeral distrib_right_numeral)
qed (simp_all add: b64_decode_step octet_nat octet_nat_0 octet_simps
        del: b64_decode_loop.simps(2) of_nat_add of_nat_mult distrib_left_numeral distrib_right_numeral)

section \<open>Round trip\<close>

lemma unat_byte_of_char [simp]: "unat (byte_of_char c) = code c"
  by (simp add: byte_of_char_def unat_of_nat)

lemma Base64UrlEncodeBytes_sextets:
  "Base64UrlEncodeBytes data = map ((!) kBase64UrlAlphabet) (b64_sextets (map unat data))"
  using b64_encode_loop_sextets [of data 0 "[]"] by (simp add: Base64UrlEncodeBytes_def)

lemma map_unat_less: "\<forall>b \<in> set (map unat (data :: byte list)). b < 256"
  by (auto simp: byte_less)

lemma Base64UrlDecode_EncodeBytes:
  "Base64UrlDecode (Base64UrlEncodeBytes data) = Some (map (\<lambda>b. char_of (unat b)) data)"
proof -
  have "\<forall>n \<in> set (b64_sextets (map unat data)). n < 64"
    using b64_sextets_less [OF map_unat_less] by blast
  from b64_decode_loop_octets [OF this, of 0 "[]"] show ?thesis
    by (simp add: Base64UrlDecode_def Base64UrlEncodeBytes_sextets b64_octets_sextets byte_less o_def)
qed

lemma Base64UrlDecode_Encode [simp]: "Base64UrlDecode (Base64UrlEncode s) = Some s"
  by (simp add: Base64UrlEncode_def Base64UrlDecode_EncodeBytes bytes_of_def o_def)

lemma Base64UrlEncodeBytes_chars:
  assumes "c \<in> set (Base64UrlEncodeBytes data)"
  shows "0 \<le> Base64UrlValue c"
proof -
  obtain n where "c = kBase64UrlAlphabet ! n" "n \<in> set (b64_sextets (map unat data))"
    using assms by (auto simp: Base64UrlEncodeBytes_sextets)
  with b64_sextets_less [OF map_unat_less] show ?thesis
    by (simp add: Base64UrlValue_alphabet)
qed

lemma dot_not_base64: "CHR ''.'' \<notin> set (Base64UrlEncodeBytes data)"
  using Base64UrlEncodeBytes_chars [of "CHR ''.''" data] by (auto simp: Base64UrlValue_def)

lemma length_Base64UrlEncodeBytes:
  "length (Base64UrlEncodeBytes data) = (4 * length data + 2) div 3"
proof -
  have "length (b64_sextets bs) = (4 * length bs + 2) div 3" for bs
    by (induction bs rule: b64_sextets.induct) simp_all
  then show ?thesis by (simp add: Base64UrlEncodeBytes_sextets)
qed

interpretation base64url: codec Base64UrlEncode Base64UrlDecode "\<lambda>_. True"
  by unfold_locales simp

section \<open>Properties\<close>

text \<open>
  Every byte string survives base64url encoding and decoding although the accumulator
  of both loops overflows its 32 bits after four bytes, the text has the unpadded length,
  and it consists of alphabet characters, none of which is the dot that separates the parts
  of a token.
\<close>

theorem Base64Url_roundtrip:
  "Base64UrlDecode (Base64UrlEncode s) = Some s \<and>
   length (Base64UrlEncode s) = (4 * length s + 2) div 3 \<and>
   (\<forall>c. c \<in> set (Base64UrlEncode s) \<longrightarrow> 0 \<le> Base64UrlValue c) \<and>
   CHR ''.'' \<notin> set (Base64UrlEncode s)"
  using Base64UrlEncodeBytes_chars
  by (auto simp: Base64UrlEncode_def dot_not_base64 length_Base64UrlEncodeBytes bytes_of_def
      Base64UrlDecode_EncodeBytes o_def)

theorem Base64Url_roundtrip_witness:
  "CHR ''Y'' \<in> set (Base64UrlEncode ''abc'') \<and> 0 \<le> Base64UrlValue (CHR ''Y'')"
proof -
  have "Base64UrlEncode ''abc'' = ''YWJj''" by code_simp
  then have "CHR ''Y'' \<in> set (Base64UrlEncode ''abc'')" by simp
  then show ?thesis using Base64Url_roundtrip [of "''abc''"] by blast
qed

end
