(* ===== verification/Http.thy ===== *)
theory Http
  imports CppStd
begin

text \<open>
  The message types every part of the gateway passes around
  (\<^verbatim>\<open>include/tgw/gateway/http_types.h\<close>) and the uniform JSON envelope of
  \<^verbatim>\<open>include/tgw/common/status.h\<close>: error codes, string escaping and
  \<^verbatim>\<open>ApiResponse\<close>.
\<close>

section \<open>Requests and responses\<close>

record HttpRequest =
  req_method :: string
  req_path :: string
  req_query :: string
  req_body :: string
  req_headers :: headers
  req_client_ip :: string
  req_request_id :: string

record HttpResponse =
  rsp_status :: int
  rsp_content_type :: string
  rsp_body :: string
  rsp_headers :: headers

text \<open>A default-constructed response.\<close>

definition HttpResponse_default :: HttpResponse where
  "HttpResponse_default =
     \<lparr>rsp_status = 200, rsp_content_type = ''application/json'', rsp_body = [], rsp_headers = []\<rparr>"

definition set_header :: "string \<Rightarrow> string \<Rightarrow> HttpResponse \<Rightarrow> HttpResponse" where
  "set_header k v rsp = rsp\<lparr>rsp_headers := om_put k v (rsp_headers rsp)\<rparr>"

abbreviation header :: "HttpResponse \<Rightarrow> string \<Rightarrow> string option" where
  "header rsp k \<equiv> om_get (rsp_headers rsp) k"

section \<open>Error codes\<close>

datatype ErrorCode =
    OK
  | BAD_REQUEST
  | UNAUTHORIZED
  | FORBIDDEN
  | NOT_FOUND
  | RATE_LIMITED
  | RPC_TIMEOUT
  | RPC_FAILED
  | INTERNAL_ERROR

fun ErrorCode_int :: "ErrorCode \<Rightarrow> int" where
  "ErrorCode_int OK = 0"
| "ErrorCode_int BAD_REQUEST = 40000"
| "ErrorCode_int UNAUTHORIZED = 40100"
| "ErrorCode_int FORBIDDEN = 40300"
| "ErrorCode_int NOT_FOUND = 40400"
| "ErrorCode_int RATE_LIMITED = 42900"
| "ErrorCode_int RPC_TIMEOUT = 50400"
| "ErrorCode_int RPC_FAILED = 50500"
| "ErrorCode_int INTERNAL_ERROR = 50000"

section \<open>JSON text\<close>

abbreviation LF :: char where "LF \<equiv> CHR 0x0A"
abbreviation CR :: char where "CR \<equiv> CHR 0x0D"
abbreviation TAB :: char where "TAB \<equiv> CHR 0x09"
abbreviation QUOTE :: char where "QUOTE \<equiv> CHR 0x22"
abbreviation BACKSLASH :: char where "BACKSLASH \<equiv> CHR 0x5C"

definition json_escape_char :: "char \<Rightarrow> string" where
  "json_escape_char c =
     (if c = QUOTE then [BACKSLASH, QUOTE]
      else if c = BACKSLASH then [BACKSLASH, BACKSLASH]
      else if c = LF then [BACKSLASH, CHR ''n'']
      else if c = CR then [BACKSLASH, CHR ''r'']
      else if c = TAB then [BACKSLASH, CHR ''t'']
      else [c])"

definition JsonEscape :: "string \<Rightarrow> string" where
  "JsonEscape s = concat (map json_escape_char s)"

text \<open>Text between double quotes, and a quoted key followed by a colon.\<close>

definition quoted :: "string \<Rightarrow> string" where
  "quoted s = QUOTE # s @ [QUOTE]"

definition json_key :: "string \<Rightarrow> string" where
  "json_key k = quoted k @ '':''"

record ApiResponse =
  api_code :: int
  api_message :: string
  api_data_raw_json :: string

definition ApiResponse_Success :: "string \<Rightarrow> ApiResponse" where
  "ApiResponse_Success raw_json =
     \<lparr>api_code = ErrorCode_int OK, api_message = ''ok'',
      api_data_raw_json = (if raw_json = [] then ''null'' else raw_json)\<rparr>"

definition ApiResponse_Error :: "ErrorCode \<Rightarrow> string \<Rightarrow> ApiResponse" where
  "ApiResponse_Error c message =
     \<lparr>api_code = ErrorCode_int c, api_message = message, api_data_raw_json = ''null''\<rparr>"

definition ToJson :: "ApiResponse \<Rightarrow> string" where
  "ToJson r =
     ''{'' @ json_key ''code'' @ show_int (api_code r) @ '','' @
     json_key ''message'' @ quoted (JsonEscape (api_message r)) @ '','' @
     json_key ''data'' @ api_data_raw_json r @ ''}''"

section \<open>Lemmas\<close>

lemma set_header_simps [simp]:
  "rsp_status (set_header k v rsp) = rsp_status rsp"
  "rsp_content_type (set_header k v rsp) = rsp_content_type rsp"
  "rsp_body (set_header k v rsp) = rsp_body rsp"
  "rsp_headers (set_header k v rsp) = om_put k v (rsp_headers rsp)"
  by (simp_all add: set_header_def)

lemma JsonEscape_simps [simp]:
  "JsonEscape [] = []"
  "JsonEscape (c # s) = json_escape_char c @ JsonEscape s"
  "JsonEscape (s @ t) = JsonEscape s @ JsonEscape t"
  by (simp_all add: JsonEscape_def)

lemma json_escape_char_plain:
  "c \<notin> {QUOTE, BACKSLASH, LF, CR, TAB} \<Longrightarrow> json_escape_char c = [c]"
  by (simp add: json_escape_char_def)

text \<open>Either the character is copied, or a backslash and one of five letters stand for it.\<close>

lemma json_escape_char_cases:
  obtains (plain) "json_escape_char c = [c]" "c \<noteq> QUOTE" "c \<noteq> BACKSLASH" "c \<notin> {LF, CR, TAB}"
  | (special) e where "json_escape_char c = [BACKSLASH, e]"
      "e \<in> {QUOTE, BACKSLASH, CHR ''n'', CHR ''r'', CHR ''t''}"
  by (cases "c \<in> {QUOTE, BACKSLASH, LF, CR, TAB}") (auto simp: json_escape_char_def)

lemma JsonEscape_no_control: "c \<in> set (JsonEscape s) \<Longrightarrow> c \<notin> {LF, CR, TAB}"
  by (induction s) (auto simp: json_escape_char_def split: if_splits)

lemma JsonEscape_plain:
  "set s \<inter> {QUOTE, BACKSLASH, LF, CR, TAB} = {} \<Longrightarrow> JsonEscape s = s"
  by (induction s) (auto simp: json_escape_char_plain)

lemma ErrorCode_int_inj: "ErrorCode_int a = ErrorCode_int b \<longleftrightarrow> a = b"
  by (cases a; cases b) simp_all

end
