(* ===== verification/Config.thy ===== *)
theory Config
  imports Complex_Main CppStd
begin

text \<open>
  The configuration structures of \<^verbatim>\<open>include/tgw/common/config.h\<close>, field by
  field, with the values a default-constructed object has. Ports and sizes are unsigned
  and modelled by \<^typ>\<open>nat\<close>, \<^verbatim>\<open>int\<close> fields by \<^typ>\<open>int\<close>, and the one
  \<^verbatim>\<open>double\<close> by a rational number.
\<close>

record ServerConfig =
  srv_name :: string
  srv_host :: string
  srv_port :: nat
  srv_keep_alive :: bool
  srv_read_timeout_ms :: int
  srv_write_timeout_ms :: int
  srv_body_limit_bytes :: nat

definition ServerConfig_default :: ServerConfig where
  "ServerConfig_default =
     \<lparr>srv_name = ''tgw-gateway'', srv_host = ''0.0.0.0'', srv_port = 8080,
      srv_keep_alive = True, srv_read_timeout_ms = 3000, srv_write_timeout_ms = 3000,
      srv_body_limit_bytes = 1048576\<rparr>"

record RuntimeConfig =
  rt_io_threads :: int
  rt_worker_threads :: int

definition RuntimeConfig_default :: RuntimeConfig where
  "RuntimeConfig_default = \<lparr>rt_io_threads = 2, rt_worker_threads = 4\<rparr>"

record LogConfig =
  log_level :: string
  log_path :: string
  log_async :: bool

definition LogConfig_default :: LogConfig where
  "LogConfig_default =
     \<lparr>log_level = ''info'', log_path = ''logs/gateway.log'', log_async = False\<rparr>"

record GatewayConfig =
  gw_enable_auth :: bool
  gw_enable_rate_limit :: bool
  gw_enable_tracing :: bool
  gw_request_timeout_ms :: int

definition GatewayConfig_default :: GatewayConfig where
  "GatewayConfig_default =
     \<lparr>gw_enable_auth = True, gw_enable_rate_limit = True, gw_enable_tracing = True,
      gw_request_timeout_ms = 3000\<rparr>"

record UserServiceRpcConfig =
  usr_enabled :: bool
  usr_host :: string
  usr_port :: nat
  usr_timeout_ms :: int

definition UserServiceRpcConfig_default :: UserServiceRpcConfig where
  "UserServiceRpcConfig_default =
     \<lparr>usr_enabled = False, usr_host = ''127.0.0.1'', usr_port = 9001, usr_timeout_ms = 1000\<rparr>"

record AuthConfig =
  auth_enabled :: bool
  auth_jwt_secret :: string
  auth_token_ttl_seconds :: int
  auth_rbac_enabled :: bool
  auth_public_paths :: "string list"

definition AuthConfig_default :: AuthConfig where
  "AuthConfig_default =
     \<lparr>auth_enabled = True, auth_jwt_secret = ''tgw-dev-secret'', auth_token_ttl_seconds = 7200,
      auth_rbac_enabled = True, auth_public_paths = [''/api/user/login'']\<rparr>"

record RbacRuleConfig =
  rbac_path :: string
  rbac_roles :: "string list"

record MysqlConfig =
  my_enabled :: bool
  my_host :: string
  my_port :: nat
  my_user :: string
  my_password :: string
  my_database :: string

definition MysqlConfig_default :: MysqlConfig where
  "MysqlConfig_default =
     \<lparr>my_enabled = False, my_host = ''127.0.0.1'', my_port = 3306, my_user = ''tgw'',
      my_password = ''tgw'', my_database = ''tgw_gateway''\<rparr>"

record RateLimitRuleConfig =
  rl_rule_path :: string
  rl_rule_max_requests :: int

record RedisRateLimitConfig =
  redis_enabled :: bool
  redis_host :: string
  redis_port :: nat
  redis_key_prefix :: string
  redis_fail_open :: bool

definition RedisRateLimitConfig_default :: RedisRateLimitConfig where
  "RedisRateLimitConfig_default =
     \<lparr>redis_enabled = False, redis_host = ''127.0.0.1'', redis_port = 6379,
      redis_key_prefix = ''tgw:rate_limit'', redis_fail_open = True\<rparr>"

record RateLimitConfig =
  rl_enabled :: bool
  rl_window_seconds :: int
  rl_default_max_requests :: int
  rl_redis :: RedisRateLimitConfig
  rl_rules :: "RateLimitRuleConfig list"

definition RateLimitConfig_default :: RateLimitConfig where
  "RateLimitConfig_default =
     \<lparr>rl_enabled = True, rl_window_seconds = 60, rl_default_max_requests = 120,
      rl_redis = RedisRateLimitConfig_default, rl_rules = []\<rparr>"

record RetryConfig =
  retry_enabled :: bool
  retry_max_attempts :: int
  retry_backoff_ms :: int
  retry_non_idempotent :: bool

definition RetryConfig_default :: RetryConfig where
  "RetryConfig_default =
     \<lparr>retry_enabled = True, retry_max_attempts = 2, retry_backoff_ms = 20,
      retry_non_idempotent = False\<rparr>"

record CircuitBreakerConfig =
  cb_enabled :: bool
  cb_failure_threshold :: int
  cb_open_seconds :: int
  cb_half_open_success_threshold :: int

definition CircuitBreakerConfig_default :: CircuitBreakerConfig where
  "CircuitBreakerConfig_default =
     \<lparr>cb_enabled = True, cb_failure_threshold = 5, cb_open_seconds = 10,
      cb_half_open_success_threshold = 2\<rparr>"

record FallbackConfig =
  fb_enabled :: bool
  fb_message :: string

definition FallbackConfig_default :: FallbackConfig where
  "FallbackConfig_default = \<lparr>fb_enabled = True, fb_message = ''service degraded''\<rparr>"

record GovernanceConfig =
  gov_enabled :: bool
  gov_retry :: RetryConfig
  gov_circuit_breaker :: CircuitBreakerConfig
  gov_fallback :: FallbackConfig

definition GovernanceConfig_default :: GovernanceConfig where
  "GovernanceConfig_default =
     \<lparr>gov_enabled = True, gov_retry = RetryConfig_default,
      gov_circuit_breaker = CircuitBreakerConfig_default, gov_fallback = FallbackConfig_default\<rparr>"

record TracingConfig =
  tr_enabled :: bool
  tr_service_name :: string
  tr_sample_ratio :: rat
  tr_max_finished_spans :: nat
  tr_accept_traceparent :: bool
  tr_expose_debug_headers :: bool
  tr_otlp_exporter_enabled :: bool
  tr_otlp_host :: string
  tr_otlp_http_port :: nat
  tr_otlp_path :: string
  tr_otlp_timeout_ms :: int

definition TracingConfig_default :: TracingConfig where
  "TracingConfig_default =
     \<lparr>tr_enabled = True, tr_service_name = ''tgw-gateway'', tr_sample_ratio = 1,
      tr_max_finished_spans = 1024, tr_accept_traceparent = True,
      tr_expose_debug_headers = False, tr_otlp_exporter_enabled = False,
      tr_otlp_host = ''127.0.0.1'', tr_otlp_http_port = 4318, tr_otlp_path = ''/v1/traces'',
      tr_otlp_timeout_ms = 1000\<rparr>"

record RouteConfig =
  rc_name :: string
  rc_match_type :: string
  rc_path :: string
  rc_upstream :: string
  rc_strip_prefix :: bool
  rc_timeout_ms :: int

definition RouteConfig_default :: RouteConfig where
  "RouteConfig_default =
     \<lparr>rc_name = [], rc_match_type = ''prefix'', rc_path = [], rc_upstream = [],
      rc_strip_prefix = True, rc_timeout_ms = 1000\<rparr>"

record AppConfig =
  app_server :: ServerConfig
  app_runtime :: RuntimeConfig
  app_log :: LogConfig
  app_gateway :: GatewayConfig
  app_user_service_rpc :: UserServiceRpcConfig
  app_mysql :: MysqlConfig
  app_auth :: AuthConfig
  app_rbac_rules :: "RbacRuleConfig list"
  app_rate_limit :: RateLimitConfig
  app_governance :: GovernanceConfig
  app_tracing :: TracingConfig
  app_routes :: "RouteConfig list"

definition AppConfig_default :: AppConfig where
  "AppConfig_default =
     \<lparr>app_server = ServerConfig_default, app_runtime = RuntimeConfig_default,
      app_log = LogConfig_default, app_gateway = GatewayConfig_default,
      app_user_service_rpc = UserServiceRpcConfig_default, app_mysql = MysqlConfig_default,
      app_auth = AuthConfig_default, app_rbac_rules = [],
      app_rate_limit = RateLimitConfig_default, app_governance = GovernanceConfig_default,
      app_tracing = TracingConfig_default, app_routes = []\<rparr>"

end
