(* ===== verification/TokenService.thy ===== *)
theory TokenService
  imports Base64Url Http Config
begin

unbundle bit_operations_syntax

text \<open>
  The token service of \<^verbatim>\<open>src/auth/token_service.cc\<close>: HS256 JSON web tokens
  are issued at log-in and validated on every protected request. The service reads the
  wall clock; the reading is the argument \<open>now\<close>, in seconds.
\<close>

section \<open>Definitions\<close>

record TokenRecord =
  tok_user_id :: int
  tok_username :: string
  tok_role :: string
  tok_issued_at :: int
  tok_expires_at :: int

definition ConstantTimeEquals :: "string \<Rightarrow> string \<Rightarrow> bool" where
  "ConstantTimeEquals lhs rhs =
     (if length lhs \<noteq> length rhs then False
      else foldl (\<lambda>diff (l, r). diff OR (byte_of_char l XOR byte_of_char r)) 0 (zip lhs rhs) = 0)"

text \<open>The scan of \<^verbatim>\<open>JsonStringValue\<close> after its marker, with the flag \<open>escaped\<close>.\<close>

fun json_string_scan :: "string \<Rightarrow> bool \<Rightarrow> string \<Rightarrow> string option" where
  "json_string_scan [] escaped value = None"
| "json_string_scan (c # s) escaped value =
     (if escaped then json_string_scan s False (value @ [c])
      else if c = BACKSLASH then json_string_scan s True value
      else if c = QUOTE then Some value
      else json_string_scan s False (value @ [c]))"

definition JsonStringValue :: "string \<Rightarrow> string \<Rightarrow> string option" where
  "JsonStringValue json key =
     (let marker = json_key key @ [QUOTE] in
      case str_find marker json of
        None \<Rightarrow> None
      | Some start \<Rightarrow> json_string_scan (drop (start + length marker) json) False [])"

definition json_int_char :: "char \<Rightarrow> bool" where
  "json_int_char c \<longleftrightarrow> c = CHR ''-'' \<or> isdigit c"

definition JsonIntValue :: "string \<Rightarrow> string \<Rightarrow> int option" where
  "JsonIntValue json key =
     (let marker = json_key key in
      case str_find marker json of
        None \<Rightarrow> None
      | Some start \<Rightarrow>
          let ds = takeWhile json_int_char (drop (start + length marker) json) in
          if ds = [] then None
          else case stoll ds of Inl _ \<Rightarrow> None | Inr i \<Rightarrow> Some i)"

definition Sign :: "AuthConfig \<Rightarrow> string \<Rightarrow> string \<Rightarrow> string" where
  "Sign cfg hdr payload =
     Base64UrlEncodeBytes (HmacSha256 (auth_jwt_secret cfg) (hdr @ ''.'' @ payload))"

definition token_payload :: "int \<Rightarrow> string \<Rightarrow> string \<Rightarrow> int \<Rightarrow> int \<Rightarrow> string \<Rightarrow> string" where
  "token_payload user_id username role now expires_at request_id =
     ''{'' @ json_key ''sub'' @ show_int user_id @ '','' @
     json_key ''username'' @ quoted (JsonEscape username) @ '','' @
     json_key ''role'' @ quoted (JsonEscape role) @ '','' @
     json_key ''iat'' @ show_int now @ '','' @
     json_key ''exp'' @ show_int expires_at @ '','' @
     json_key ''rid'' @ quoted (JsonEscape request_id) @ ''}''"

definition token_header :: string where
  "token_header = ''{'' @ json_key ''alg'' @ quoted ''HS256'' @ '','' @ json_key ''typ'' @ quoted ''JWT'' @ ''}''"

definition IssueToken :: "AuthConfig \<Rightarrow> int \<Rightarrow> int \<Rightarrow> string \<Rightarrow> string \<Rightarrow> string \<Rightarrow> string" where
  "IssueToken cfg now user_id username role request_id =
     (let expires_at = now + auth_token_ttl_seconds cfg;
          payload = token_payload user_id username role now expires_at request_id;
          hdr = Base64UrlEncode token_header;
          body = Base64UrlEncode payload
      in hdr @ ''.'' @ body @ ''.'' @ Sign cfg hdr body)"

definition decode_claims :: "int \<Rightarrow> string \<Rightarrow> TokenRecord option" where
  "decode_claims now decoded_payload =
     (let user_id = JsonIntValue decoded_payload ''sub'';
          username = JsonStringValue decoded_payload ''username'';
          role = JsonStringValue decoded_payload ''role'';
          issued_at = JsonIntValue decoded_payload ''iat'';
          expires_at = JsonIntValue decoded_payload ''exp''
      in case (user_id, username, issued_at, expires_at) of
           (Some uid, Some name, Some iat, Some xp) \<Rightarrow>
             if xp \<le> now then None
             else Some \<lparr>tok_user_id = uid, tok_username = name,
                        tok_role = (case role of Some r \<Rightarrow> r | None \<Rightarrow> ''user''),
                        tok_issued_at = iat, tok_expires_at = xp\<rparr>
         | _ \<Rightarrow> None)"

definition ValidateToken :: "AuthConfig \<Rightarrow> int \<Rightarrow> string \<Rightarrow> TokenRecord option" where
  "ValidateToken cfg now token =
     (let first_dot = char_find (CHR ''.'') token;
          second_dot = char_find_from (CHR ''.'') token
                         (case first_dot of None \<Rightarrow> 0 | Some i \<Rightarrow> i + 1)
      in case (first_dot, second_dot) of
           (Some i, Some j) \<Rightarrow>
             (let hdr = take i token;
                  payload = take (j - i - 1) (drop (i + 1) token);
                  signature = drop (j + 1) token
              in case Base64UrlDecode hdr of
                   None \<Rightarrow> None
                 | Some decoded_header \<Rightarrow>
                     if str_find (json_key ''alg'' @ quoted ''HS256'') decoded_header = None then None
                     else if \<not> ConstantTimeEquals signature (Sign cfg hdr payload) then None
                     else case Base64UrlDecode payload of
                            None \<Rightarrow> None
                          | Some decoded_payload \<Rightarrow> decode_claims now decoded_payload)
         | _ \<Rightarrow> None)"

text \<open>
  What the scan of \<^verbatim>\<open>JsonStringValue\<close> makes of an escaped claim: it drops
  the backslash and keeps the letter, so a line feed, a carriage return and a tab come
  back as the letters n, r and t.
\<close>

definition claim_char :: "char \<Rightarrow> char" where
  "claim_char c =
     (if c = LF then CHR ''n'' else if c = CR then CHR ''r'' else if c = TAB then CHR ''t'' else c)"

definition claim_text :: "string \<Rightarrow> string" where
  "claim_text s = map claim_char s"

section \<open>Comparing signatures\<close>

lemma word_or_eq_0: "(a :: 'a::len word) OR b = 0 \<longleftrightarrow> a = 0 \<and> b = 0"
  by (auto simp: bit_eq_iff bit_simps)

lemma word_xor_eq_0: "(a :: 'a::len word) XOR b = 0 \<longleftrightarrow> a = b"
  by (metis bit.xor_cancel_right bit.xor_left_self xor.right_neutral xor_self_eq)

lemma byte_of_char_inj: "byte_of_char a = byte_of_char b \<longleftrightarrow> a = b"
  by (metis unat_byte_of_char char_of_char)

lemma diff_fold_zero:
  "length l = length r \<Longrightarrow>
   foldl (\<lambda>diff (a, b). diff OR (byte_of_char a XOR byte_of_char b)) d (zip l r) = 0 \<longleftrightarrow>
   d = 0 \<and> l = r"
proof (induction l r arbitrary: d rule: list_induct2)
  case (Cons a l b r)
  show ?case
    by (simp only: zip_Cons_Cons foldl_Cons prod.case Cons.IH word_or_eq_0 word_xor_eq_0
        byte_of_char_inj list.inject conj_assoc)
qed simp

lemma ConstantTimeEquals_iff: "ConstantTimeEquals l r \<longleftrightarrow> l = r"
  by (auto simp: ConstantTimeEquals_def diff_fold_zero)

section \<open>Reading claims back\<close>

lemma json_string_scan_escape:
  "json_string_scan (JsonEscape s @ QUOTE # rest) False acc = Some (acc @ claim_text s)"
  by (induction s arbitrary: acc)
     (auto simp: json_escape_char_def claim_text_def claim_char_def)

lemma claim_text_plain: "set s \<inter> {LF, CR, TAB} = {} \<Longrightarrow> claim_text s = s"
  by (induction s) (auto simp: claim_text_def claim_char_def)

lemma JsonStringValue_at:
  assumes "no_match (json_key key @ [QUOTE]) pre
             ((json_key key @ [QUOTE]) @ JsonEscape s @ QUOTE # rest)"
  shows "JsonStringValue (pre @ json_key key @ quoted (JsonEscape s) @ rest) key = Some (claim_text s)"
proof -
  have eq: "pre @ json_key key @ quoted (JsonEscape s) @ rest =
      pre @ (json_key key @ [QUOTE]) @ JsonEscape s @ QUOTE # rest"
    by (simp add: quoted_def)
  show ?thesis
    unfolding JsonStringValue_def Let_def eq str_find_at [OF assms]
    by (simp add: json_string_scan_escape)
qed

lemma JsonIntValue_at:
  assumes "no_match (json_key key) pre (json_key key @ show_int v @ c # rest)"
    and "in_int64 v" and "\<not> json_int_char c"
  shows "JsonIntValue (pre @ json_key key @ show_int v @ c # rest) key = Some v"
proof -
  have "takeWhile json_int_char (show_int v @ c # rest) = show_int v"
    using show_int_chars [of v] assms(3) by (subst takeWhile_append2) (auto simp: json_int_char_def)
  then show ?thesis
    unfolding JsonIntValue_def Let_def str_find_at [OF assms(1)]
    by (simp add: stoll_show_int [OF assms(2)])
qed

text \<open>
  No quoted key followed by a colon starts inside an escaped string: the quotes inside
  are preceded by a backslash, and the quote that ends it is not followed by a colon.
\<close>

lemma escaped_not_key:
  assumes "set k \<inter> {QUOTE, BACKSLASH} = {}" and "d \<noteq> CHR '':''"
  shows "\<not> prefix (k @ QUOTE # CHR '':'' # t) (JsonEscape s @ QUOTE # d # ys)"
  using assms(1)
proof (induction k arbitrary: s)
  case Nil
  show ?case
  proof (cases s)
    case Nil
    then show ?thesis using assms(2) by simp
  next
    case (Cons c s')
    then show ?thesis by (cases c rule: json_escape_char_cases) simp_all
  qed
next
  case (Cons x k)
  show ?case
  proof (cases s)
    case Nil
    then show ?thesis using Cons.prems by auto
  next
    case c: (Cons c s')
    then show ?thesis
      using Cons.prems Cons.IH [of s'] by (cases c rule: json_escape_char_cases) auto
  qed
qed

lemma escaped_no_match:
  assumes k: "set k \<inter> {QUOTE, BACKSLASH} = {}" and d: "d \<noteq> CHR '':''"
  shows "no_match (QUOTE # k @ QUOTE # CHR '':'' # t) (JsonEscape s) (QUOTE # d # ys)"
proof (induction s)
  case (Cons c s)
  then show ?case
    using escaped_not_key [OF assms, of t s ys]
    by (cases c rule: json_escape_char_cases) auto
qed simp

lemma show_int_no_match: "no_match (QUOTE # k) (show_int v) ys"
proof (rule no_match_head)
  show "hd (QUOTE # k) \<notin> set (show_int v)"
    using show_int_chars [of v] by (auto simp: isdigit_def)
qed simp

lemmas key_defs = json_key_def quoted_def
lemmas payload_no_match = no_match_append escaped_no_match show_int_no_match

text \<open>Each claim of an issued payload is found at its own place.\<close>

lemma payload_sub:
  "in_int64 uid \<Longrightarrow> JsonIntValue (token_payload uid name role iat xp rid) ''sub'' = Some uid"
  using JsonIntValue_at [of "''sub''" "''{''" uid "CHR '',''"]
  by (simp add: token_payload_def key_defs json_int_char_def isdigit_def)

lemma payload_username:
  "JsonStringValue (token_payload uid name role iat xp rid) ''username'' = Some (claim_text name)"
  using JsonStringValue_at [of "''username''" "''{'' @ json_key ''sub'' @ show_int uid @ '',''" name]
  by (simp add: token_payload_def key_defs payload_no_match)

lemma payload_role:
  "JsonStringValue (token_payload uid name role iat xp rid) ''role'' = Some (claim_text role)"
  using JsonStringValue_at [of "''role''" "''{'' @ json_key ''sub'' @ show_int uid @ '','' @
    json_key ''username'' @ quoted (JsonEscape name) @ '',''" role]
  by (simp add: token_payload_def key_defs payload_no_match
      escaped_no_match [of "''role''" "CHR '',''", simplified]
      escaped_not_key [of "''role''" "CHR '',''", simplified])

lemma payload_iat:
  "in_int64 iat \<Longrightarrow> JsonIntValue (token_payload uid name role iat xp rid) ''iat'' = Some iat"
  using JsonIntValue_at [of "''iat''" "''{'' @ json_key ''sub'' @ show_int uid @ '','' @
    json_key ''username'' @ quoted (JsonEscape name) @ '','' @
    json_key ''role'' @ quoted (JsonEscape role) @ '',''" iat "CHR '',''"]
  by (simp add: token_payload_def key_defs payload_no_match json_int_char_def isdigit_def
      escaped_no_match [of "''iat''" "CHR '',''", simplified]
      escaped_not_key [of "''iat''" "CHR '',''", simplified])

lemma payload_exp:
  "in_int64 xp \<Longrightarrow> JsonIntValue (token_payload uid name role iat xp rid) ''exp'' = Some xp"
  using JsonIntValue_at [of "''exp''" "''{'' @ json_key ''sub'' @ show_int uid @ '','' @
    json_key ''username'' @ quoted (JsonEscape name) @ '','' @
    json_key ''role'' @ quoted (JsonEscape role) @ '','' @
    json_key ''iat'' @ show_int iat @ '',''" xp "CHR '',''"]
  by (simp add: token_payload_def key_defs payload_no_match json_int_char_def isdigit_def
      escaped_no_match [of "''exp''" "CHR '',''", simplified]
      escaped_not_key [of "''exp''" "CHR '',''", simplified])

lemmas payload_claims = payload_sub payload_username payload_role payload_iat payload_exp

lemma decode_claims_payload:
  assumes "in_int64 uid" "in_int64 iat" "in_int64 xp"
  shows "decode_claims now (token_payload uid name role iat xp rid) =
    (if xp \<le> now then None
     else Some \<lparr>tok_user_id = uid, tok_username = claim_text name, tok_role = claim_text role,
                tok_issued_at = iat, tok_expires_at = xp\<rparr>)"
  using assms by (simp add: decode_claims_def payload_claims)

section \<open>Tokens\<close>

lemma char_find_dot:
  assumes "CHR ''.'' \<notin> set h"
  shows "char_find (CHR ''.'') (h @ ''.'' @ t) = Some (length h)"
  using char_find_at [OF assms] by simp

text \<open>
  A token made of a dot-free header, a dot-free payload and any signature is split at the
  two dots.
\<close>

lemma ValidateToken_parts:
  assumes "CHR ''.'' \<notin> set h" "CHR ''.'' \<notin> set b"
  shows "ValidateToken cfg now (h @ ''.'' @ b @ ''.'' @ sg) =
    (case Base64UrlDecode h of
       None \<Rightarrow> None
     | Some dh \<Rightarrow>
         if str_find (json_key ''alg'' @ quoted ''HS256'') dh = None then None
         else if sg \<noteq> Sign cfg h b then None
         else case Base64UrlDecode b of None \<Rightarrow> None | Some p \<Rightarrow> decode_claims now p)"
proof -
  have "char_find_from (CHR ''.'') (h @ ''.'' @ b @ ''.'' @ sg) (length h + 1) =
      Some (length h + 1 + length b)"
    using char_find_dot [OF assms(2), of sg] by (simp add: char_find_from_def)
  then show ?thesis
    using char_find_dot [OF assms(1), of "b @ ''.'' @ sg"]
    by (simp add: ValidateToken_def Let_def ConstantTimeEquals_iff)
qed

lemma header_has_alg: "str_find (json_key ''alg'' @ quoted ''HS256'') token_header \<noteq> None"
  using str_find_at [of "json_key ''alg'' @ quoted ''HS256''" "''{''"
      "'','' @ json_key ''typ'' @ quoted ''JWT'' @ ''}''"]
  by (simp add: token_header_def key_defs)

lemma Base64UrlEncode_no_dot: "CHR ''.'' \<notin> set (Base64UrlEncode s)"
  by (simp add: Base64UrlEncode_def dot_not_base64)

lemma ValidateToken_IssueToken:
  assumes "in_int64 uid" "in_int64 iat" "in_int64 (iat + auth_token_ttl_seconds cfg)"
  shows "ValidateToken cfg now (IssueToken cfg iat uid name role rid) =
    (if iat + auth_token_ttl_seconds cfg \<le> now then None
     else Some \<lparr>tok_user_id = uid, tok_username = claim_text name, tok_role = claim_text role,
                tok_issued_at = iat, tok_expires_at = iat + auth_token_ttl_seconds cfg\<rparr>)"
  using assms header_has_alg
  by (auto simp: IssueToken_def Let_def ValidateToken_parts [simplified] Base64UrlEncode_no_dot
      decode_claims_payload)

text \<open>Conversely, whatever is accepted carries the signature of its first two parts.\<close>

lemma decode_claims_SomeD:
  assumes "decode_claims now p = Some r"
  shows "JsonIntValue p ''sub'' = Some (tok_user_id r) \<and>
    JsonStringValue p ''username'' = Some (tok_username r) \<and>
    JsonIntValue p ''exp'' = Some (tok_expires_at r) \<and> now < tok_expires_at r"
  using assms by (auto simp: decode_claims_def Let_def split: option.splits if_splits)

lemma ValidateToken_signed:
  assumes "ValidateToken cfg now token = Some r"
  obtains h b dh p where "token = h @ ''.'' @ b @ ''.'' @ Sign cfg h b"
    and "CHR ''.'' \<notin> set h" and "CHR ''.'' \<notin> set b"
    and "Base64UrlDecode h = Some dh" and "str_find (json_key ''alg'' @ quoted ''HS256'') dh \<noteq> None"
    and "Base64UrlDecode b = Some p" and "decode_claims now p = Some r"
proof -
  obtain i where i: "char_find (CHR ''.'') token = Some i"
    using assms by (auto simp: ValidateToken_def Let_def split: option.splits)
  then obtain h t where h: "token = h @ ''.'' @ t" "CHR ''.'' \<notin> set h" "i = length h"
    by (auto simp: char_find_Some)
  obtain j where "char_find (CHR ''.'') t = Some j"
    using assms i h by (auto simp: ValidateToken_def char_find_from_def Let_def split: option.splits)
  then obtain b sg where b: "t = b @ ''.'' @ sg" "CHR ''.'' \<notin> set b"
    by (auto simp: char_find_Some)
  have tok: "token = h @ ''.'' @ b @ ''.'' @ sg" using h b by simp
  have v: "(case Base64UrlDecode h of
       None \<Rightarrow> None
     | Some dh \<Rightarrow>
         if str_find (json_key ''alg'' @ quoted ''HS256'') dh = None then None
         else if sg \<noteq> Sign cfg h b then None
         else case Base64UrlDecode b of None \<Rightarrow> None | Some p \<Rightarrow> decode_claims now p) = Some r"
    using assms ValidateToken_parts [OF h(2) b(2), of cfg now sg] unfolding tok by simp
  then obtain dh where dh: "Base64UrlDecode h = Some dh" by (cases "Base64UrlDecode h") auto
  from v dh obtain p where "Base64UrlDecode b = Some p" by (auto split: if_splits option.splits)
  with v dh have "sg = Sign cfg h b" "decode_claims now p = Some r"
    "str_find (json_key ''alg'' @ quoted ''HS256'') dh \<noteq> None" by (auto split: if_splits)
  with that tok h(2) b(2) dh \<open>Base64UrlDecode b = Some p\<close> show ?thesis by blast
qed

lemma length_Sign: "length (Sign cfg h b) = 43"
  by (simp add: Sign_def length_Base64UrlEncodeBytes)

section \<open>Properties\<close>



text \<open>
  C7: A token is accepted only if it has three parts, its decoded header names HS256, its
  third part is the HMAC-SHA256 signature of the first two under the configured secret, and
  the expiry time written in its payload lies in the future; the user id and name that are
  reported are the ones of that signed payload.
\<close>

theorem accepted_token_is_signed:
  assumes "ValidateToken cfg now token = Some r"
  shows "\<exists>h b dh p. token = h @ ''.'' @ b @ ''.'' @
      Base64UrlEncodeBytes (HmacSha256 (auth_jwt_secret cfg) (h @ ''.'' @ b)) \<and>
    CHR ''.'' \<notin> set h \<and> CHR ''.'' \<notin> set b \<and>
    Base64UrlDecode h = Some dh \<and> str_find (json_key ''alg'' @ quoted ''HS256'') dh \<noteq> None \<and>
    Base64UrlDecode b = Some p \<and>
    JsonIntValue p ''sub'' = Some (tok_user_id r) \<and>
    JsonStringValue p ''username'' = Some (tok_username r) \<and>
    JsonIntValue p ''exp'' = Some (tok_expires_at r) \<and> now < tok_expires_at r"
proof -
  obtain h b dh p where "token = h @ ''.'' @ b @ ''.'' @ Sign cfg h b"
    "CHR ''.'' \<notin> set h" "CHR ''.'' \<notin> set b"
    "Base64UrlDecode h = Some dh" "str_find (json_key ''alg'' @ quoted ''HS256'') dh \<noteq> None"
    "Base64UrlDecode b = Some p" and "decode_claims now p = Some r"
    using ValidateToken_signed [OF assms] by blast
  with decode_claims_SomeD [OF this(7)] show ?thesis unfolding Sign_def by blast
qed

theorem accepted_token_is_signed_witness:
  "\<exists>h b. IssueToken AuthConfig_default 1000 10001 ''admin'' ''admin'' ''req-1'' =
      h @ ''.'' @ b @ ''.'' @
      Base64UrlEncodeBytes (HmacSha256 (auth_jwt_secret AuthConfig_default) (h @ ''.'' @ b))"
proof -
  let ?t = "IssueToken AuthConfig_default 1000 10001 ''admin'' ''admin'' ''req-1''"
  have "\<exists>r. ValidateToken AuthConfig_default 2000 ?t = Some r"
    using ValidateToken_IssueToken [of 10001 1000 AuthConfig_default 2000 "''admin''" "''admin''" "''req-1''"]
    by (simp add: in_int64_def INT64_MIN_def INT64_MAX_def AuthConfig_default_def)
  then obtain r where "ValidateToken AuthConfig_default 2000 ?t = Some r" ..
  from accepted_token_is_signed [OF this] show ?thesis by blast
qed

text \<open>
  User names that differ only in a line feed against the letter n become
  indistinguishable once they have gone through a token: the claim scanner does not decode
  the escapes that the issuer writes.
\<close>

theorem token_confuses_control_characters:
  assumes "in_int64 uid" "in_int64 iat" "in_int64 (iat + auth_token_ttl_seconds cfg)"
  shows "ValidateToken cfg now (IssueToken cfg iat uid (a @ [LF] @ b) role rid) =
         ValidateToken cfg now (IssueToken cfg iat uid (a @ ''n'' @ b) role rid)"
  using assms by (simp add: ValidateToken_IssueToken claim_text_def claim_char_def)

theorem token_confuses_control_characters_witness:
  "ValidateToken AuthConfig_default 2000 (IssueToken AuthConfig_default 1000 7 [LF] ''user'' ''r'') =
   ValidateToken AuthConfig_default 2000 (IssueToken AuthConfig_default 1000 7 ''n'' ''user'' ''r'')"
  using token_confuses_control_characters [of 7 1000 AuthConfig_default 2000 "[]" "[]" "''user''" "''r''"]
  by (simp add: in_int64_def INT64_MIN_def INT64_MAX_def AuthConfig_default_def)

end
