(* ===== verification/RouteRules.thy ===== *)
theory RouteRules
  imports Config "HOL-Library.Multiset"
begin

text \<open>
  The prefix routing table of \<^verbatim>\<open>src/gateway/route_rule.cc\<close>
  (\<^verbatim>\<open>RouteRuleManager\<close>), and the contract that the three "longest
  matching rule" selections of the program share: the routing table, the role rules of
  the authorization filter and the path limits of the rate limiter.
\<close>

section \<open>The routing table\<close>

record RouteMatchResult =
  rmr_route :: RouteConfig
  rmr_original_path :: string
  rmr_upstream_path :: string

definition IsPrefixMatch :: "string \<Rightarrow> string \<Rightarrow> bool" where
  "IsPrefixMatch rule_path request_path =
     (if rule_path = [] then False
      else if length request_path < length rule_path then False
      else if take (length rule_path) request_path \<noteq> rule_path then False
      else if length request_path = length rule_path then True
      else request_path ! length rule_path = CHR ''/'')"

definition BuildUpstreamPath :: "string \<Rightarrow> string \<Rightarrow> bool \<Rightarrow> string" where
  "BuildUpstreamPath rule_path request_path strip_prefix =
     (if \<not> strip_prefix then request_path
      else if length request_path = length rule_path then ''/''
      else let stripped = drop (length rule_path) request_path in
        if stripped = [] then ''/''
        else if hd stripped \<noteq> CHR ''/'' then ''/'' @ stripped
        else stripped)"

text \<open>
  The constructor sorts the routes by descending path length with
  \<^verbatim>\<open>std::sort\<close>, which leaves the order of equally long paths open. Every
  arrangement it may produce is a \<open>sort_result\<close>; the stable one is computed.
\<close>

definition longer_path :: "RouteConfig \<Rightarrow> RouteConfig \<Rightarrow> bool" where
  "longer_path lhs rhs \<longleftrightarrow> length (rc_path lhs) > length (rc_path rhs)"

definition sort_result :: "RouteConfig list \<Rightarrow> RouteConfig list \<Rightarrow> bool" where
  "sort_result routes routes' \<longleftrightarrow>
     mset routes' = mset routes \<and> sorted_wrt (\<lambda>a b. \<not> longer_path b a) routes'"

definition RouteRuleManager :: "RouteConfig list \<Rightarrow> RouteConfig list" where
  "RouteRuleManager routes = sort_key (\<lambda>r. - int (length (rc_path r))) routes"

fun RouteRuleManager_Match :: "RouteConfig list \<Rightarrow> string \<Rightarrow> RouteMatchResult option" where
  "RouteRuleManager_Match [] request_path = None"
| "RouteRuleManager_Match (route # routes') request_path =
     (if rc_match_type route \<noteq> ''prefix'' then RouteRuleManager_Match routes' request_path
      else if \<not> IsPrefixMatch (rc_path route) request_path
      then RouteRuleManager_Match routes' request_path
      else Some \<lparr>rmr_route = route, rmr_original_path = request_path,
                 rmr_upstream_path = BuildUpstreamPath (rc_path route) request_path
                                       (rc_strip_prefix route)\<rparr>)"

definition RouteRuleManager_ListRoutes :: "RouteConfig list \<Rightarrow> RouteConfig list" where
  "RouteRuleManager_ListRoutes routes' = routes'"

text \<open>When a route takes part in matching a path.\<close>

definition route_applies :: "RouteConfig \<Rightarrow> string \<Rightarrow> bool" where
  "route_applies r p \<longleftrightarrow> rc_match_type r = ''prefix'' \<and> IsPrefixMatch (rc_path r) p"

section \<open>The contract of longest-match selection\<close>

locale longest_match =
  fixes applies :: "'r \<Rightarrow> string \<Rightarrow> bool"
    and rule_path :: "'r \<Rightarrow> string"
    and select :: "'r list \<Rightarrow> string \<Rightarrow> 'r option"
  assumes applies_prefix: "applies r p \<Longrightarrow> prefix (rule_path r) p"
    and select_NoneD: "select rs p = None \<Longrightarrow> r \<in> set rs \<Longrightarrow> \<not> applies r p"
    and select_SomeD: "select rs p = Some r \<Longrightarrow>
          r \<in> set rs \<and> applies r p \<and>
          (\<forall>r' \<in> set rs. applies r' p \<longrightarrow> length (rule_path r') \<le> length (rule_path r))"
begin

lemma select_None_iff: "select rs p = None \<longleftrightarrow> (\<forall>r \<in> set rs. \<not> applies r p)"
  using select_NoneD select_SomeD by (cases "select rs p") blast+

text \<open>Two rules that apply to one path and are equally long have the same path.\<close>

lemma same_length_same_path:
  assumes "applies r p" "applies r' p" "length (rule_path r) = length (rule_path r')"
  shows "rule_path r = rule_path r'"
  using assms applies_prefix [of r p] applies_prefix [of r' p]
  by (auto simp: prefix_def append_eq_append_conv)

lemma select_path_unique:
  assumes sel: "select rs p = Some r" and r': "r' \<in> set rs" "applies r' p"
    and long: "length (rule_path r) \<le> length (rule_path r')"
  shows "rule_path r' = rule_path r"
proof -
  from select_SomeD [OF sel] r' have "length (rule_path r') = length (rule_path r)"
    using long by (auto intro: le_antisym)
  with select_SomeD [OF sel] r' show ?thesis by (auto intro: same_length_same_path)
qed

text \<open>The path of the selected rule depends on the set of rules only, not on their order.\<close>

lemma select_path_set:
  assumes "set rs = set rs'"
  shows "map_option rule_path (select rs p) = map_option rule_path (select rs' p)"
proof (cases "select rs p")
  case None
  with assms have "select rs' p = None" by (simp add: select_None_iff)
  with None show ?thesis by simp
next
  case (Some r)
  with assms have "select rs' p \<noteq> None" using select_SomeD select_None_iff by blast
  then obtain r' where r': "select rs' p = Some r'" by blast
  have "length (rule_path r) \<le> length (rule_path r')"
    using select_SomeD [OF Some] select_SomeD [OF r'] assms by blast
  then have "rule_path r' = rule_path r"
    using select_path_unique [OF Some] select_SomeD [OF r'] assms by blast
  with Some r' show ?thesis by simp
qed

text \<open>With pairwise different paths the selected rule itself is determined.\<close>

lemma select_eq:
  assumes inj: "inj_on rule_path (set rs)" and r: "r \<in> set rs" "applies r p"
    and long: "\<forall>r' \<in> set rs. applies r' p \<longrightarrow> length (rule_path r') \<le> length (rule_path r)"
  shows "select rs p = Some r"
proof -
  obtain r' where r': "select rs p = Some r'" using r select_None_iff by blast
  with long select_SomeD [OF r'] have "length (rule_path r') \<le> length (rule_path r)" by blast
  then have "rule_path r = rule_path r'" using select_path_unique [OF r' r] by simp
  with inj r select_SomeD [OF r'] have "r = r'" by (auto dest: inj_onD)
  with r' show ?thesis by simp
qed

lemma select_set:
  assumes inj: "inj_on rule_path (set rs)" and eq: "set rs = set rs'"
  shows "select rs p = select rs' p"
proof (cases "select rs p")
  case None
  with eq show ?thesis using select_None_iff by metis
next
  case (Some r)
  with eq have "select rs' p = Some r"
    using select_SomeD [OF Some] inj by (intro select_eq) auto
  with Some show ?thesis by simp
qed

end

section \<open>Prefix matching respects path segments\<close>

lemma IsPrefixMatch_iff:
  "IsPrefixMatch r p \<longleftrightarrow> r \<noteq> [] \<and> (p = r \<or> prefix (r @ ''/'') p)"
proof (cases "r = [] \<or> length p < length r \<or> take (length r) p \<noteq> r")
  case True
  then show ?thesis by (auto simp: IsPrefixMatch_def prefix_def)
next
  case False
  then obtain s where p: "p = r @ s" by (metis append_take_drop_id)
  with False show ?thesis
    by (cases s) (auto simp: IsPrefixMatch_def nth_append)
qed

lemma IsPrefixMatch_prefix: "IsPrefixMatch r p \<Longrightarrow> prefix r p"
  by (auto simp: IsPrefixMatch_iff prefix_def)

lemma BuildUpstreamPath_match:
  assumes "IsPrefixMatch r p"
  shows "BuildUpstreamPath r p True = (if p = r then ''/'' else drop (length r) p)"
  using assms by (auto simp: IsPrefixMatch_iff BuildUpstreamPath_def Let_def prefix_def)

section \<open>Matching\<close>

lemma Match_route_applies:
  "RouteRuleManager_Match rs p = Some m \<Longrightarrow>
   rmr_route m \<in> set rs \<and> route_applies (rmr_route m) p \<and> rmr_original_path m = p \<and>
   rmr_upstream_path m = BuildUpstreamPath (rc_path (rmr_route m)) p (rc_strip_prefix (rmr_route m))"
  by (induction rs) (auto simp: route_applies_def split: if_splits)

lemma Match_None_iff:
  "RouteRuleManager_Match rs p = None \<longleftrightarrow> (\<forall>r \<in> set rs. \<not> route_applies r p)"
  by (induction rs) (auto simp: route_applies_def)

lemma Match_first_longest:
  assumes "sorted_wrt (\<lambda>a b. \<not> longer_path b a) rs"
    and "RouteRuleManager_Match rs p = Some m" and "r \<in> set rs" and "route_applies r p"
  shows "length (rc_path r) \<le> length (rc_path (rmr_route m))"
  using assms
  by (induction rs) (auto simp: route_applies_def longer_path_def split: if_splits)

lemma sort_result_RouteRuleManager: "sort_result rs (RouteRuleManager rs)"
proof -
  have "sorted_wrt (\<lambda>a b. \<not> longer_path b a) (RouteRuleManager rs)"
    using sorted_sort_key [of "\<lambda>r. - int (length (rc_path r))" rs]
    by (auto simp: RouteRuleManager_def longer_path_def sorted_map elim: sorted_wrt_mono_rel [rotated])
  then show ?thesis by (simp add: sort_result_def RouteRuleManager_def)
qed

lemma sort_result_set: "sort_result rs rs' \<Longrightarrow> set rs' = set rs"
  by (metis sort_result_def set_mset_mset)

definition route_select :: "RouteConfig list \<Rightarrow> string \<Rightarrow> RouteConfig option" where
  "route_select rs p = map_option rmr_route (RouteRuleManager_Match (RouteRuleManager rs) p)"

interpretation routes: longest_match route_applies rc_path route_select
proof unfold_locales
  fix r p assume "route_applies r p"
  then show "prefix (rc_path r) p" by (simp add: route_applies_def IsPrefixMatch_prefix)
next
  fix rs p r assume "route_select rs p = None" and "r \<in> set rs"
  then show "\<not> route_applies r p"
    using sort_result_set [OF sort_result_RouteRuleManager]
    by (auto simp: route_select_def Match_None_iff)
next
  fix rs p r assume "route_select rs p = Some r"
  then obtain m where m: "RouteRuleManager_Match (RouteRuleManager rs) p = Some m"
    and r: "r = rmr_route m" by (auto simp: route_select_def)
  have sorted: "sorted_wrt (\<lambda>a b. \<not> longer_path b a) (RouteRuleManager rs)"
    and set: "set (RouteRuleManager rs) = set rs"
    using sort_result_RouteRuleManager [of rs] sort_result_set by (auto simp: sort_result_def)
  show "r \<in> set rs \<and> route_applies r p \<and>
      (\<forall>r' \<in> set rs. route_applies r' p \<longrightarrow> length (rc_path r') \<le> length (rc_path r))"
    using Match_route_applies [OF m] Match_first_longest [OF sorted m] set r by auto
qed

text \<open>Any arrangement of the table that sorting may produce gives the same matched path.\<close>

lemma Match_sort_result:
  assumes "sort_result rs rs'"
  shows "case RouteRuleManager_Match rs' p of
           None \<Rightarrow> (\<forall>r \<in> set rs. \<not> route_applies r p)
         | Some m \<Rightarrow> rmr_route m \<in> set rs \<and> route_applies (rmr_route m) p \<and>
             (\<forall>r \<in> set rs. route_applies r p \<longrightarrow> length (rc_path r) \<le> length (rc_path (rmr_route m)))"
  using assms sort_result_set [OF assms]
  by (auto simp: Match_None_iff sort_result_def
      dest: Match_route_applies Match_first_longest split: option.splits)

section \<open>Properties\<close>

text \<open>
  A routing rule matches exactly its own path and the paths below it: \<^verbatim>\<open>/api/user\<close>
  matches \<^verbatim>\<open>/api/user\<close> and \<^verbatim>\<open>/api/user/profile\<close> but never
  \<^verbatim>\<open>/api/userxxx\<close>, and an empty rule matches nothing.
\<close>

theorem IsPrefixMatch_segments:
  "IsPrefixMatch rule p \<longleftrightarrow> rule \<noteq> [] \<and> (p = rule \<or> (\<exists>s. p = rule @ ''/'' @ s))"
  by (auto simp: IsPrefixMatch_iff prefix_def)

text \<open>
  C22: Whatever order \<^verbatim>\<open>std::sort\<close> gives to equally long paths, matching fails
  exactly when no prefix route applies, and otherwise returns a configured route that
  applies and is the longest that does; with \<^verbatim>\<open>strip_prefix\<close> the rule and the
  upstream path together are the request path (or the upstream path is \<^verbatim>\<open>/\<close> for
  the rule's own path), so the upstream path always starts with a slash.
\<close>

theorem Match_longest_route:
  assumes "sort_result routes routes'"
  shows "case RouteRuleManager_Match routes' p of
      None \<Rightarrow> (\<forall>r \<in> set routes. \<not> route_applies r p)
    | Some m \<Rightarrow>
        rmr_route m \<in> set routes \<and> route_applies (rmr_route m) p \<and>
        (\<forall>r \<in> set routes. route_applies r p \<longrightarrow>
           length (rc_path r) \<le> length (rc_path (rmr_route m))) \<and>
        rmr_original_path m = p \<and>
        (if rc_strip_prefix (rmr_route m)
         then (if p = rc_path (rmr_route m) then rmr_upstream_path m = ''/''
               else rc_path (rmr_route m) @ rmr_upstream_path m = p \<and>
                    hd (rmr_upstream_path m) = CHR ''/'')
         else rmr_upstream_path m = p)"
proof (cases "RouteRuleManager_Match routes' p")
  case None
  then show ?thesis using Match_sort_result [OF assms, of p] by simp
next
  case (Some m)
  let ?r = "rmr_route m"
  have m: "IsPrefixMatch (rc_path ?r) p" "rmr_original_path m = p"
    "rmr_upstream_path m = BuildUpstreamPath (rc_path ?r) p (rc_strip_prefix ?r)"
    using Match_route_applies [OF Some] by (auto simp: route_applies_def)
  have "p \<noteq> rc_path ?r \<Longrightarrow> rc_path ?r @ drop (length (rc_path ?r)) p = p \<and>
      hd (drop (length (rc_path ?r)) p) = CHR ''/''"
    using m(1) by (auto simp: IsPrefixMatch_iff prefix_def)
  moreover have "\<not> rc_strip_prefix ?r \<Longrightarrow> rmr_upstream_path m = p"
    using m(3) by (simp add: BuildUpstreamPath_def)
  ultimately show ?thesis
    using Some Match_sort_result [OF assms, of p] m BuildUpstreamPath_match [OF m(1)]
    by (cases "rc_strip_prefix ?r") simp_all
qed

definition demo_route :: "string \<Rightarrow> string \<Rightarrow> RouteConfig" where
  "demo_route path upstream = RouteConfig_default\<lparr>rc_path := path, rc_upstream := upstream\<rparr>"

theorem Match_longest_route_witness:
  "sort_result [demo_route ''/api'' ''A'', demo_route ''/api/user'' ''UserService'']
     [demo_route ''/api/user'' ''UserService'', demo_route ''/api'' ''A''] \<and>
   (\<exists>m. RouteRuleManager_Match
      [demo_route ''/api/user'' ''UserService'', demo_route ''/api'' ''A''] ''/api/user/profile'' = Some m \<and>
      rc_path (rmr_route m) @ rmr_upstream_path m = ''/api/user/profile'')"
proof -
  have s: "sort_result [demo_route ''/api'' ''A'', demo_route ''/api/user'' ''UserService'']
     [demo_route ''/api/user'' ''UserService'', demo_route ''/api'' ''A'']"
    by (simp add: sort_result_def longer_path_def demo_route_def)
  show ?thesis
    using s Match_longest_route [OF s, of "''/api/user/profile''"]
    by (simp add: demo_route_def RouteConfig_default_def IsPrefixMatch_def)
qed

end
