(* ===== verification/AuthFilter.thy ===== *)
theory AuthFilter
  imports TokenService RouteRules
begin

text \<open>
  The authorization filter of \<^verbatim>\<open>src/auth/auth_filter.cc\<close>: public paths,
  bearer tokens and role rules. The filter object is the record \<open>AuthFilter\<close>; its
  token service may be absent (a null pointer).
\<close>

section \<open>Definitions\<close>

record AuthResult =
  ar_allowed :: bool
  ar_user_id :: int
  ar_username :: string
  ar_role :: string
  ar_token :: string
  ar_response :: HttpResponse

definition AuthResult_default :: AuthResult where
  "AuthResult_default =
     \<lparr>ar_allowed = False, ar_user_id = 0, ar_username = [], ar_role = [], ar_token = [],
      ar_response = HttpResponse_default\<rparr>"

record AuthFilter =
  af_config :: AuthConfig
  af_rbac_rules :: "RbacRuleConfig list"
  af_token_service :: "AuthConfig option"

definition ToLower :: "string \<Rightarrow> string" where
  "ToLower s = map tolower s"

fun FindHeader :: "headers \<Rightarrow> string \<Rightarrow> string" where
  "FindHeader [] key = []"
| "FindHeader (item # hs) key =
     (if ToLower (fst item) = ToLower key then snd item else FindHeader hs key)"

definition Unauthorized :: "string \<Rightarrow> string \<Rightarrow> HttpResponse" where
  "Unauthorized message request_id =
     set_header ''X-Request-Id'' request_id
       (HttpResponse_default\<lparr>rsp_status := 401, rsp_content_type := ''application/json'',
          rsp_body := ToJson (ApiResponse_Error UNAUTHORIZED message)\<rparr>)"

definition Forbidden :: "string \<Rightarrow> string \<Rightarrow> HttpResponse" where
  "Forbidden message request_id =
     set_header ''X-Request-Id'' request_id
       (HttpResponse_default\<lparr>rsp_status := 403, rsp_content_type := ''application/json'',
          rsp_body := ToJson (ApiResponse_Error FORBIDDEN message)\<rparr>)"

definition IsPublicPath :: "AuthFilter \<Rightarrow> string \<Rightarrow> bool" where
  "IsPublicPath f path = list_ex (\<lambda>public_path. path = public_path) (auth_public_paths (af_config f))"

text \<open>The two \<^verbatim>\<open>continue\<close> conditions of the rule loop, negated.\<close>

definition rbac_applies :: "RbacRuleConfig \<Rightarrow> string \<Rightarrow> bool" where
  "rbac_applies rule path \<longleftrightarrow>
     starts_with path (rbac_path rule) \<and>
     \<not> (length path > length (rbac_path rule) \<and> path ! length (rbac_path rule) \<noteq> CHR ''/'')"

fun best_rule :: "RbacRuleConfig list \<Rightarrow> string \<Rightarrow> RbacRuleConfig option \<Rightarrow> RbacRuleConfig option" where
  "best_rule [] path best = best"
| "best_rule (rule # rules) path best =
     (if \<not> rbac_applies rule path then best_rule rules path best
      else best_rule rules path
        (case best of
           None \<Rightarrow> Some rule
         | Some b \<Rightarrow> if length (rbac_path rule) > length (rbac_path b) then Some rule else Some b))"

definition IsRoleAllowed :: "AuthFilter \<Rightarrow> string \<Rightarrow> string \<Rightarrow> bool" where
  "IsRoleAllowed f path role =
     (if \<not> auth_rbac_enabled (af_config f) \<or> af_rbac_rules f = [] then True
      else case best_rule (af_rbac_rules f) path None of
             None \<Rightarrow> True
           | Some rule \<Rightarrow> role \<in> set (rbac_roles rule))"

definition AuthFilter_Check :: "AuthFilter \<Rightarrow> int \<Rightarrow> HttpRequest \<Rightarrow> AuthResult" where
  "AuthFilter_Check f now request =
     (if \<not> auth_enabled (af_config f) \<or> IsPublicPath f (req_path request)
      then AuthResult_default\<lparr>ar_allowed := True\<rparr>
      else case af_token_service f of
        None \<Rightarrow> AuthResult_default\<lparr>ar_response :=
                  Unauthorized ''auth service unavailable'' (req_request_id request)\<rparr>
      | Some ts \<Rightarrow>
          let authorization = FindHeader (req_headers request) ''Authorization'' in
          if \<not> starts_with authorization ''Bearer ''
          then AuthResult_default\<lparr>ar_response :=
                 Unauthorized ''missing bearer token'' (req_request_id request)\<rparr>
          else let token = drop (length ''Bearer '') authorization in
            case ValidateToken ts now token of
              None \<Rightarrow> AuthResult_default\<lparr>ar_response :=
                        Unauthorized ''invalid or expired token'' (req_request_id request)\<rparr>
            | Some r \<Rightarrow>
                let result = AuthResult_default\<lparr>ar_allowed := True, ar_user_id := tok_user_id r,
                      ar_username := tok_username r, ar_role := tok_role r, ar_token := token\<rparr>
                in if \<not> IsRoleAllowed f (req_path request) (ar_role result)
                   then result\<lparr>ar_allowed := False,
                          ar_response := Forbidden ''permission denied'' (req_request_id request)\<rparr>
                   else result)"

section \<open>Headers\<close>

lemma FindHeader_hit:
  assumes "om_get hs key = Some v"
    and "\<forall>e \<in> set hs. ToLower (fst e) = ToLower key \<longrightarrow> fst e = key"
  shows "FindHeader hs key = v"
  using assms by (induction hs) (auto split: if_splits)

lemma FindHeader_miss:
  "\<forall>e \<in> set hs. ToLower (fst e) \<noteq> ToLower key \<Longrightarrow> FindHeader hs key = []"
  by (induction hs) auto

section \<open>Role rules\<close>

lemma rbac_applies_iff:
  "rbac_applies rule p \<longleftrightarrow> p = rbac_path rule \<or> prefix (rbac_path rule @ ''/'') p"
proof (cases "prefix (rbac_path rule) p")
  case True
  then obtain s where "p = rbac_path rule @ s" by (auto simp: prefix_def)
  then show ?thesis by (cases s) (auto simp: rbac_applies_def starts_with_def nth_append)
next
  case False
  then show ?thesis
    by (auto simp: rbac_applies_def starts_with_prefix) (metis append_assoc prefix_def)
qed

lemma best_rule_None:
  "best_rule rs p b = None \<longleftrightarrow> b = None \<and> (\<forall>r \<in> set rs. \<not> rbac_applies r p)"
  by (induction rs arbitrary: b) (auto split: option.splits)

lemma best_rule_Some:
  assumes "best_rule rs p b = Some r"
  shows "(r \<in> set rs \<and> rbac_applies r p \<or> b = Some r) \<and>
    (\<forall>r' \<in> set rs. rbac_applies r' p \<longrightarrow> length (rbac_path r') \<le> length (rbac_path r)) \<and>
    (\<forall>r'. b = Some r' \<longrightarrow> length (rbac_path r') \<le> length (rbac_path r))"
  using assms
proof (induction rs arbitrary: b)
  case (Cons x rs)
  show ?case
  proof (cases "rbac_applies x p")
    case False
    with Cons show ?thesis by auto
  next
    case True
    define b' where "b' = (case b of None \<Rightarrow> Some x
      | Some c \<Rightarrow> if length (rbac_path x) > length (rbac_path c) then Some x else Some c)"
    from True Cons.prems have "best_rule rs p b' = Some r" by (simp add: b'_def)
    note IH = Cons.IH [OF this]
    have "\<exists>c. b' = Some c \<and> (c = x \<or> b = Some c) \<and> length (rbac_path x) \<le> length (rbac_path c) \<and>
        (\<forall>r'. b = Some r' \<longrightarrow> length (rbac_path r') \<le> length (rbac_path c))"
      by (auto simp: b'_def split: option.splits)
    with IH True show ?thesis by fastforce
  qed
qed simp

definition rbac_select :: "RbacRuleConfig list \<Rightarrow> string \<Rightarrow> RbacRuleConfig option" where
  "rbac_select rs p = best_rule rs p None"

interpretation rbac: longest_match rbac_applies rbac_path rbac_select
proof unfold_locales
  fix r p assume "rbac_applies r p"
  then show "prefix (rbac_path r) p" by (simp add: rbac_applies_def starts_with_prefix)
next
  fix rs p r assume "rbac_select rs p = None" "r \<in> set rs"
  then show "\<not> rbac_applies r p" by (simp add: rbac_select_def best_rule_None)
next
  fix rs p r assume "rbac_select rs p = Some r"
  then show "r \<in> set rs \<and> rbac_applies r p \<and>
      (\<forall>r' \<in> set rs. rbac_applies r' p \<longrightarrow> length (rbac_path r') \<le> length (rbac_path r))"
    using best_rule_Some [of rs p None r] by (auto simp: rbac_select_def)
qed

lemma IsRoleAllowed_rbac_select:
  "IsRoleAllowed f p role \<longleftrightarrow>
     \<not> auth_rbac_enabled (af_config f) \<or>
     (case rbac_select (af_rbac_rules f) p of None \<Rightarrow> True | Some r \<Rightarrow> role \<in> set (rbac_roles r))"
  by (auto simp: IsRoleAllowed_def rbac_select_def)

section \<open>The decision\<close>

lemmas auth_defs = AuthFilter_Check_def Unauthorized_def Forbidden_def AuthResult_default_def
  HttpResponse_default_def

text \<open>Every rejection is a 401 or a 403 that names the request; nothing else is answered.\<close>

lemma AuthFilter_Check_rejects:
  assumes "\<not> ar_allowed (AuthFilter_Check f now req)"
  shows "rsp_status (ar_response (AuthFilter_Check f now req)) \<in> {401, 403}"
    and "header (ar_response (AuthFilter_Check f now req)) ''X-Request-Id'' = Some (req_request_id req)"
  using assms
  by (auto simp: auth_defs Let_def split: option.splits if_splits)

lemma AuthFilter_Check_protected:
  assumes allowed: "ar_allowed (AuthFilter_Check f now req)"
    and enabled: "auth_enabled (af_config f)" and prot: "\<not> IsPublicPath f (req_path req)"
  obtains ts token r where "af_token_service f = Some ts"
    and "FindHeader (req_headers req) ''Authorization'' = ''Bearer '' @ token"
    and "ValidateToken ts now token = Some r"
    and "IsRoleAllowed f (req_path req) (tok_role r)"
    and "ar_user_id (AuthFilter_Check f now req) = tok_user_id r"
    and "ar_username (AuthFilter_Check f now req) = tok_username r"
    and "ar_role (AuthFilter_Check f now req) = tok_role r"
proof -
  let ?a = "FindHeader (req_headers req) ''Authorization''"
  obtain ts where ts: "af_token_service f = Some ts"
    using assms by (cases "af_token_service f") (auto simp: auth_defs)
  have sw: "starts_with ?a ''Bearer ''"
    using assms ts by (auto simp: auth_defs Let_def split: if_splits)
  then obtain token where token: "?a = ''Bearer '' @ token"
    unfolding starts_with_prefix prefix_def by blast
  obtain r where r: "ValidateToken ts now token = Some r"
    using assms ts sw token by (cases "ValidateToken ts now token") (auto simp: auth_defs Let_def)
  have role: "IsRoleAllowed f (req_path req) (tok_role r)"
    using assms ts sw token r by (auto simp: auth_defs Let_def split: if_splits)
  show ?thesis
    using that [OF ts token r role] assms ts token r role starts_with_append [of "''Bearer ''" token]
    by (simp add: auth_defs Let_def)
qed

section \<open>Properties\<close>

text \<open>
  C6: With authentication enabled, a request to a path that is not public passes the filter
  only with a bearer token signed under the service's secret and not expired, whose role is
  listed by the longest role rule covering the path (when role checks are enabled and there
  is such a rule); the identity the filter reports is the token's.
\<close>

theorem protected_path_needs_token:
  assumes "ar_allowed (AuthFilter_Check f now req)" and "auth_enabled (af_config f)"
    and "req_path req \<notin> set (auth_public_paths (af_config f))"
  shows "\<exists>ts h b r.
    af_token_service f = Some ts \<and>
    FindHeader (req_headers req) ''Authorization'' = ''Bearer '' @ h @ ''.'' @ b @ ''.'' @ Sign ts h b \<and>
    ValidateToken ts now (h @ ''.'' @ b @ ''.'' @ Sign ts h b) = Some r \<and> now < tok_expires_at r \<and>
    (auth_rbac_enabled (af_config f) \<longrightarrow>
       (\<forall>rule \<in> set (af_rbac_rules f).
          rbac_applies rule (req_path req) \<longrightarrow>
          (\<exists>best \<in> set (af_rbac_rules f). rbac_applies best (req_path req) \<and>
             length (rbac_path rule) \<le> length (rbac_path best) \<and> tok_role r \<in> set (rbac_roles best)))) \<and>
    ar_user_id (AuthFilter_Check f now req) = tok_user_id r \<and>
    ar_role (AuthFilter_Check f now req) = tok_role r"
proof -
  have prot: "\<not> IsPublicPath f (req_path req)"
    using assms(3) by (auto simp: IsPublicPath_def list_ex_iff)
  obtain ts token r where ts: "af_token_service f = Some ts"
    and auth: "FindHeader (req_headers req) ''Authorization'' = ''Bearer '' @ token"
    and r: "ValidateToken ts now token = Some r"
    and role: "IsRoleAllowed f (req_path req) (tok_role r)"
    and id: "ar_user_id (AuthFilter_Check f now req) = tok_user_id r"
      "ar_role (AuthFilter_Check f now req) = tok_role r"
    using AuthFilter_Check_protected [OF assms(1,2) prot] by metis
  obtain h b p where tok: "token = h @ ''.'' @ b @ ''.'' @ Sign ts h b" and p: "decode_claims now p = Some r"
    by (rule ValidateToken_signed [OF r]) blast
  have fresh: "now < tok_expires_at r" using decode_claims_SomeD [OF p] by simp
  have "auth_rbac_enabled (af_config f) \<Longrightarrow> rule \<in> set (af_rbac_rules f) \<Longrightarrow>
      rbac_applies rule (req_path req) \<Longrightarrow>
      \<exists>best \<in> set (af_rbac_rules f). rbac_applies best (req_path req) \<and>
        length (rbac_path rule) \<le> length (rbac_path best) \<and> tok_role r \<in> set (rbac_roles best)" for rule
    using role rbac.select_SomeD [of "af_rbac_rules f" "req_path req"]
      rbac.select_NoneD [of "af_rbac_rules f" "req_path req" rule]
    by (cases "rbac_select (af_rbac_rules f) (req_path req)") (auto simp: IsRoleAllowed_rbac_select)
  then show ?thesis
    using ts auth r id tok fresh by (intro exI [of _ ts] exI [of _ h] exI [of _ b] exI [of _ r]) auto
qed

definition demo_filter :: AuthFilter where
  "demo_filter =
     \<lparr>af_config = AuthConfig_default,
      af_rbac_rules = [\<lparr>rbac_path = ''/admin'', rbac_roles = [''admin'']\<rparr>],
      af_token_service = Some AuthConfig_default\<rparr>"

definition demo_request :: "string \<Rightarrow> string \<Rightarrow> HttpRequest" where
  "demo_request path token =
     \<lparr>req_method = ''GET'', req_path = path, req_query = [], req_body = [],
      req_headers = [(''Authorization'', ''Bearer '' @ token)], req_client_ip = ''10.0.0.1'',
      req_request_id = ''req-1''\<rparr>"

text \<open>The filter's answer for an issued token, by its role.\<close>

lemma demo_check:
  "AuthFilter_Check demo_filter 2000 (demo_request ''/admin/runtime''
      (IssueToken AuthConfig_default 1000 uid ''u'' role ''r'')) =
   (if role = ''admin'' then
      AuthResult_default\<lparr>ar_allowed := True, ar_user_id := uid, ar_username := ''u'', ar_role := role,
        ar_token := IssueToken AuthConfig_default 1000 uid ''u'' role ''r''\<rparr>
    else
      AuthResult_default\<lparr>ar_user_id := uid, ar_username := ''u'', ar_role := role,
        ar_token := IssueToken AuthConfig_default 1000 uid ''u'' role ''r'',
        ar_response := Forbidden ''permission denied'' ''req-1''\<rparr>)"
  if "in_int64 uid" "claim_text role = role"
proof -
  have v: "ValidateToken AuthConfig_default 2000 (IssueToken AuthConfig_default 1000 uid ''u'' role ''r'') =
      Some \<lparr>tok_user_id = uid, tok_username = ''u'', tok_role = role,
           tok_issued_at = 1000, tok_expires_at = 8200\<rparr>"
    using ValidateToken_IssueToken [of uid 1000 AuthConfig_default 2000 "''u''" role "''r''"] that
    by (simp add: in_int64_def INT64_MIN_def INT64_MAX_def AuthConfig_default_def claim_text_def claim_char_def)
  have "IsRoleAllowed demo_filter ''/admin/runtime'' role \<longleftrightarrow> role = ''admin''"
    by (auto simp: IsRoleAllowed_def demo_filter_def AuthConfig_default_def rbac_applies_def starts_with_def)
  then show ?thesis
    using v by (simp add: AuthFilter_Check_def demo_request_def demo_filter_def IsPublicPath_def
        AuthConfig_default_def starts_with_def Let_def AuthResult_default_def)
qed

theorem protected_path_needs_token_witness:
  "\<exists>ts h b. af_token_service demo_filter = Some ts \<and>
     FindHeader (req_headers (demo_request ''/admin/runtime''
       (IssueToken AuthConfig_default 1000 10001 ''u'' ''admin'' ''r''))) ''Authorization'' =
     ''Bearer '' @ h @ ''.'' @ b @ ''.'' @ Sign ts h b"
proof -
  let ?req = "demo_request ''/admin/runtime'' (IssueToken AuthConfig_default 1000 10001 ''u'' ''admin'' ''r'')"
  have "ar_allowed (AuthFilter_Check demo_filter 2000 ?req)"
    using demo_check [of 10001 "''admin''"]
    by (simp add: in_int64_def INT64_MIN_def INT64_MAX_def claim_text_def claim_char_def)
  moreover have "auth_enabled (af_config demo_filter)"
    "req_path ?req \<notin> set (auth_public_paths (af_config demo_filter))"
    by (simp_all add: demo_filter_def AuthConfig_default_def demo_request_def)
  ultimately show ?thesis using protected_path_needs_token [of demo_filter 2000 ?req] by blast
qed

text \<open>
  Every rejection of the filter is an answer with status 401 or 403 that carries the
  request's id; a valid token whose role is not listed gives 403 and not 401.
\<close>

theorem rejections_are_401_or_403:
  assumes "\<not> ar_allowed (AuthFilter_Check f now req)"
  shows "header (ar_response (AuthFilter_Check f now req)) ''X-Request-Id'' = Some (req_request_id req) \<and>
    rsp_status (ar_response (AuthFilter_Check f now req)) =
      (if \<exists>ts token. af_token_service f = Some ts \<and>
            FindHeader (req_headers req) ''Authorization'' = ''Bearer '' @ token \<and>
            ValidateToken ts now token \<noteq> None
       then 403 else 401)"
proof -
  let ?a = "FindHeader (req_headers req) ''Authorization''"
  have "(\<exists>token. ?a = ''Bearer '' @ token \<and> ValidateToken ts now token \<noteq> None) \<longleftrightarrow>
      starts_with ?a ''Bearer '' \<and> ValidateToken ts now (drop (length ''Bearer '') ?a) \<noteq> None" for ts
    by (auto simp: starts_with_prefix prefix_def)
  then show ?thesis
    using assms AuthFilter_Check_rejects(2) [OF assms]
    by (auto simp: auth_defs Let_def split: option.splits if_splits)
qed

theorem rejections_are_401_or_403_witness:
  "rsp_status (ar_response (AuthFilter_Check demo_filter 2000 (demo_request ''/admin/runtime''
      (IssueToken AuthConfig_default 1000 10002 ''u'' ''user'' ''r'')))) = 403"
proof -
  let ?t = "IssueToken AuthConfig_default 1000 10002 ''u'' ''user'' ''r''"
  let ?req = "demo_request ''/admin/runtime'' ?t"
  have n: "\<not> ar_allowed (AuthFilter_Check demo_filter 2000 ?req)"
    using demo_check [of 10002 "''user''"]
    by (simp add: in_int64_def INT64_MIN_def INT64_MAX_def claim_text_def claim_char_def AuthResult_default_def)
  have "ValidateToken AuthConfig_default 2000 ?t \<noteq> None"
    using ValidateToken_IssueToken [of 10002 1000 AuthConfig_default 2000 "''u''" "''user''" "''r''"]
    by (simp add: in_int64_def INT64_MIN_def INT64_MAX_def AuthConfig_default_def)
  then have "\<exists>ts token. af_token_service demo_filter = Some ts \<and>
      FindHeader (req_headers ?req) ''Authorization'' = ''Bearer '' @ token \<and> ValidateToken ts 2000 token \<noteq> None"
    by (simp add: demo_filter_def demo_request_def)
  then show ?thesis using rejections_are_401_or_403 [OF n] by simp
qed

end
