(* ===== verification/RateLimit.thy ===== *)
theory RateLimit
  imports Http RouteRules
begin

text \<open>
  The rate limiter of \<^verbatim>\<open>src/governance/rate_limit_filter.cc\<close>: fixed windows
  counted in process memory or in Redis. The Redis connection is a parameter: what
  connecting does, and the bytes that \<^verbatim>\<open>asio::read_until\<close> delivers in answer to
  a command that was written.
\<close>

section \<open>Definitions\<close>

record RateLimitDecision =
  rd_allowed :: bool
  rd_limit :: int
  rd_remaining :: int
  rd_reset_seconds :: int
  rd_key :: string
  rd_response :: HttpResponse

definition RateLimitDecision_default :: RateLimitDecision where
  "RateLimitDecision_default =
     \<lparr>rd_allowed = True, rd_limit = 0, rd_remaining = 0, rd_reset_seconds = 0, rd_key = [],
      rd_response = HttpResponse_default\<rparr>"

record Bucket =
  bk_window_start :: int
  bk_count :: int

definition Bucket_default :: Bucket where
  "Bucket_default = \<lparr>bk_window_start = 0, bk_count = 0\<rparr>"

record RateLimitFilter =
  rlf_config :: RateLimitConfig
  rlf_buckets :: "(string, Bucket) omap"

text \<open>
  A Redis connection over a state of type \<^typ>\<open>'r\<close>: \<open>rio_connect host port\<close> resolves
  and connects, \<open>rio_exchange cmd\<close> writes the command and gives what
  \<^verbatim>\<open>read_until\<close> put into the buffer. Both may throw.
\<close>

record 'r redis_io =
  rio_connect :: "string \<Rightarrow> string \<Rightarrow> 'r \<Rightarrow> unit result \<times> 'r"
  rio_exchange :: "string \<Rightarrow> 'r \<Rightarrow> string result \<times> 'r"

definition rl_NowUnixSeconds :: "World \<Rightarrow> int \<times> World" where
  "rl_NowUnixSeconds w = (case steady_now w of (t, w') \<Rightarrow> (ns_to_s t, w'))"

definition HeaderValue :: "HttpRequest \<Rightarrow> string \<Rightarrow> string" where
  "HeaderValue request key = (case om_get (req_headers request) key of Some v \<Rightarrow> v | None \<Rightarrow> [])"

definition TooManyRequests :: "string \<Rightarrow> int \<Rightarrow> int \<Rightarrow> int \<Rightarrow> HttpResponse" where
  "TooManyRequests request_id limit remaining reset_seconds =
     set_header ''X-RateLimit-Reset'' (show_int reset_seconds)
     (set_header ''X-RateLimit-Remaining'' (show_int remaining)
     (set_header ''X-RateLimit-Limit'' (show_int limit)
     (set_header ''X-Request-Id'' request_id
       (HttpResponse_default\<lparr>rsp_status := 429, rsp_content_type := ''application/json'',
          rsp_body := ToJson (ApiResponse_Error RATE_LIMITED ''rate limit exceeded'')\<rparr>))))"

definition rl_IsPrefixMatch :: "string \<Rightarrow> string \<Rightarrow> bool" where
  "rl_IsPrefixMatch rule_path request_path =
     (if rule_path = [] \<or> length request_path < length rule_path then False
      else if take (length rule_path) request_path \<noteq> rule_path then False
      else length request_path = length rule_path \<or> request_path ! length rule_path = CHR ''/'')"

definition RedisBulkString :: "string \<Rightarrow> string" where
  "RedisBulkString value = ''$'' @ show_nat (length value) @ [CR, LF] @ value @ [CR, LF]"

definition RedisCommand :: "string list \<Rightarrow> string" where
  "RedisCommand args = ''*'' @ show_nat (length args) @ [CR, LF] @ concat (map RedisBulkString args)"

text \<open>\<^verbatim>\<open>getline\<close> on the received bytes, and the removal of a final carriage return.\<close>

definition ReadRedisLine :: "string \<Rightarrow> string" where
  "ReadRedisLine buffer =
     (let line = takeWhile (\<lambda>c. c \<noteq> LF) buffer
      in if line \<noteq> [] \<and> last line = CR then butlast line else line)"

definition ReadRedisInteger :: "string \<Rightarrow> int result" where
  "ReadRedisInteger buffer =
     (let line = ReadRedisLine buffer in
      if line = [] then Inl (Runtime_error ''empty redis response'')
      else if hd line = CHR '':'' then stoll (tl line)
      else if hd line = CHR ''+'' then Inr 0
      else if hd line = CHR ''-'' then Inl (Runtime_error (''redis error: '' @ tl line))
      else Inl (Runtime_error (''unexpected redis response: '' @ line)))"

definition ExecuteRedisInteger :: "'r redis_io \<Rightarrow> string list \<Rightarrow> 'r \<Rightarrow> int result \<times> 'r" where
  "ExecuteRedisInteger io args r =
     (case rio_exchange io (RedisCommand args) r of
        (Inl e, r') \<Rightarrow> (Inl e, r')
      | (Inr buffer, r') \<Rightarrow> (ReadRedisInteger buffer, r'))"

text \<open>The rule loop of \<^verbatim>\<open>ResolveLimit\<close>, with its running \<open>best_size\<close> and \<open>limit\<close>.\<close>

fun resolve_loop :: "RateLimitRuleConfig list \<Rightarrow> string \<Rightarrow> nat \<Rightarrow> int \<Rightarrow> int" where
  "resolve_loop [] path best_size limit = limit"
| "resolve_loop (rule # rules) path best_size limit =
     (if \<not> rl_IsPrefixMatch (rl_rule_path rule) path then resolve_loop rules path best_size limit
      else if length (rl_rule_path rule) \<ge> best_size
      then resolve_loop rules path (length (rl_rule_path rule)) (rl_rule_max_requests rule)
      else resolve_loop rules path best_size limit)"

definition ResolveLimit :: "RateLimitConfig \<Rightarrow> RouteMatchResult \<Rightarrow> int" where
  "ResolveLimit cfg match =
     resolve_loop (rl_rules cfg) (rmr_original_path match) 0 (rl_default_max_requests cfg)"

definition BuildKey :: "HttpRequest \<Rightarrow> RouteMatchResult \<Rightarrow> string" where
  "BuildKey request match =
     (let user_id = HeaderValue request ''X-User-Id'' in
      (if user_id \<noteq> [] then ''user:'' @ user_id
       else ''ip:'' @ (if req_client_ip request = [] then ''unknown'' else req_client_ip request)) @
      ''|route:'' @ rc_path (rmr_route match))"

text \<open>
  \<^verbatim>\<open>CheckLocal\<close> reads the clock in its first statement, before it takes the lock;
  the reading, in seconds, is the argument \<open>now\<close>. \<^verbatim>\<open>buckets_[key]\<close> creates a
  default bucket for a key that has none.
\<close>

definition CheckLocal ::
  "RateLimitFilter \<Rightarrow> int \<Rightarrow> HttpRequest \<Rightarrow> int \<Rightarrow> int \<Rightarrow> string \<Rightarrow> RateLimitDecision \<times> RateLimitFilter" where
  "CheckLocal f now request window_seconds limit key =
     (let b = (case om_get (rlf_buckets f) key of Some b \<Rightarrow> b | None \<Rightarrow> Bucket_default);
          bucket = (if bk_window_start b = 0 \<or> now - bk_window_start b \<ge> window_seconds
                    then b\<lparr>bk_window_start := now, bk_count := 0\<rparr> else b);
          reset = cast_int (window_seconds - (now - bk_window_start bucket));
          reset_seconds = (if reset < 0 then 0 else reset);
          decision = RateLimitDecision_default\<lparr>rd_limit := limit,
            rd_remaining := max (limit - bk_count bucket) 0,
            rd_reset_seconds := reset_seconds, rd_key := key\<rparr>
      in if bk_count bucket \<ge> limit
         then (decision\<lparr>rd_allowed := False, rd_remaining := 0,
                 rd_response := TooManyRequests (req_request_id request) limit 0 reset_seconds\<rparr>,
               f\<lparr>rlf_buckets := om_put key bucket (rlf_buckets f)\<rparr>)
         else let bucket' = bucket\<lparr>bk_count := bk_count bucket + 1\<rparr> in
              (decision\<lparr>rd_remaining := max (limit - bk_count bucket') 0\<rparr>,
               f\<lparr>rlf_buckets := om_put key bucket' (rlf_buckets f)\<rparr>))"

text \<open>The Redis key of a window: the clock reading divided by the window length names it.\<close>

definition rl_redis_key :: "RateLimitConfig \<Rightarrow> int \<Rightarrow> int \<Rightarrow> string \<Rightarrow> string" where
  "rl_redis_key cfg now window key =
     redis_key_prefix (rl_redis cfg) @ '':'' @ key @ '':'' @ show_int (trunc_div now window)"

text \<open>
  \<^verbatim>\<open>CheckRedis\<close>, with its one clock reading \<open>now\<close> (in seconds). An exception
  thrown by any call ends it.
\<close>

definition CheckRedis ::
  "'r redis_io \<Rightarrow> RateLimitConfig \<Rightarrow> int \<Rightarrow> HttpRequest \<Rightarrow> int \<Rightarrow> int \<Rightarrow> string \<Rightarrow> 'r \<Rightarrow>
   RateLimitDecision result \<times> 'r" where
  "CheckRedis io cfg now request window_seconds limit key r =
     (let redis_key = rl_redis_key cfg now window_seconds key
      in case rio_connect io (redis_host (rl_redis cfg)) (show_nat (redis_port (rl_redis cfg))) r of
        (Inl e, r1) \<Rightarrow> (Inl e, r1)
      | (Inr _, r1) \<Rightarrow>
       (case ExecuteRedisInteger io [''INCR'', redis_key] r1 of
          (Inl e, r2) \<Rightarrow> (Inl e, r2)
        | (Inr cnt, r2) \<Rightarrow>
         (case (if cnt = 1
                then ExecuteRedisInteger io [''EXPIRE'', redis_key, show_int window_seconds] r2
                else (Inr 0, r2)) of
            (Inl e, r3) \<Rightarrow> (Inl e, r3)
          | (Inr _, r3) \<Rightarrow>
           (case ExecuteRedisInteger io [''TTL'', redis_key] r3 of
              (Inl e, r4) \<Rightarrow> (Inl e, r4)
            | (Inr ttl, r4) \<Rightarrow>
               let reset_seconds = (if ttl > 0 then cast_int ttl else window_seconds);
                   decision = RateLimitDecision_default\<lparr>rd_limit := limit,
                     rd_remaining := cast_int (max (limit - cnt) 0),
                     rd_reset_seconds := reset_seconds, rd_key := redis_key\<rparr>
               in (Inr (if cnt > limit
                        then decision\<lparr>rd_allowed := False, rd_remaining := 0,
                               rd_response := TooManyRequests (req_request_id request) limit 0
                                                reset_seconds\<rparr>
                        else decision), r4)))))"

definition RateLimitFilter_Check ::
  "'r redis_io \<Rightarrow> RateLimitFilter \<Rightarrow> World \<Rightarrow> 'r \<Rightarrow> HttpRequest \<Rightarrow> RouteMatchResult \<Rightarrow>
   RateLimitDecision \<times> RateLimitFilter \<times> World \<times> 'r" where
  "RateLimitFilter_Check io f w r request match =
     (let cfg = rlf_config f in
      if \<not> rl_enabled cfg then (RateLimitDecision_default, f, w, r)
      else
        let window_seconds = max (rl_window_seconds cfg) 1;
            limit = max (ResolveLimit cfg match) 1;
            key = BuildKey request match;
            local = (\<lambda>w r. case rl_NowUnixSeconds w of (now, w') \<Rightarrow>
                       case CheckLocal f now request window_seconds limit key of
                         (d, f') \<Rightarrow> (d, f', w', r))
        in if redis_enabled (rl_redis cfg) then
             (case rl_NowUnixSeconds w of (now, w') \<Rightarrow>
                (case CheckRedis io cfg now request window_seconds limit key r of
                   (Inr d, r') \<Rightarrow> (d, f, w', r')
                 | (Inl e, r') \<Rightarrow>
                     if \<not> redis_fail_open (rl_redis cfg)
                     then (RateLimitDecision_default\<lparr>rd_allowed := False, rd_limit := limit,
                             rd_remaining := 0, rd_reset_seconds := window_seconds, rd_key := key,
                             rd_response := TooManyRequests (req_request_id request) limit 0
                                              window_seconds\<rparr>, f, w', r')
                     else local w' r'))
           else local w r)"

section \<open>Choice of the limit\<close>

lemma rl_IsPrefixMatch_eq: "rl_IsPrefixMatch r p = IsPrefixMatch r p"
  by (simp add: rl_IsPrefixMatch_def IsPrefixMatch_def)

text \<open>The rule the loop ends with: of the longest matching rules the last one.\<close>

fun rl_best ::
  "RateLimitRuleConfig list \<Rightarrow> string \<Rightarrow> RateLimitRuleConfig option \<Rightarrow> RateLimitRuleConfig option" where
  "rl_best [] p b = b"
| "rl_best (r # rs) p b =
     (if rl_IsPrefixMatch (rl_rule_path r) p \<and>
         (\<forall>x. b = Some x \<longrightarrow> length (rl_rule_path x) \<le> length (rl_rule_path r))
      then rl_best rs p (Some r) else rl_best rs p b)"

lemma resolve_loop_best:
  "resolve_loop rs p (case b of None \<Rightarrow> 0 | Some x \<Rightarrow> length (rl_rule_path x))
     (case b of None \<Rightarrow> d | Some x \<Rightarrow> rl_rule_max_requests x) =
   (case rl_best rs p b of None \<Rightarrow> d | Some x \<Rightarrow> rl_rule_max_requests x)"
proof (induction rs arbitrary: b)
  case (Cons r rs)
  from Cons.IH [of "Some r"] Cons.IH [of b] show ?case by (cases b) auto
qed simp

lemma ResolveLimit_best:
  "ResolveLimit cfg m =
     (case rl_best (rl_rules cfg) (rmr_original_path m) None of
        None \<Rightarrow> rl_default_max_requests cfg | Some x \<Rightarrow> rl_rule_max_requests x)"
  using resolve_loop_best [of "rl_rules cfg" "rmr_original_path m" None]
  by (simp add: ResolveLimit_def)

lemma rl_best_None:
  "rl_best rs p b = None \<longleftrightarrow> b = None \<and> (\<forall>r \<in> set rs. \<not> rl_IsPrefixMatch (rl_rule_path r) p)"
  by (induction rs arbitrary: b) auto

lemma rl_best_Some:
  "rl_best rs p b = Some r \<Longrightarrow>
    (r \<in> set rs \<and> rl_IsPrefixMatch (rl_rule_path r) p \<or> b = Some r) \<and>
    (\<forall>r' \<in> set rs. rl_IsPrefixMatch (rl_rule_path r') p \<longrightarrow>
       length (rl_rule_path r') \<le> length (rl_rule_path r)) \<and>
    (\<forall>r'. b = Some r' \<longrightarrow> length (rl_rule_path r') \<le> length (rl_rule_path r))"
proof (induction rs arbitrary: b)
  case (Cons x rs)
  show ?case
  proof (cases "rl_IsPrefixMatch (rl_rule_path x) p \<and>
      (\<forall>y. b = Some y \<longrightarrow> length (rl_rule_path y) \<le> length (rl_rule_path x))")
    case True
    with Cons.prems have "rl_best rs p (Some x) = Some r" by simp
    from Cons.IH [OF this] True show ?thesis by fastforce
  next
    case False
    with Cons.prems have "rl_best rs p b = Some r" by simp
    from Cons.IH [OF this] False show ?thesis by fastforce
  qed
qed simp

interpretation limits: longest_match "\<lambda>r. rl_IsPrefixMatch (rl_rule_path r)" rl_rule_path
  "\<lambda>rs p. rl_best rs p None"
proof unfold_locales
  fix r p assume "rl_IsPrefixMatch (rl_rule_path r) p"
  then show "prefix (rl_rule_path r) p" by (simp add: rl_IsPrefixMatch_eq IsPrefixMatch_prefix)
qed (auto simp: rl_best_None dest!: rl_best_Some)

section \<open>The local window\<close>

definition bucket_of :: "RateLimitFilter \<Rightarrow> string \<Rightarrow> Bucket" where
  "bucket_of f key = (case om_get (rlf_buckets f) key of Some b \<Rightarrow> b | None \<Rightarrow> Bucket_default)"

text \<open>The bucket a call works with: a new window begins when the old one is over.\<close>

definition current_bucket :: "int \<Rightarrow> int \<Rightarrow> Bucket \<Rightarrow> Bucket" where
  "current_bucket now window b =
     (if bk_window_start b = 0 \<or> now - bk_window_start b \<ge> window
      then \<lparr>bk_window_start = now, bk_count = 0\<rparr> else b)"

lemma CheckLocal_simps:
  fixes f :: RateLimitFilter
  defines "cur \<equiv> \<lambda>now window key. current_bucket now window (bucket_of f key)"
  shows "rd_allowed (fst (CheckLocal f now req window limit key)) \<longleftrightarrow> bk_count (cur now window key) < limit"
    and "bucket_of (snd (CheckLocal f now req window limit key)) key' =
      (if key' = key
       then (cur now window key)\<lparr>bk_count := bk_count (cur now window key) +
              (if bk_count (cur now window key) < limit then 1 else 0)\<rparr>
       else bucket_of f key')"
    and "rd_key (fst (CheckLocal f now req window limit key)) = key"
    and "rd_limit (fst (CheckLocal f now req window limit key)) = limit"
    and "rlf_config (snd (CheckLocal f now req window limit key)) = rlf_config f"
  by (auto simp: CheckLocal_def Let_def bucket_of_def current_bucket_def cur_def
      RateLimitDecision_default_def Bucket_default_def split: option.splits)

text \<open>A filter that is enabled and does not use Redis.\<close>

definition local_only :: "RateLimitFilter \<Rightarrow> bool" where
  "local_only f \<longleftrightarrow> rl_enabled (rlf_config f) \<and> \<not> redis_enabled (rl_redis (rlf_config f))"

definition window_of :: "RateLimitFilter \<Rightarrow> int" where
  "window_of f = max (rl_window_seconds (rlf_config f)) 1"

definition limit_of :: "RateLimitFilter \<Rightarrow> RouteMatchResult \<Rightarrow> int" where
  "limit_of f m = max (ResolveLimit (rlf_config f) m) 1"

lemma Check_local_only:
  assumes "local_only f"
  shows "RateLimitFilter_Check io f w r req m =
    (let now = ns_to_s (steady_ns w (steady_reads w));
         (d, f') = CheckLocal f now req (window_of f) (limit_of f m) (BuildKey req m)
     in (d, f', snd (steady_now w), r))"
  using assms
  by (simp add: RateLimitFilter_Check_def local_only_def window_of_def limit_of_def Let_def
      rl_NowUnixSeconds_def split_beta)

text \<open>
  A run of the filter over a sequence of requests: the decisions, each with the clock
  reading (in seconds) the call started from.
\<close>

fun rl_log ::
  "'r redis_io \<Rightarrow> RateLimitFilter \<Rightarrow> World \<Rightarrow> 'r \<Rightarrow> (HttpRequest \<times> RouteMatchResult) list \<Rightarrow>
   (int \<times> RateLimitDecision) list" where
  "rl_log io f w r [] = []"
| "rl_log io f w r (q # qs) =
     (case RateLimitFilter_Check io f w r (fst q) (snd q) of
        (d, f', w', r') \<Rightarrow> (fst (rl_NowUnixSeconds w), d) # rl_log io f' w' r' qs)"

definition admitted :: "string \<Rightarrow> int \<Rightarrow> int \<Rightarrow> (int \<times> RateLimitDecision) list \<Rightarrow> int" where
  "admitted key from til ds =
     int (length (filter (\<lambda>(now, d). rd_key d = key \<and> rd_allowed d \<and> from \<le> now \<and> now < til) ds))"

lemma admitted_simps [simp]:
  "admitted key from til [] = 0"
  "admitted key from til ((now, d) # ds) =
     (if rd_key d = key \<and> rd_allowed d \<and> from \<le> now \<and> now < til then 1 else 0) +
     admitted key from til ds"
  by (simp_all add: admitted_def)

definition seconds_at :: "World \<Rightarrow> int" where
  "seconds_at w = ns_to_s (steady_ns w (steady_reads w))"

lemma seconds_at_next: "steady_mono w \<Longrightarrow> seconds_at w \<le> seconds_at (snd (steady_now w))"
  by (simp add: seconds_at_def ns_to_s_def steady_mono_def mono_def trunc_div_mono)

lemma rl_log_Cons:
  fixes f :: RateLimitFilter
  assumes "local_only f"
  defines "c \<equiv> \<lambda>w req m. CheckLocal f (seconds_at w) req (window_of f) (limit_of f m) (BuildKey req m)"
  shows "rl_log io f w r ((req, m) # qs) =
    (seconds_at w, fst (c w req m)) # rl_log io (snd (c w req m)) (snd (steady_now w)) r qs"
  by (simp add: Check_local_only [OF assms(1)] Let_def split_beta rl_NowUnixSeconds_def
      seconds_at_def c_def)

lemma local_only_step:
  "local_only f \<Longrightarrow> local_only (snd (CheckLocal f now req wd lm key)) \<and>
   window_of (snd (CheckLocal f now req wd lm key)) = window_of f \<and>
   limit_of (snd (CheckLocal f now req wd lm key)) = limit_of f"
  by (simp add: local_only_def window_of_def limit_of_def fun_eq_iff CheckLocal_simps)

lemma steady_mono_next [simp]: "steady_mono (snd (steady_now w)) = steady_mono w"
  by (simp add: steady_mono_def)

lemma rl_log_late:
  assumes "local_only f" "steady_mono w" "til \<le> seconds_at w"
  shows "admitted key from til (rl_log io f w r qs) = 0"
  using assms
proof (induction qs arbitrary: f w)
  case (Cons q qs)
  obtain req m where q: "q = (req, m)" by (cases q)
  have "til \<le> seconds_at (snd (steady_now w))"
    using Cons.prems seconds_at_next by (meson order.trans)
  then show ?case
    using Cons.IH [of "snd (CheckLocal f (seconds_at w) req (window_of f) (limit_of f m) (BuildKey req m))"
        "snd (steady_now w)"] Cons.prems
    by (simp add: q rl_log_Cons local_only_step del: rl_log.simps)
qed simp

text \<open>
  The bound kept by the induction: what can still be admitted in \<open>[t, t + window)\<close> from a
  bucket. A window that began inside the interval covers the rest of it; otherwise one more
  window may begin there.
\<close>

definition budget :: "int \<Rightarrow> int \<Rightarrow> int \<Rightarrow> Bucket \<Rightarrow> int" where
  "budget L t now b =
     (if t \<le> bk_window_start b then L - bk_count b
      else if t \<le> now then 2 * L - bk_count b else 2 * L)"

lemma budget_step:
  fixes L t now now' window limit :: int and b :: Bucket
  defines "c \<equiv> current_bucket now window b"
  defines "b' \<equiv> c\<lparr>bk_count := bk_count c + (if bk_count c < limit then 1 else 0)\<rparr>"
  assumes "0 < now" "now \<le> now'" "now < t + window" "0 < window"
    and "limit \<le> L" "1 \<le> limit" "bk_count b \<le> L" "0 \<le> bk_count b" "bk_window_start b = 0 \<longrightarrow> bk_count b = 0"
  shows "(if bk_count c < limit \<and> t \<le> now then 1 else 0) + budget L t now' b' \<le> budget L t now b"
    and "bk_count b' \<le> L" and "0 \<le> bk_count b'" and "bk_window_start b' \<noteq> 0"
  using assms(3-) unfolding b'_def c_def budget_def current_bucket_def by (auto split: if_splits)

lemma sliding_window:
  assumes "local_only f" "steady_mono w" "0 < seconds_at w" "1 \<le> L"
    and "\<forall>q \<in> set qs. BuildKey (fst q) (snd q) = key \<longrightarrow> limit_of f (snd q) \<le> L"
    and "bk_count (bucket_of f key) \<le> L" "0 \<le> bk_count (bucket_of f key)"
      "bk_window_start (bucket_of f key) = 0 \<longrightarrow> bk_count (bucket_of f key) = 0"
  shows "admitted key t (t + window_of f) (rl_log io f w r qs) \<le> budget L t (seconds_at w) (bucket_of f key)"
  using assms
proof (induction qs arbitrary: f w)
  case Nil
  then show ?case by (simp add: budget_def)
next
  case (Cons q qs)
  obtain req m where q: "q = (req, m)" by (cases q)
  let ?w' = "snd (steady_now w)" and ?k = "BuildKey req m"
  let ?c = "CheckLocal f (seconds_at w) req (window_of f) (limit_of f m) ?k"
  let ?b = "bucket_of f key" and ?b' = "bucket_of (snd ?c) key"
  show ?case
  proof (cases "seconds_at w < t + window_of f")
    case False
    then have "admitted key t (t + window_of f) (rl_log io f w r (q # qs)) = 0"
      using Cons.prems by (intro rl_log_late) auto
    with Cons.prems show ?thesis by (simp add: budget_def)
  next
    case True
    have pos: "0 < window_of f" "1 \<le> limit_of f m" by (simp_all add: window_of_def limit_of_def)
    have next_w: "steady_mono ?w'" "seconds_at w \<le> seconds_at ?w'"
      using Cons.prems seconds_at_next by auto
    have step: "(if rd_key (fst ?c) = key \<and> rd_allowed (fst ?c) \<and> t \<le> seconds_at w then 1 else 0) +
        budget L t (seconds_at ?w') ?b' \<le> budget L t (seconds_at w) ?b \<and>
        bk_count ?b' \<le> L \<and> 0 \<le> bk_count ?b' \<and> (bk_window_start ?b' = 0 \<longrightarrow> bk_count ?b' = 0)"
    proof (cases "?k = key")
      case True
      then have "limit_of f m \<le> L" using Cons.prems(5) q by simp
      from budget_step [OF Cons.prems(3) next_w(2) \<open>seconds_at w < _\<close> pos(1) this pos(2)
          Cons.prems(6-8)] True
      show ?thesis by (simp add: CheckLocal_simps)
    next
      case False
      then show ?thesis
        using Cons.prems next_w by (auto simp: CheckLocal_simps budget_def)
    qed
    have "admitted key t (t + window_of f) (rl_log io (snd ?c) ?w' r qs)
        \<le> budget L t (seconds_at ?w') ?b'"
      using Cons.IH [of "snd ?c" ?w'] Cons.prems next_w step by (simp add: local_only_step)
    with step True show ?thesis
      using Cons.prems(1) by (auto simp: q rl_log_Cons simp del: rl_log.simps split: if_splits)
  qed
qed

text \<open>
  Conversely, the count of a bucket never exceeds what was admitted since its window began,
  so a rejection is always earned. \<open>earned f w ds key\<close> relates a bucket to the decisions
  \<open>ds\<close> made so far.
\<close>

definition earned :: "RateLimitFilter \<Rightarrow> World \<Rightarrow> (int \<times> RateLimitDecision) list \<Rightarrow> string \<Rightarrow> bool" where
  "earned f w ds key \<longleftrightarrow>
     bk_window_start (bucket_of f key) \<le> seconds_at w \<and>
     bk_count (bucket_of f key) \<le>
       admitted key (bk_window_start (bucket_of f key)) (seconds_at w + 1) ds"

lemma admitted_append [simp]:
  "admitted key from til (ds @ ds') = admitted key from til ds + admitted key from til ds'"
  by (simp add: admitted_def)

lemma admitted_widen:
  "from' \<le> from \<Longrightarrow> til \<le> til' \<Longrightarrow> admitted key from til ds \<le> admitted key from' til' ds"
  by (induction ds) (auto split: prod.splits)

lemma admitted_nonneg: "0 \<le> admitted key from til ds"
  by (simp add: admitted_def)

lemma earned_step:
  assumes "local_only f" "steady_mono w" "0 < seconds_at w" "earned f w ds key"
  defines "c \<equiv> \<lambda>req m. CheckLocal f (seconds_at w) req (window_of f) (limit_of f m) (BuildKey req m)"
  shows "earned (snd (c req m)) (snd (steady_now w)) (ds @ [(seconds_at w, fst (c req m))]) key"
proof -
  let ?w' = "snd (steady_now w)" and ?b = "bucket_of f key" and ?b' = "bucket_of (snd (c req m)) key"
  have le: "seconds_at w \<le> seconds_at ?w'" using assms seconds_at_next by simp
  then have "admitted key (bk_window_start ?b) (seconds_at w + 1) ds \<le>
      admitted key (bk_window_start ?b) (seconds_at ?w' + 1) ds"
    by (intro admitted_widen) auto
  with le assms(4) have old: "bk_window_start ?b \<le> seconds_at ?w'"
    "bk_count ?b \<le> admitted key (bk_window_start ?b) (seconds_at ?w' + 1) ds"
    by (auto simp: earned_def)
  have "BuildKey req m = key \<Longrightarrow> ?thesis"
    using assms(4) old le admitted_nonneg [of key "seconds_at w" "seconds_at ?w' + 1" ds]
    by (auto simp: c_def earned_def CheckLocal_simps current_bucket_def)
  moreover have "BuildKey req m \<noteq> key \<Longrightarrow> ?thesis"
    using old by (simp add: c_def earned_def CheckLocal_simps)
  ultimately show ?thesis by blast
qed

lemma rejection_earned_here:
  assumes "earned f w ds (BuildKey req m)"
    and "\<not> rd_allowed (fst (CheckLocal f (seconds_at w) req (window_of f) (limit_of f m) (BuildKey req m)))"
  shows "limit_of f m \<le>
    admitted (BuildKey req m) (seconds_at w - window_of f + 1) (seconds_at w + 1) ds"
proof -
  let ?b = "bucket_of f (BuildKey req m)"
  have "1 \<le> limit_of f m" by (simp add: limit_of_def)
  then have "limit_of f m \<le> bk_count ?b" and "seconds_at w - window_of f + 1 \<le> bk_window_start ?b"
    using assms(2) by (auto simp: CheckLocal_simps current_bucket_def split: if_splits)
  with assms(1) show ?thesis
    using admitted_widen [of "seconds_at w - window_of f + 1" "bk_window_start ?b"
        "seconds_at w + 1" "seconds_at w + 1" "BuildKey req m" ds]
    by (simp add: earned_def)
qed

lemma rejection_earned:
  assumes "local_only f" "steady_mono w" "0 < seconds_at w" "\<And>key. earned f w ds key"
    and "i < length qs" "rl_log io f w r qs ! i = (now, d)" "\<not> rd_allowed d"
  shows "rd_limit d \<le> admitted (rd_key d) (now - window_of f + 1) (now + 1)
    (ds @ take i (rl_log io f w r qs))"
  using assms
proof (induction qs arbitrary: f w ds i)
  case (Cons q qs)
  obtain req m where q: "q = (req, m)" by (cases q)
  let ?w' = "snd (steady_now w)"
  let ?c = "CheckLocal f (seconds_at w) req (window_of f) (limit_of f m) (BuildKey req m)"
  have rl: "rl_log io f w r (q # qs) = (seconds_at w, fst ?c) # rl_log io (snd ?c) ?w' r qs"
    using Cons.prems(1) by (simp add: q rl_log_Cons del: rl_log.simps)
  show ?case
  proof (cases i)
    case 0
    then have "now = seconds_at w" "d = fst ?c" using Cons.prems(6) rl by auto
    then show ?thesis
      using rejection_earned_here [OF Cons.prems(4)] Cons.prems(7) 0
      by (simp add: CheckLocal_simps)
  next
    case (Suc j)
    have "0 < seconds_at ?w'" using Cons.prems seconds_at_next [of w] by linarith
    moreover have "earned (snd ?c) ?w' (ds @ [(seconds_at w, fst ?c)]) key" for key
      using Cons.prems by (intro earned_step) auto
    ultimately show ?thesis
      using Cons.IH [of "snd ?c" ?w' "ds @ [(seconds_at w, fst ?c)]" j] Cons.prems rl Suc
      by (simp add: local_only_step)
  qed
qed simp

lemma length_rl_log: "length (rl_log io f w r qs) = length qs"
  by (induction qs arbitrary: f w r) (auto split: prod.splits)

section \<open>The Redis protocol\<close>

text \<open>
  A reader of the Redis serialization protocol for arrays of bulk strings, the form in
  which a server receives commands.
\<close>

definition resp_number :: "string \<Rightarrow> (nat \<times> string) option" where
  "resp_number s =
     (let ds = takeWhile isdigit s; rest = dropWhile isdigit s
      in if ds = [] \<or> take 2 rest \<noteq> [CR, LF] then None else Some (digits_val ds, drop 2 rest))"

definition resp_bulk :: "string \<Rightarrow> (string \<times> string) option" where
  "resp_bulk s =
     (if take 1 s \<noteq> ''$'' then None
      else case resp_number (drop 1 s) of
             None \<Rightarrow> None
           | Some (n, t) \<Rightarrow>
               if take 2 (drop n t) \<noteq> [CR, LF] then None else Some (take n t, drop (n + 2) t))"

primrec resp_bulks :: "nat \<Rightarrow> string \<Rightarrow> (string list \<times> string) option" where
  "resp_bulks 0 s = Some ([], s)"
| "resp_bulks (Suc n) s =
     (case resp_bulk s of
        None \<Rightarrow> None
      | Some (a, t) \<Rightarrow> map_option (\<lambda>(as, u). (a # as, u)) (resp_bulks n t))"

definition resp_command :: "string \<Rightarrow> (string list \<times> string) option" where
  "resp_command s =
     (if take 1 s \<noteq> ''*'' then None
      else case resp_number (drop 1 s) of None \<Rightarrow> None | Some (n, t) \<Rightarrow> resp_bulks n t)"

lemma not_isdigit_CR [simp]: "\<not> isdigit CR"
  by (simp add: isdigit_def)

lemma resp_number_show: "resp_number (show_nat n @ CR # LF # s) = Some (n, s)"
  using show_nat_digits [of n] by (simp add: resp_number_def takeWhile_append dropWhile_append)

lemma resp_bulk_RedisBulkString: "resp_bulk (RedisBulkString v @ s) = Some (v, s)"
  by (simp add: resp_bulk_def RedisBulkString_def resp_number_show)

lemma resp_bulks_concat:
  "resp_bulks (length args) (concat (map RedisBulkString args) @ s) = Some (args, s)"
  by (induction args) (simp_all add: resp_bulk_RedisBulkString)

lemma resp_command_RedisCommand: "resp_command (RedisCommand args @ s) = Some (args, s)"
  by (simp add: resp_command_def RedisCommand_def resp_number_show resp_bulks_concat)

interpretation resp: codec RedisCommand "\<lambda>s. map_option fst (resp_command s)" "\<lambda>_. True"
  by unfold_locales (use resp_command_RedisCommand [of _ "[]"] in simp)

text \<open>An integer reply is read back.\<close>

lemma ReadRedisInteger_reply:
  assumes "in_int64 i"
  shows "ReadRedisInteger ('':'' @ show_int i @ [CR, LF]) = Inr i"
proof -
  have "\<forall>c \<in> set (show_int i). c \<noteq> LF \<and> c \<noteq> CR"
    using show_int_chars [of i] by (auto simp: isdigit_def)
  then have "ReadRedisLine ('':'' @ show_int i @ [CR, LF]) = '':'' @ show_int i"
    by (simp add: ReadRedisLine_def takeWhile_append)
  then show ?thesis using assms by (simp add: ReadRedisInteger_def stoll_show_int)
qed

section \<open>Counting in Redis\<close>

text \<open>
  What the limiter relies on from a Redis server whose counters are read off its state by
  \<open>cnt\<close>: connecting works, \<^verbatim>\<open>INCR\<close> adds one to the counter of its key and
  answers the new value, \<^verbatim>\<open>EXPIRE\<close> and \<^verbatim>\<open>TTL\<close> answer an integer and change
  no counter.
\<close>

definition redis_behaves :: "'r redis_io \<Rightarrow> ('r \<Rightarrow> string \<Rightarrow> int) \<Rightarrow> bool" where
  "redis_behaves io cnt \<longleftrightarrow>
     (\<forall>host port r. \<exists>r'. rio_connect io host port r = (Inr (), r') \<and> cnt r' = cnt r) \<and>
     (\<forall>k r. \<exists>r'. rio_exchange io (RedisCommand [''INCR'', k]) r =
        (Inr ('':'' @ show_int (cnt r k + 1) @ [CR, LF]), r') \<and> cnt r' = (cnt r)(k := cnt r k + 1)) \<and>
     (\<forall>k s r. \<exists>i r'. rio_exchange io (RedisCommand [''EXPIRE'', k, s]) r =
        (Inr ('':'' @ show_int i @ [CR, LF]), r') \<and> in_int64 i \<and> cnt r' = cnt r) \<and>
     (\<forall>k r. \<exists>i r'. rio_exchange io (RedisCommand [''TTL'', k]) r =
        (Inr ('':'' @ show_int i @ [CR, LF]), r') \<and> in_int64 i \<and> cnt r' = cnt r)"

lemma ExecuteRedisInteger_reply:
  assumes "rio_exchange io (RedisCommand args) r = (Inr ('':'' @ show_int i @ [CR, LF]), r')" "in_int64 i"
  shows "ExecuteRedisInteger io args r = (Inr i, r')"
  using assms ReadRedisInteger_reply [OF assms(2)] by (simp add: ExecuteRedisInteger_def)

lemma CheckRedis_counts:
  fixes io :: "'r redis_io" and cnt :: "'r \<Rightarrow> string \<Rightarrow> int"
  assumes io: "redis_behaves io cnt"
    and range: "in_int64 (cnt r (rl_redis_key cfg now window key) + 1)"
  obtains d r' where "CheckRedis io cfg now req window limit key r = (Inr d, r')"
    and "rd_allowed d \<longleftrightarrow> cnt r (rl_redis_key cfg now window key) + 1 \<le> limit"
    and "cnt r' = (cnt r)(rl_redis_key cfg now window key := cnt r (rl_redis_key cfg now window key) + 1)"
    and "\<not> rd_allowed d \<Longrightarrow> rsp_status (rd_response d) = 429"
proof -
  let ?k = "rl_redis_key cfg now window key"
  obtain r1 where c: "rio_connect io (redis_host (rl_redis cfg)) (show_nat (redis_port (rl_redis cfg))) r =
      (Inr (), r1)" "cnt r1 = cnt r"
    using io unfolding redis_behaves_def by meson
  obtain r2 where "rio_exchange io (RedisCommand [''INCR'', ?k]) r1 =
      (Inr ('':'' @ show_int (cnt r1 ?k + 1) @ [CR, LF]), r2)" "cnt r2 = (cnt r1)(?k := cnt r1 ?k + 1)"
    using io unfolding redis_behaves_def by meson
  with c range have i: "ExecuteRedisInteger io [''INCR'', ?k] r1 = (Inr (cnt r ?k + 1), r2)"
    "cnt r2 = (cnt r)(?k := cnt r ?k + 1)"
    by (simp_all add: ExecuteRedisInteger_reply)
  obtain x r3 where x: "rio_exchange io (RedisCommand [''EXPIRE'', ?k, show_int window]) r2 =
      (Inr ('':'' @ show_int x @ [CR, LF]), r3)" "in_int64 x" "cnt r3 = cnt r2"
    using io unfolding redis_behaves_def by meson
  define r3' where "r3' = (if cnt r ?k = 0 then r3 else r2)"
  obtain u where e: "cnt r3' = cnt r2"
    "(if cnt r ?k = 0 then ExecuteRedisInteger io [''EXPIRE'', ?k, show_int window] r2
      else (Inr 0, r2)) = (Inr u, r3')"
    using x ExecuteRedisInteger_reply [OF x(1,2)] by (cases "cnt r ?k = 0") (auto simp: r3'_def)
  obtain v r4 where "rio_exchange io (RedisCommand [''TTL'', ?k]) r3' =
      (Inr ('':'' @ show_int v @ [CR, LF]), r4)" "in_int64 v" "cnt r4 = cnt r3'"
    using io unfolding redis_behaves_def by meson
  then have t: "ExecuteRedisInteger io [''TTL'', ?k] r3' = (Inr v, r4)" "cnt r4 = cnt r3'"
    by (simp_all add: ExecuteRedisInteger_reply)
  show ?thesis
    by (rule that, simp add: CheckRedis_def Let_def c(1) i(1) e(2) t(1))
       (use e(1) i(2) t(2) in \<open>auto simp: RateLimitDecision_default_def TooManyRequests_def\<close>)
qed

section \<open>Properties\<close>

text \<open>A filter with one request per window, a clock ticking in seconds, and a Redis server.\<close>

definition demo_limiter :: RateLimitFilter where
  "demo_limiter = \<lparr>rlf_config = RateLimitConfig_default\<lparr>rl_default_max_requests := 1\<rparr>, rlf_buckets = []\<rparr>"

definition demo_clock :: World where
  "demo_clock = \<lparr>steady_ns = (\<lambda>n. (int n + 1) * 1000000000), steady_reads = 0,
     system_ns = (\<lambda>n. 0), system_reads = 0\<rparr>"

definition demo_rl_request :: HttpRequest where
  "demo_rl_request = \<lparr>req_method = ''GET'', req_path = ''/api/user/profile'', req_query = [], req_body = [],
     req_headers = [], req_client_ip = ''10.0.0.1'', req_request_id = ''req-1''\<rparr>"

definition demo_rl_match :: RouteMatchResult where
  "demo_rl_match = \<lparr>rmr_route = RouteConfig_default\<lparr>rc_path := ''/api/user''\<rparr>,
     rmr_original_path = ''/api/user/profile'', rmr_upstream_path = ''/profile''\<rparr>"

definition demo_redis :: "(string \<Rightarrow> int) redis_io" where
  "demo_redis = \<lparr>rio_connect = (\<lambda>_ _ r. (Inr (), r)),
     rio_exchange = (\<lambda>cmd r. case resp_command cmd of
         Some (c # k # _, _) \<Rightarrow>
           if c = ''INCR'' then (Inr ('':'' @ show_int (r k + 1) @ [CR, LF]), r(k := r k + 1))
           else (Inr ('':'' @ show_int 1 @ [CR, LF]), r)
       | _ \<Rightarrow> (Inr ''-ERR'', r))\<rparr>"

lemma demo_redis_behaves: "redis_behaves demo_redis (\<lambda>r. r)"
proof -
  have c: "resp_command (RedisCommand args) = Some (args, [])" for args
    using resp_command_RedisCommand [of args "[]"] by simp
  have "in_int64 1" by (simp add: in_int64_def INT64_MIN_def INT64_MAX_def)
  then show ?thesis by (simp add: redis_behaves_def demo_redis_def c) blast
qed

lemma demo_facts:
  "local_only demo_limiter" "rlf_buckets demo_limiter = []" "steady_mono demo_clock"
  "seconds_at demo_clock = 1" "window_of demo_limiter = 60"
  "limit_of demo_limiter m = 1" "BuildKey demo_rl_request demo_rl_match = ''ip:10.0.0.1|route:/api/user''"
  by (simp_all add: demo_limiter_def demo_clock_def local_only_def RateLimitConfig_default_def
      RedisRateLimitConfig_default_def steady_mono_def mono_def seconds_at_def ns_to_s_def trunc_div_def
      window_of_def limit_of_def ResolveLimit_def BuildKey_def demo_rl_request_def demo_rl_match_def
      HeaderValue_def RouteConfig_default_def)

text \<open>
  C14: Counting locally from a fresh start, with a clock that does not go back and has passed
  its first second, the limiter admits for one key at most twice the limit in any time
  interval as long as a window, whatever requests are interleaved and whichever of the
  key's requests have smaller limits.
\<close>

theorem rate_limit_sliding_window:
  assumes "local_only f" "rlf_buckets f = []" "steady_mono w" "0 < seconds_at w" "1 \<le> L"
    and "\<And>req m. (req, m) \<in> set qs \<Longrightarrow> BuildKey req m = key \<Longrightarrow> limit_of f m \<le> L"
  shows "admitted key t (t + window_of f) (rl_log io f w r qs) \<le> 2 * L"
proof -
  have b: "bucket_of f key = Bucket_default" using assms(2) by (simp add: bucket_of_def)
  then have "admitted key t (t + window_of f) (rl_log io f w r qs) \<le>
      budget L t (seconds_at w) (bucket_of f key)"
    using assms by (intro sliding_window) (auto simp: Bucket_default_def)
  also have "\<dots> \<le> 2 * L" using assms(5) by (simp add: b budget_def Bucket_default_def)
  finally show ?thesis .
qed

theorem rate_limit_sliding_window_witness:
  "admitted ''ip:10.0.0.1|route:/api/user'' 30 90
     (rl_log demo_redis demo_limiter demo_clock (\<lambda>_. 0) (replicate 100 (demo_rl_request, demo_rl_match))) \<le> 2"
  using rate_limit_sliding_window [of demo_limiter demo_clock 1
      "replicate 100 (demo_rl_request, demo_rl_match)" "''ip:10.0.0.1|route:/api/user''" 30 demo_redis "\<lambda>_. 0"]
  by (simp add: demo_facts)

text \<open>
  C15: The limiter rejects a request only when at least as many requests of the same key as
  its limit have been admitted during the last window length, so a client that keeps to the
  limit is never refused.
\<close>

theorem rate_limit_rejections_earned:
  assumes "local_only f" "rlf_buckets f = []" "steady_mono w" "0 < seconds_at w"
    and "i < length qs" "rl_log io f w r qs ! i = (now, d)" "\<not> rd_allowed d"
  shows "rd_limit d \<le> admitted (rd_key d) (now - window_of f + 1) (now + 1)
    (take i (rl_log io f w r qs))"
proof -
  have "earned f w [] key" for key
    using assms(2,4) by (simp add: earned_def bucket_of_def Bucket_default_def)
  from rejection_earned [OF assms(1,3,4) this assms(5-7)] show ?thesis by simp
qed

theorem rate_limit_rejections_earned_witness:
  "1 \<le> admitted ''ip:10.0.0.1|route:/api/user'' (-57) 3
     (take 1 (rl_log demo_redis demo_limiter demo_clock (\<lambda>_. 0) (replicate 2 (demo_rl_request, demo_rl_match))))"
proof -
  let ?log = "rl_log demo_redis demo_limiter demo_clock (\<lambda>_. 0) [(demo_rl_request, demo_rl_match), (demo_rl_request, demo_rl_match)]"
  let ?k = "''ip:10.0.0.1|route:/api/user''"
  define c where "c = CheckLocal demo_limiter 1 demo_rl_request 60 1 ?k"
  have s: "seconds_at (snd (steady_now demo_clock)) = 2"
    by (simp add: demo_clock_def seconds_at_def ns_to_s_def trunc_div_def)
  have f: "local_only (snd c)" "window_of (snd c) = 60" "limit_of (snd c) m = 1" for m
    using local_only_step [OF demo_facts(1)] by (simp_all add: c_def demo_facts)
  have "bucket_of demo_limiter ?k = Bucket_default" by (simp add: bucket_of_def demo_facts)
  then have b: "bucket_of (snd c) ?k = \<lparr>bk_window_start = 1, bk_count = 1\<rparr>"
    by (simp add: c_def CheckLocal_simps current_bucket_def Bucket_default_def)
  define d where "d = fst (CheckLocal (snd c) 2 demo_rl_request 60 1 ?k)"
  have nth: "?log ! 1 = (2, d)"
    by (simp add: rl_log_Cons demo_facts f s c_def [symmetric] d_def del: rl_log.simps)
  have d: "\<not> rd_allowed d" "rd_limit d = 1" "rd_key d = ?k"
    by (simp_all add: d_def CheckLocal_simps b current_bucket_def)
  have "1 \<le> admitted ?k (2 - 60 + 1) (2 + 1) (take 1 ?log)"
    using rate_limit_rejections_earned [OF demo_facts(1,2,3) _ _ nth d(1)] d
    by (simp add: demo_facts del: rl_log.simps)
  then show ?thesis by (simp add: numeral_2_eq_2 del: rl_log.simps)
qed

text \<open>
  C16: With Redis counting, a request counts in the window that the clock reading falls in: the
  server's counter of that window goes up by one and no other counter changes, the request
  passes exactly when the new value is within the limit, and a refusal is a 429 answer.
\<close>

theorem redis_window_counts:
  assumes "redis_behaves io cnt" "in_int64 (cnt r (rl_redis_key cfg now window key) + 1)"
  shows "\<exists>d r'. CheckRedis io cfg now req window limit key r = (Inr d, r') \<and>
    cnt r' = (cnt r)(rl_redis_key cfg now window key := cnt r (rl_redis_key cfg now window key) + 1) \<and>
    (if cnt r (rl_redis_key cfg now window key) < limit then rd_allowed d
     else \<not> rd_allowed d \<and> rsp_status (rd_response d) = 429)"
  by (rule CheckRedis_counts [OF assms, of req limit]) auto

theorem redis_window_counts_witness:
  "\<exists>d r'. CheckRedis demo_redis RateLimitConfig_default 7 demo_rl_request 60 1 ''k'' (\<lambda>_. 1) = (Inr d, r') \<and>
     \<not> rd_allowed d \<and> rsp_status (rd_response d) = 429"
proof -
  have "in_int64 (1 + 1)" by (simp add: in_int64_def INT64_MIN_def INT64_MAX_def)
  from redis_window_counts [OF demo_redis_behaves, of "\<lambda>_. 1", OF this,
      of RateLimitConfig_default 7 demo_rl_request 60 1 "''k''"]
  show ?thesis by auto
qed

text \<open>
  When Redis cannot be used, the configured policy decides: failing closed refuses with
  429 and leaves the local counters alone, failing open falls back to local counting with a
  new clock reading. No exception leaves the limiter.
\<close>

theorem redis_failure_policy:
  assumes "rl_enabled (rlf_config f)" "redis_enabled (rl_redis (rlf_config f))"
    and "CheckRedis io (rlf_config f) (seconds_at w) req (window_of f) (limit_of f m) (BuildKey req m) r =
      (Inl e, r')"
  shows "RateLimitFilter_Check io f w r req m =
    (if redis_fail_open (rl_redis (rlf_config f))
     then (let w1 = snd (steady_now w);
               (d, f') = CheckLocal f (seconds_at w1) req (window_of f) (limit_of f m) (BuildKey req m)
           in (d, f', snd (steady_now w1), r'))
     else (RateLimitDecision_default\<lparr>rd_allowed := False, rd_limit := limit_of f m,
             rd_reset_seconds := window_of f, rd_key := BuildKey req m,
             rd_response := TooManyRequests (req_request_id req) (limit_of f m) 0 (window_of f)\<rparr>,
           f, snd (steady_now w), r'))"
  using assms
  by (simp add: RateLimitFilter_Check_def Let_def rl_NowUnixSeconds_def split_beta seconds_at_def
      window_of_def limit_of_def RateLimitDecision_default_def)

theorem redis_failure_policy_witness:
  "rd_allowed (fst (RateLimitFilter_Check \<lparr>rio_connect = (\<lambda>_ _ r. (Inl (Runtime_error ''refused''), r)),
       rio_exchange = (\<lambda>_ r. (Inr [], r))\<rparr>
     (demo_limiter\<lparr>rlf_config := RateLimitConfig_default\<lparr>rl_redis := RedisRateLimitConfig_default
        \<lparr>redis_enabled := True, redis_fail_open := False\<rparr>\<rparr>\<rparr>)
     demo_clock () demo_rl_request demo_rl_match)) = False"
  by (subst redis_failure_policy)
     (simp_all add: CheckRedis_def Let_def RateLimitConfig_default_def RateLimitDecision_default_def)

text \<open>
  Every command the limiter sends is framed so that a server reads back exactly its
  arguments and nothing else, even when an argument (the key contains the user id and the
  route path) has line breaks or looks like protocol text: no command can be injected.
\<close>

theorem RedisCommand_framing:
  "resp_command (RedisCommand args @ rest) = Some (args, rest)"
  by (rule resp_command_RedisCommand)

text \<open>
  The limit of a request is the one of the longest rule that covers its path, on segment
  boundaries; without such a rule it is the default.
\<close>

theorem ResolveLimit_longest_rule:
  "(\<forall>rule \<in> set (rl_rules cfg). \<not> IsPrefixMatch (rl_rule_path rule) (rmr_original_path m)) \<and>
     ResolveLimit cfg m = rl_default_max_requests cfg \<or>
   (\<exists>rule \<in> set (rl_rules cfg). IsPrefixMatch (rl_rule_path rule) (rmr_original_path m) \<and>
     ResolveLimit cfg m = rl_rule_max_requests rule \<and>
     (\<forall>rule' \<in> set (rl_rules cfg). IsPrefixMatch (rl_rule_path rule') (rmr_original_path m) \<longrightarrow>
        length (rl_rule_path rule') \<le> length (rl_rule_path rule)))"
  using limits.select_NoneD [of "rl_rules cfg" "rmr_original_path m"]
    limits.select_SomeD [of "rl_rules cfg" "rmr_original_path m"]
  unfolding ResolveLimit_best rl_IsPrefixMatch_eq
  by (cases "rl_best (rl_rules cfg) (rmr_original_path m) None") auto

theorem ResolveLimit_longest_rule_witness:
  "ResolveLimit (RateLimitConfig_default\<lparr>rl_rules :=
      [\<lparr>rl_rule_path = ''/api'', rl_rule_max_requests = 9\<rparr>,
       \<lparr>rl_rule_path = ''/api/user'', rl_rule_max_requests = 5\<rparr>]\<rparr>) demo_rl_match = 5"
  using ResolveLimit_longest_rule [of "RateLimitConfig_default\<lparr>rl_rules :=
      [\<lparr>rl_rule_path = ''/api'', rl_rule_max_requests = 9\<rparr>,
       \<lparr>rl_rule_path = ''/api/user'', rl_rule_max_requests = 5\<rparr>]\<rparr>" demo_rl_match]
  by (auto simp: demo_rl_match_def IsPrefixMatch_def)

text \<open>
  Two gateway hosts whose monotonic clocks differ by a window or more count the same
  client in different Redis counters at the same moment: the window number in the key is
  taken from a clock that starts at boot time.
\<close>

theorem hosts_use_different_counters:
  assumes "0 < window" "0 \<le> now1" "now1 + window \<le> now2"
  shows "rl_redis_key cfg now1 window key \<noteq> rl_redis_key cfg now2 window key"
proof -
  have "now1 div window + 1 = (now1 + window) div window" using assms(1) by simp
  also have "\<dots> \<le> now2 div window" using assms by (intro zdiv_mono1) auto
  finally have "now1 div window \<noteq> now2 div window" by simp
  with assms show ?thesis by (simp add: rl_redis_key_def trunc_div_def show_int_inj)
qed

theorem hosts_use_different_counters_witness:
  "rl_redis_key RateLimitConfig_default 100 60 ''user:1'' \<noteq> rl_redis_key RateLimitConfig_default 5000 60 ''user:1''"
  using hosts_use_different_counters [of 60 100 5000 RateLimitConfig_default "''user:1''"] by simp

end
