(* ===== verification/Metrics.thy ===== *)
theory Metrics
  imports Http "HOL-Library.Word"
begin

text \<open>
  The metrics registry of \<^verbatim>\<open>src/observability/metrics.cc\<close>: request counts and
  duration sums per path, upstream and status, kept in a \<^verbatim>\<open>std::map\<close> in the order
  of their keys and written in the Prometheus text format. Counters are 64-bit words. Each
  operation holds the registry's mutex and is one step.
\<close>

section \<open>Keys and their order\<close>

datatype RequestMetricKey =
  RequestMetricKey (mk_path: string) (mk_upstream: string) (mk_status: int)

definition metric_key_less :: "RequestMetricKey \<Rightarrow> RequestMetricKey \<Rightarrow> bool" where
  "metric_key_less a b \<longleftrightarrow>
     (if mk_path a \<noteq> mk_path b then mk_path a < mk_path b
      else if mk_upstream a \<noteq> mk_upstream b then mk_upstream a < mk_upstream b
      else mk_status a < mk_status b)"

instantiation RequestMetricKey :: linorder
begin

definition less_RequestMetricKey :: "RequestMetricKey \<Rightarrow> RequestMetricKey \<Rightarrow> bool" where
  "less_RequestMetricKey a b \<longleftrightarrow> metric_key_less a b"

definition less_eq_RequestMetricKey :: "RequestMetricKey \<Rightarrow> RequestMetricKey \<Rightarrow> bool" where
  "less_eq_RequestMetricKey a b \<longleftrightarrow> a = b \<or> a < b"

instance
  by standard
    (auto simp: metric_key_less_def less_RequestMetricKey_def less_eq_RequestMetricKey_def RequestMetricKey.expand
      split: if_splits)

end

section \<open>The registry\<close>

record RequestMetricValue =
  mv_count :: "64 word"
  mv_duration_ms_sum :: "64 word"

definition RequestMetricValue_default :: RequestMetricValue where
  "RequestMetricValue_default = \<lparr>mv_count = 0, mv_duration_ms_sum = 0\<rparr>"

type_synonym MetricsRegistry = "(RequestMetricKey, RequestMetricValue) omap"

definition metric :: "MetricsRegistry \<Rightarrow> RequestMetricKey \<Rightarrow> RequestMetricValue" where
  "metric m key = (case om_get m key of Some v \<Rightarrow> v | None \<Rightarrow> RequestMetricValue_default)"

definition RecordRequest :: "string \<Rightarrow> string \<Rightarrow> int \<Rightarrow> 64 word \<Rightarrow> MetricsRegistry \<Rightarrow> MetricsRegistry" where
  "RecordRequest path upstream status duration_ms m =
     (let key = RequestMetricKey path upstream status;
          v = metric m key
      in om_put key \<lparr>mv_count = mv_count v + 1, mv_duration_ms_sum = mv_duration_ms_sum v + duration_ms\<rparr> m)"

definition escape_label_char :: "char \<Rightarrow> string" where
  "escape_label_char c =
     (if c = BACKSLASH then [BACKSLASH, BACKSLASH]
      else if c = QUOTE then [BACKSLASH, QUOTE]
      else if c = LF then [BACKSLASH, CHR ''n'']
      else [c])"

definition EscapeLabelValue :: "string \<Rightarrow> string" where
  "EscapeLabelValue input = concat (map escape_label_char input)"

text \<open>One sample line: the metric's name, the labels of the key and a value.\<close>

definition metric_line :: "string \<Rightarrow> RequestMetricKey \<Rightarrow> 64 word \<Rightarrow> string" where
  "metric_line name key v =
     name @ ''{path='' @ quoted (EscapeLabelValue (mk_path key)) @
     '',upstream='' @ quoted (EscapeLabelValue (mk_upstream key)) @
     '',status='' @ quoted (show_int (mk_status key)) @ ''} '' @ show_nat (unat v) @ [LF]"

definition RenderPrometheus :: "MetricsRegistry \<Rightarrow> string" where
  "RenderPrometheus m =
     ''# HELP tgw_gateway_requests_total Total gateway HTTP requests.'' @ [LF] @
     ''# TYPE tgw_gateway_requests_total counter'' @ [LF] @
     concat (map (\<lambda>(key, v). metric_line ''tgw_gateway_requests_total'' key (mv_count v)) m) @
     ''# HELP tgw_gateway_request_duration_ms_sum Gateway request duration sum in milliseconds.'' @ [LF] @
     ''# TYPE tgw_gateway_request_duration_ms_sum counter'' @ [LF] @
     concat (map (\<lambda>(key, v). metric_line ''tgw_gateway_request_duration_ms_sum'' key (mv_duration_ms_sum v)) m) @
     ''# HELP tgw_gateway_request_duration_ms_count Gateway request duration sample count.'' @ [LF] @
     ''# TYPE tgw_gateway_request_duration_ms_count counter'' @ [LF] @
     concat (map (\<lambda>(key, v). metric_line ''tgw_gateway_request_duration_ms_count'' key (mv_count v)) m)"

definition BuildPrometheusResponse :: "MetricsRegistry option \<Rightarrow> HttpResponse" where
  "BuildPrometheusResponse metrics =
     HttpResponse_default\<lparr>rsp_status := 200, rsp_content_type := ''text/plain; version=0.0.4; charset=utf-8'',
       rsp_body := (case metrics of Some m \<Rightarrow> RenderPrometheus m | None \<Rightarrow> [])\<rparr>"

section \<open>Counting\<close>

text \<open>
  A recorded request, and what the registry should hold after a list of them: for each key
  how often it occurs and the sum of its durations.
\<close>

type_synonym recorded = "RequestMetricKey \<times> 64 word"

definition record_all :: "recorded list \<Rightarrow> MetricsRegistry \<Rightarrow> MetricsRegistry" where
  "record_all rs m = foldl (\<lambda>m (k, d). RecordRequest (mk_path k) (mk_upstream k) (mk_status k) d m) m rs"

lemma record_all_simps [simp]:
  "record_all [] m = m"
  "record_all (rs @ [(k, d)]) m = RecordRequest (mk_path k) (mk_upstream k) (mk_status k) d (record_all rs m)"
  by (simp_all add: record_all_def)

lemma metric_RecordRequest:
  "metric (RecordRequest p u s d m) k =
     (if k = RequestMetricKey p u s
      then \<lparr>mv_count = mv_count (metric m k) + 1, mv_duration_ms_sum = mv_duration_ms_sum (metric m k) + d\<rparr>
      else metric m k)"
  by (cases "k = RequestMetricKey p u s") (simp_all add: RecordRequest_def metric_def Let_def)

lemma record_all_counts:
  "mv_count (metric (record_all rs om_empty) k) = of_nat (length (filter (\<lambda>r. fst r = k) rs)) \<and>
   mv_duration_ms_sum (metric (record_all rs om_empty) k) = sum_list (map snd (filter (\<lambda>r. fst r = k) rs))"
proof (induction rs rule: rev_induct)
  case Nil
  then show ?case by (simp add: metric_def RequestMetricValue_default_def)
next
  case (snoc r rs)
  obtain k' d where r: "r = (k', d)" by fastforce
  show ?case
    using snoc.IH by (cases k') (auto simp: r metric_RecordRequest)
qed

lemma record_all_wf: "om_wf (record_all rs om_empty)"
  by (induction rs rule: rev_induct) (auto simp: RecordRequest_def Let_def)

lemma record_all_keys: "set (map fst (record_all rs om_empty)) = fst ` set rs"
proof (induction rs rule: rev_induct)
  case (snoc r rs)
  then show ?case by (cases r) (simp add: RecordRequest_def Let_def om_put_keys [simplified])
qed simp

section \<open>Reading the page back\<close>

text \<open>Prometheus decodes a label value up to the closing quote.\<close>

fun label_value :: "string \<Rightarrow> (string \<times> string) option" where
  "label_value [] = None"
| "label_value (c # s) =
     (if c = QUOTE then Some ([], s)
      else if c = BACKSLASH then
        (case s of [] \<Rightarrow> None
         | d # t \<Rightarrow> map_option (\<lambda>(v, r). ((if d = CHR ''n'' then LF else d) # v, r)) (label_value t))
      else map_option (\<lambda>(v, r). (c # v, r)) (label_value s))"

lemma label_value_escape: "label_value (EscapeLabelValue s @ QUOTE # rest) = Some (s, rest)"
  by (induction s) (auto simp: EscapeLabelValue_def escape_label_char_def)

interpretation label_text: codec "\<lambda>s. quoted (EscapeLabelValue s)"
  "\<lambda>t. map_option fst (label_value (tl t))" "\<lambda>_. True"
  by unfold_locales (simp add: quoted_def label_value_escape)

text \<open>A reader of one sample line: the key, the value and what follows.\<close>

definition expect :: "string \<Rightarrow> string \<Rightarrow> string option" where
  "expect pat s = (if prefix pat s then Some (drop (length pat) s) else None)"

definition read_line :: "string \<Rightarrow> string \<Rightarrow> ((RequestMetricKey \<times> nat) \<times> string) option" where
  "read_line name s =
     Option.bind (expect (name @ ''{path='' @ [QUOTE]) s) (\<lambda>s1.
     Option.bind (label_value s1) (\<lambda>(path, s2).
     Option.bind (expect ('',upstream='' @ [QUOTE]) s2) (\<lambda>s3.
     Option.bind (label_value s3) (\<lambda>(upstream, s4).
     Option.bind (expect ('',status='' @ [QUOTE]) s4) (\<lambda>s5.
     Option.bind (label_value s5) (\<lambda>(st, s6).
     Option.bind (expect ''} '' s6) (\<lambda>s7.
       let ds = takeWhile isdigit s7 in
       Option.bind (expect [LF] (drop (length ds) s7)) (\<lambda>rest.
       case sto_signed [] INT_MIN INT_MAX st of
         Inl _ \<Rightarrow> None
       | Inr status \<Rightarrow> Some ((RequestMetricKey path upstream status, digits_val ds), rest)))))))))"

lemma expect_append [simp]: "expect pat (pat @ s) = Some s"
  by (simp add: expect_def)

lemma label_value_show_int: "label_value (show_int i @ QUOTE # rest) = Some (show_int i, rest)"
proof -
  have "c \<noteq> QUOTE \<and> c \<noteq> BACKSLASH \<and> c \<noteq> LF" if "c \<in> set (show_int i)" for c
    using show_int_chars [of i] that by (auto simp: isdigit_def)
  then have "label_value (xs @ QUOTE # rest) = Some (xs, rest)" if "set xs \<subseteq> set (show_int i)" for xs
    using that by (induction xs) auto
  then show ?thesis by simp
qed

lemma read_line_metric:
  assumes "in_int (mk_status key)"
  shows "read_line name (metric_line name key v @ rest) = Some ((key, unat v), rest)"
proof -
  have lf: "\<not> isdigit LF" by (simp add: isdigit_def)
  have "takeWhile isdigit (show_nat (unat v) @ LF # rest) = show_nat (unat v)"
    using show_nat_digits [of "unat v"] lf by (simp add: takeWhile_append)
  moreover have "expect (name @ ''{path='' @ [QUOTE]) (metric_line name key v @ rest) =
      Some (EscapeLabelValue (mk_path key) @ QUOTE # '',upstream='' @ [QUOTE] @ EscapeLabelValue (mk_upstream key) @
            QUOTE # '',status='' @ [QUOTE] @ show_int (mk_status key) @ QUOTE # ''} '' @ show_nat (unat v) @ LF # rest)"
    using expect_append [of "name @ ''{path='' @ [QUOTE]"] by (simp add: metric_line_def quoted_def)
  moreover have "sto_signed [] INT_MIN INT_MAX (show_int (mk_status key)) = Inr (mk_status key)"
    using assms by (intro sto_signed_show_int) (simp_all add: in_int_def)
  ultimately show ?thesis
    by (simp add: read_line_def label_value_escape label_value_show_int expect_def Let_def)
qed

primrec read_lines :: "string \<Rightarrow> nat \<Rightarrow> string \<Rightarrow> ((RequestMetricKey \<times> nat) list \<times> string) option" where
  "read_lines name 0 s = Some ([], s)"
| "read_lines name (Suc n) s =
     Option.bind (read_line name s) (\<lambda>(e, r). map_option (\<lambda>(es, t). (e # es, t)) (read_lines name n r))"

lemma read_lines_metrics:
  assumes "\<forall>e \<in> set m. in_int (mk_status (fst e))"
  shows "read_lines name (length m) (concat (map (\<lambda>(key, v). metric_line name key (f v)) m) @ rest) =
    Some (map (\<lambda>(key, v). (key, unat (f v))) m, rest)"
  using assms by (induction m) (auto simp: read_line_metric)

definition total_header :: string where
  "total_header = ''# HELP tgw_gateway_requests_total Total gateway HTTP requests.'' @ [LF] @
     ''# TYPE tgw_gateway_requests_total counter'' @ [LF]"

section \<open>Properties\<close>

text \<open>
  C30: After any sequence of recorded requests the page of the registry starts with one sample
  line for each combination of path, upstream and status that occurred, in ascending order
  of the keys; a Prometheus reader gets back from the line exactly the path (whatever bytes
  it has), the upstream and the status, and as the value the number of such requests modulo
  \<open>2 ^ 64\<close>; the registry holds the sum of their durations.
\<close>

theorem metrics_count_requests:
  assumes "\<forall>r \<in> set rs. in_int (mk_status (fst r))"
  shows "\<exists>entries rest.
    read_lines ''tgw_gateway_requests_total'' (card (fst ` set rs))
      (drop (length total_header) (RenderPrometheus (record_all rs om_empty))) = Some (entries, rest) \<and>
    sorted_wrt (<) (map fst entries) \<and> set (map fst entries) = fst ` set rs \<and>
    (\<forall>(key, n) \<in> set entries. n = length (filter (\<lambda>r. fst r = key) rs) mod 2 ^ 64) \<and>
    (\<forall>key. mv_duration_ms_sum (metric (record_all rs om_empty) key) =
       sum_list (map snd (filter (\<lambda>r. fst r = key) rs)))"
proof -
  let ?m = "record_all rs om_empty"
  let ?es = "map (\<lambda>(key, v). (key, unat (mv_count v))) ?m"
  have fst_es: "map fst ?es = map fst ?m" by (induction ?m) auto
  have "length ?m = card (set (map fst ?m))"
    using om_wf_distinct [OF record_all_wf] by (metis distinct_card length_map)
  then have len: "length ?m = card (fst ` set rs)" by (simp only: record_all_keys)
  have "\<forall>e \<in> set ?m. in_int (mk_status (fst e))"
    using assms record_all_keys [of rs] by (metis (no_types, lifting) image_iff list.set_map)
  from read_lines_metrics [OF this, of "''tgw_gateway_requests_total''" mv_count]
  obtain rest where "read_lines ''tgw_gateway_requests_total'' (card (fst ` set rs))
      (drop (length total_header) (RenderPrometheus ?m)) = Some (?es, rest)"
    unfolding len by (simp add: RenderPrometheus_def total_header_def)
  moreover have "sorted_wrt (<) (map fst ?es)" using record_all_wf fst_es by (simp only: om_wf_def)
  moreover have "set (map fst ?es) = fst ` set rs" by (simp only: fst_es record_all_keys)
  moreover have "\<forall>(key, n) \<in> set ?es. n = length (filter (\<lambda>r. fst r = key) rs) mod 2 ^ 64"
  proof clarify
    fix key n
    assume "(key, n) \<in> set ?es"
    then obtain v where v: "(key, v) \<in> set ?m" "n = unat (mv_count v)" by auto
    then have "metric ?m key = v" using om_get_iff [OF record_all_wf, of rs key v] by (simp add: metric_def)
    then show "n = length (filter (\<lambda>r. fst r = key) rs) mod 2 ^ 64"
      using record_all_counts [of rs key] v(2) by (simp add: unat_of_nat)
  qed
  ultimately show ?thesis using record_all_counts by blast
qed

definition demo_requests :: "recorded list" where
  "demo_requests = [(RequestMetricKey ''/a'' ''none'' 404, 3), (RequestMetricKey ''/b'' ''u'' 200, 5),
     (RequestMetricKey ''/a'' ''none'' 404, 4)]"

theorem metrics_count_requests_witness:
  "mv_duration_ms_sum (metric (record_all demo_requests om_empty) (RequestMetricKey ''/a'' ''none'' 404)) = 7"
proof -
  have "\<forall>r \<in> set demo_requests. in_int (mk_status (fst r))"
    by (simp add: demo_requests_def in_int_def INT_MIN_def INT_MAX_def)
  then have "mv_duration_ms_sum (metric (record_all demo_requests om_empty) (RequestMetricKey ''/a'' ''none'' 404)) =
      sum_list (map snd (filter (\<lambda>r. fst r = RequestMetricKey ''/a'' ''none'' 404) demo_requests))"
    using metrics_count_requests [of demo_requests] by blast
  then show ?thesis by (simp add: demo_requests_def)
qed

end
