(* ===== verification/JsonShape.thy ===== *)
theory JsonShape
  imports Http
begin

text \<open>
  The shape of the JSON texts that several components write piece by piece: lists separated
  by commas, and a scanner that follows strings, braces and brackets, to show that a text is
  one closed object.
\<close>

fun comma_sep :: "string list \<Rightarrow> string" where
  "comma_sep [] = []"
| "comma_sep [x] = x"
| "comma_sep (x # y # xs) = x @ '','' @ comma_sep (y # xs)"

section \<open>Scanning\<close>

datatype json_mode = Plain | InStr | Esc

definition json_step :: "json_mode \<Rightarrow> char \<Rightarrow> json_mode" where
  "json_step m c =
     (case m of
        Plain \<Rightarrow> if c = QUOTE then InStr else Plain
      | InStr \<Rightarrow> if c = QUOTE then Plain else if c = BACKSLASH then Esc else InStr
      | Esc \<Rightarrow> InStr)"

definition json_depth :: "json_mode \<Rightarrow> char \<Rightarrow> int" where
  "json_depth m c =
     (if m \<noteq> Plain then 0
      else if c = CHR ''{'' \<or> c = CHR ''['' then 1
      else if c = CHR ''}'' \<or> c = CHR '']'' then - 1
      else 0)"

text \<open>Reading on is possible only while the outermost object is open.\<close>

fun json_run :: "string \<Rightarrow> json_mode \<Rightarrow> int \<Rightarrow> (json_mode \<times> int) option" where
  "json_run [] m d = Some (m, d)"
| "json_run (c # s) m d = (if d \<le> 0 then None else json_run s (json_step m c) (d + json_depth m c))"

definition closed_object :: "string \<Rightarrow> bool" where
  "closed_object s \<longleftrightarrow> s \<noteq> [] \<and> hd s = CHR ''{'' \<and> json_run (tl s) Plain 1 = Some (Plain, 0)"

lemma json_run_append:
  "json_run (s @ t) m d = (case json_run s m d of None \<Rightarrow> None | Some (m', d') \<Rightarrow> json_run t m' d')"
  by (induction s arbitrary: m d) auto

text \<open>An object ends with its last brace; nothing but blanks may follow in a JSON text.\<close>

lemma closed_object_end:
  assumes "closed_object s"
  shows "json_run (tl s @ c # t) Plain 1 = None"
  using assms by (simp add: closed_object_def json_run_append)

text \<open>
  A fragment that is copied into a text at some depth: \<open>inside\<close> strings for escaped text,
  and between members for a fragment that leaves the depth as it is.
\<close>

definition in_string :: "string \<Rightarrow> bool" where
  "in_string s \<longleftrightarrow> (\<forall>d > 0. json_run s InStr d = Some (InStr, d))"

definition fragment :: "string \<Rightarrow> bool" where
  "fragment s \<longleftrightarrow> (\<forall>d > 0. json_run s Plain d = Some (Plain, d))"

lemma in_string_run: "in_string s \<Longrightarrow> 0 < d \<Longrightarrow> json_run (s @ t) InStr d = json_run t InStr d"
  by (simp add: in_string_def json_run_append)

lemma fragment_run: "fragment s \<Longrightarrow> 0 < d \<Longrightarrow> json_run (s @ t) Plain d = json_run t Plain d"
  by (simp add: fragment_def json_run_append)

lemma in_string_JsonEscape [simp]: "in_string (JsonEscape s)"
proof -
  have "json_run (JsonEscape s) InStr d = Some (InStr, d)" if "0 < d" for d
    using that
    by (induction s) (auto simp: json_run_append json_escape_char_def json_step_def json_depth_def)
  then show ?thesis by (simp add: in_string_def)
qed

lemma fragment_Nil [simp]: "fragment []"
  by (simp add: fragment_def)

lemma fragment_append [simp]: "fragment s \<Longrightarrow> fragment t \<Longrightarrow> fragment (s @ t)"
  by (simp add: fragment_def json_run_append)

text \<open>Text without quotes, braces and brackets.\<close>

definition plain_text :: "string \<Rightarrow> bool" where
  "plain_text s \<longleftrightarrow> list_all (\<lambda>c. c \<notin> {QUOTE, CHR ''{'', CHR ''['', CHR ''}'', CHR '']''}) s"

lemma fragment_plain: "plain_text s \<Longrightarrow> fragment s"
proof -
  assume "plain_text s"
  then have "json_run s Plain d = Some (Plain, d)" if "0 < d" for d
    using that by (induction s) (auto simp: plain_text_def json_step_def json_depth_def)
  then show ?thesis by (simp add: fragment_def)
qed

lemma fragment_show_int [simp]: "fragment (show_int i)"
proof -
  have "plain_text (show_int i)"
    using show_int_chars [of i] by (auto simp: plain_text_def list_all_iff isdigit_def)
  then show ?thesis by (rule fragment_plain)
qed

lemma fragment_show_nat [simp]: "fragment (show_nat n)"
  using fragment_show_int [of "int n"] by (simp add: show_int_def)

lemma fragment_comma [simp]: "fragment '',''"
  by (rule fragment_plain) (simp add: plain_text_def)

lemma fragment_quoted [simp]: "in_string s \<Longrightarrow> fragment (quoted s)"
  by (simp add: fragment_def quoted_def json_run_append in_string_def json_step_def json_depth_def)

lemma in_string_literal: "list_all (\<lambda>c. c \<noteq> QUOTE \<and> c \<noteq> BACKSLASH) s \<Longrightarrow> in_string s"
proof -
  assume "list_all (\<lambda>c. c \<noteq> QUOTE \<and> c \<noteq> BACKSLASH) s"
  then have "json_run s InStr d = Some (InStr, d)" if "0 < d" for d
    using that by (induction s) (auto simp: json_step_def json_depth_def)
  then show ?thesis by (simp add: in_string_def)
qed

lemma fragment_json_key [simp]: "list_all (\<lambda>c. c \<noteq> QUOTE \<and> c \<noteq> BACKSLASH) k \<Longrightarrow> fragment (json_key k)"
  using fragment_quoted [OF in_string_literal, of k] fragment_plain [of "'':''"]
  by (simp add: json_key_def plain_text_def)

definition braces :: "string \<Rightarrow> string" where
  "braces s = ''{'' @ s @ ''}''"

definition brackets :: "string \<Rightarrow> string" where
  "brackets s = ''['' @ s @ '']''"

lemma fragment_braces [simp]: "fragment s \<Longrightarrow> fragment (braces s)" "fragment s \<Longrightarrow> fragment (brackets s)"
  by (simp_all add: fragment_def braces_def brackets_def json_run_append json_step_def json_depth_def)

lemma fragment_Cons [simp]:
  "c \<notin> {QUOTE, CHR ''{'', CHR ''['', CHR ''}'', CHR '']''} \<Longrightarrow> fragment s \<Longrightarrow> fragment (c # s)"
  using fragment_append [OF fragment_plain, of "[c]" s] by (simp add: plain_text_def)

lemma fragment_comma_sep [simp]: "(\<forall>x \<in> set xs. fragment x) \<Longrightarrow> fragment (comma_sep xs)"
proof (induction xs rule: comma_sep.induct)
  case (3 x y xs)
  then show ?case
    using fragment_append [of x "'','' @ comma_sep (y # xs)"] fragment_append [of "'',''" "comma_sep (y # xs)"] by simp
qed simp_all

lemma closed_object_braces: "fragment s \<Longrightarrow> closed_object (braces s)"
  by (simp add: braces_def closed_object_def fragment_def json_run_append json_step_def json_depth_def)

lemma fragment_closed: "closed_object s \<Longrightarrow> fragment s"
proof -
  have shift: "json_run t m d = Some (m', d') \<Longrightarrow> 0 \<le> k \<Longrightarrow> json_run t m (d + k) = Some (m', d' + k)" for t m d m' d' k
  proof (induction t arbitrary: m d)
    case (Cons a t)
    then show ?case
      using Cons.IH [of "json_step m a" "d + json_depth m a"] by (simp add: add_ac split: if_splits)
  qed simp
  assume s: "closed_object s"
  then obtain t where t: "s = CHR ''{'' # t" "json_run t Plain 1 = Some (Plain, 0)"
    by (cases s) (auto simp: closed_object_def)
  have "json_run t Plain (1 + d) = Some (Plain, d)" if "0 < d" for d
    using shift [OF t(2), of d] that by simp
  then show ?thesis by (simp add: fragment_def t(1) json_step_def json_depth_def algebra_simps)
qed

text \<open>The envelope of every answer is closed when its data is.\<close>

lemma closed_ToJson: "fragment (api_data_raw_json r) \<Longrightarrow> closed_object (ToJson r)"
proof -
  assume d: "fragment (api_data_raw_json r)"
  let ?body = "json_key ''code'' @ show_int (api_code r) @ '','' @
     json_key ''message'' @ quoted (JsonEscape (api_message r)) @ '','' @ json_key ''data'' @ api_data_raw_json r"
  have "fragment ?body" using d by (intro fragment_append) simp_all
  from closed_object_braces [OF this] show ?thesis by (simp add: ToJson_def braces_def)
qed

end
