(* ===== verification/Deadline.thy ===== *)
theory Deadline
  imports Http RouteRules
begin

text \<open>
  The per-request deadline (\<^verbatim>\<open>include/tgw/common/deadline.h\<close>), the context that is
  handed to an upstream client (\<^verbatim>\<open>include/tgw/gateway/forward_context.h\<close>) and the
  one of an RPC call (\<^verbatim>\<open>include/tgw/rpc/rpc_context.h\<close>). Times are nanoseconds of
  the steady clock. The deadline object is shared by pointer; the operations that cancel it
  return the updated context.
\<close>

section \<open>Definitions\<close>

subsection \<open>Deadlines\<close>

record DeadlineContext =
  dl_start :: int
  dl_deadline :: int
  dl_cancelled :: bool
  dl_cancel_reason :: string

definition DeadlineContext_Start :: "int \<Rightarrow> World \<Rightarrow> DeadlineContext \<times> World" where
  "DeadlineContext_Start timeout_ms w =
     (let t = (if timeout_ms \<le> 0 then 1 else timeout_ms) in
      case steady_now w of (now, w') \<Rightarrow>
        (\<lparr>dl_start = now, dl_deadline = now + t * 1000000, dl_cancelled = False,
          dl_cancel_reason = []\<rparr>, w'))"

definition IsExpired :: "DeadlineContext \<Rightarrow> World \<Rightarrow> bool \<times> World" where
  "IsExpired d w = (case steady_now w of (now, w') \<Rightarrow> (now \<ge> dl_deadline d, w'))"

definition IsCancelled :: "DeadlineContext \<Rightarrow> bool" where
  "IsCancelled d = dl_cancelled d"

definition IsDone :: "DeadlineContext \<Rightarrow> World \<Rightarrow> bool \<times> World" where
  "IsDone d w = (if IsCancelled d then (True, w) else IsExpired d w)"

definition Cancel :: "string \<Rightarrow> DeadlineContext \<Rightarrow> DeadlineContext" where
  "Cancel reason d =
     (if dl_cancelled d then d
      else d\<lparr>dl_cancelled := True,
             dl_cancel_reason := (if reason = [] then ''cancelled'' else reason)\<rparr>)"

definition Reason :: "DeadlineContext \<Rightarrow> World \<Rightarrow> string \<times> World" where
  "Reason d w =
     (case IsExpired d w of (expired, w') \<Rightarrow>
        (if expired then ''deadline exceeded'' else dl_cancel_reason d, w'))"

definition ElapsedMs :: "DeadlineContext \<Rightarrow> World \<Rightarrow> int \<times> World" where
  "ElapsedMs d w = (case steady_now w of (now, w') \<Rightarrow> (ns_to_ms (now - dl_start d), w'))"

definition RemainingMs :: "DeadlineContext \<Rightarrow> World \<Rightarrow> int \<times> World" where
  "RemainingMs d w =
     (case steady_now w of (now, w') \<Rightarrow>
        (if now \<ge> dl_deadline d then 0 else ns_to_ms (dl_deadline d - now), w'))"

subsection \<open>The forward context\<close>

record ForwardContext =
  fc_request_id :: string
  fc_upstream :: string
  fc_upstream_path :: string
  fc_method :: string
  fc_query :: string
  fc_body :: string
  fc_timeout_ms :: int
  fc_deadline :: "DeadlineContext option"
  fc_headers :: headers

definition copy_header :: "HttpRequest \<Rightarrow> string \<Rightarrow> headers \<Rightarrow> headers" where
  "copy_header request key hs =
     (case om_get (req_headers request) key of None \<Rightarrow> hs | Some v \<Rightarrow> om_put key v hs)"

definition forwarded_headers :: "string list" where
  "forwarded_headers =
     [''Authorization'', ''X-Request-Id'', ''X-Trace-Id'', ''X-Span-Id'', ''X-Parent-Span-Id'',
      ''X-Username'', ''X-User-Id'', ''X-Role'', ''Content-Type'', ''traceparent'',
      ''X-Debug-Sleep-Ms'', ''X-Debug-Force-Status'']"

definition ForwardContext_Build ::
  "HttpRequest \<Rightarrow> RouteMatchResult \<Rightarrow> World \<Rightarrow> ForwardContext \<times> World" where
  "ForwardContext_Build request match w =
     (case DeadlineContext_Start (rc_timeout_ms (rmr_route match)) w of (deadline, w') \<Rightarrow>
        (\<lparr>fc_request_id = req_request_id request,
          fc_upstream = rc_upstream (rmr_route match),
          fc_upstream_path = rmr_upstream_path match,
          fc_method = req_method request,
          fc_query = req_query request,
          fc_body = req_body request,
          fc_timeout_ms = rc_timeout_ms (rmr_route match),
          fc_deadline = Some deadline,
          fc_headers = om_put ''X-Request-Id'' (req_request_id request)
                         (fold (copy_header request) forwarded_headers [])\<rparr>, w'))"

definition DeadlineExceeded :: "ForwardContext \<Rightarrow> World \<Rightarrow> bool \<times> World" where
  "DeadlineExceeded ctx w = (case fc_deadline ctx of None \<Rightarrow> (False, w) | Some d \<Rightarrow> IsDone d w)"

definition CancelDeadline :: "string \<Rightarrow> ForwardContext \<Rightarrow> ForwardContext" where
  "CancelDeadline reason ctx = ctx\<lparr>fc_deadline := map_option (Cancel reason) (fc_deadline ctx)\<rparr>"

definition DeadlineElapsedMs :: "ForwardContext \<Rightarrow> World \<Rightarrow> int \<times> World" where
  "DeadlineElapsedMs ctx w = (case fc_deadline ctx of None \<Rightarrow> (0, w) | Some d \<Rightarrow> ElapsedMs d w)"

definition DeadlineReason :: "ForwardContext \<Rightarrow> World \<Rightarrow> string \<times> World" where
  "DeadlineReason ctx w = (case fc_deadline ctx of None \<Rightarrow> ([], w) | Some d \<Rightarrow> Reason d w)"

subsection \<open>The RPC context\<close>

record RpcContext =
  rpc_request_id :: string
  rpc_trace_id :: string
  rpc_caller :: string
  rpc_user_id :: string
  rpc_timeout_ms :: int
  rpc_deadline :: "DeadlineContext option"
  rpc_headers :: headers
  rpc_start_time :: int

definition RpcContext_default :: "World \<Rightarrow> RpcContext \<times> World" where
  "RpcContext_default w =
     (case steady_now w of (now, w') \<Rightarrow>
        (\<lparr>rpc_request_id = [], rpc_trace_id = [], rpc_caller = [], rpc_user_id = [],
          rpc_timeout_ms = 1000, rpc_deadline = None, rpc_headers = [], rpc_start_time = now\<rparr>, w'))"

definition rpc_ElapsedMs :: "RpcContext \<Rightarrow> World \<Rightarrow> int \<times> World" where
  "rpc_ElapsedMs ctx w = (case steady_now w of (now, w') \<Rightarrow> (ns_to_ms (now - rpc_start_time ctx), w'))"

definition rpc_DeadlineExceeded :: "RpcContext \<Rightarrow> World \<Rightarrow> bool \<times> World" where
  "rpc_DeadlineExceeded ctx w = (case rpc_deadline ctx of None \<Rightarrow> (False, w) | Some d \<Rightarrow> IsDone d w)"

definition rpc_CancelDeadline :: "string \<Rightarrow> RpcContext \<Rightarrow> RpcContext" where
  "rpc_CancelDeadline reason ctx = ctx\<lparr>rpc_deadline := map_option (Cancel reason) (rpc_deadline ctx)\<rparr>"

definition rpc_DeadlineReason :: "RpcContext \<Rightarrow> World \<Rightarrow> string \<times> World" where
  "rpc_DeadlineReason ctx w = (case rpc_deadline ctx of None \<Rightarrow> ([], w) | Some d \<Rightarrow> Reason d w)"

subsection \<open>Upstream clients\<close>

text \<open>
  \<^verbatim>\<open>IUpstreamClient::Forward\<close> (\<^verbatim>\<open>include/tgw/gateway/upstream_client.h\<close>): a
  client with state \<^typ>\<open>'s\<close> answers a context, may cancel its deadline, reads the clocks
  and changes its state.
\<close>

type_synonym 's upstream =
  "ForwardContext \<Rightarrow> World \<Rightarrow> 's \<Rightarrow> HttpResponse \<times> ForwardContext \<times> World \<times> 's"

section \<open>Reading the clock\<close>

text \<open>
  \<open>later w w'\<close>: the same clocks, read no less often. Every operation takes the world to
  a later one.
\<close>

definition later :: "World \<Rightarrow> World \<Rightarrow> bool" where
  "later w w' \<longleftrightarrow> steady_ns w' = steady_ns w \<and> system_ns w' = system_ns w \<and>
     steady_reads w \<le> steady_reads w' \<and> system_reads w \<le> system_reads w'"

named_theorems later_intros "operations only read the clocks"

lemma later_refl [simp, later_intros]: "later w w"
  by (simp add: later_def)

lemma later_trans: "later w w' \<Longrightarrow> later w' w'' \<Longrightarrow> later w w''"
  by (auto simp: later_def)

lemma later_steady_now [later_intros]: "steady_now w = (t, w') \<Longrightarrow> later w w'"
  by (auto simp: later_def steady_now_def)

lemma later_system_now [later_intros]: "system_now w = (t, w') \<Longrightarrow> later w w'"
  by (auto simp: later_def system_now_def)

lemma later_mono: "later w w' \<Longrightarrow> steady_mono w' = steady_mono w"
  by (simp add: later_def steady_mono_def)

lemma later_reading:
  "later w w' \<Longrightarrow> steady_mono w \<Longrightarrow> steady_ns w (steady_reads w) \<le> steady_ns w' (steady_reads w')"
  by (auto simp: later_def steady_mono_def mono_def)

lemma later_deadline [later_intros]:
  "IsExpired d w = (b, w') \<Longrightarrow> later w w'"
  "IsDone d w = (b, w') \<Longrightarrow> later w w'"
  "ElapsedMs d w = (i, w') \<Longrightarrow> later w w'"
  "RemainingMs d w = (i, w') \<Longrightarrow> later w w'"
  "Reason d w = (s, w') \<Longrightarrow> later w w'"
  "DeadlineContext_Start t w = (d', w') \<Longrightarrow> later w w'"
  by (auto simp: IsExpired_def IsDone_def ElapsedMs_def RemainingMs_def Reason_def
      DeadlineContext_Start_def Let_def intro: later_steady_now split: prod.splits if_splits)

lemma later_context [later_intros]:
  "DeadlineExceeded ctx w = (b, w') \<Longrightarrow> later w w'"
  "DeadlineElapsedMs ctx w = (i, w') \<Longrightarrow> later w w'"
  "DeadlineReason ctx w = (s, w') \<Longrightarrow> later w w'"
  "rpc_DeadlineExceeded rctx w = (b, w') \<Longrightarrow> later w w'"
  "rpc_DeadlineReason rctx w = (s, w') \<Longrightarrow> later w w'"
  by (auto simp: DeadlineExceeded_def DeadlineElapsedMs_def DeadlineReason_def
      rpc_DeadlineExceeded_def rpc_DeadlineReason_def intro: later_deadline split: option.splits)

section \<open>Cancelling\<close>

text \<open>
  \<open>dl_extends d d'\<close>: the times are the same, a cancelled deadline stays as it is, and an
  active one may have been cancelled.
\<close>

definition dl_extends :: "DeadlineContext \<Rightarrow> DeadlineContext \<Rightarrow> bool" where
  "dl_extends d d' \<longleftrightarrow> dl_start d' = dl_start d \<and> dl_deadline d' = dl_deadline d \<and>
     (dl_cancelled d \<longrightarrow> d' = d) \<and> (\<not> dl_cancelled d' \<longrightarrow> d' = d)"

definition ctx_extends :: "ForwardContext \<Rightarrow> ForwardContext \<Rightarrow> bool" where
  "ctx_extends ctx ctx' \<longleftrightarrow>
     ctx' = ctx\<lparr>fc_deadline := fc_deadline ctx'\<rparr> \<and>
     rel_option dl_extends (fc_deadline ctx) (fc_deadline ctx')"

lemma dl_extends_refl [simp]: "dl_extends d d"
  by (simp add: dl_extends_def)

lemma dl_extends_trans: "dl_extends d d' \<Longrightarrow> dl_extends d' d'' \<Longrightarrow> dl_extends d d''"
  unfolding dl_extends_def by metis

lemma dl_extends_Cancel [simp]: "dl_extends d (Cancel r d)"
  by (simp add: dl_extends_def Cancel_def)

lemma Cancel_done [simp]: "IsDone (Cancel r d) w = (True, w)"
  by (simp add: IsDone_def IsCancelled_def Cancel_def)

text \<open>The reason of the first cancellation is kept.\<close>

lemma Cancel_idem: "Cancel r (Cancel r' d) = Cancel r' d"
  by (simp add: Cancel_def)

lemma ctx_extends_refl [simp]: "ctx_extends ctx ctx"
  by (simp add: ctx_extends_def option.rel_refl)

lemma rel_dl_trans:
  "rel_option dl_extends a b \<Longrightarrow> rel_option dl_extends b c \<Longrightarrow> rel_option dl_extends a c"
  by (cases a; cases b; cases c) (auto intro: dl_extends_trans)

lemma ctx_extends_trans:
  assumes "ctx_extends a b" "ctx_extends b c"
  shows "ctx_extends a c"
proof -
  have "c = b\<lparr>fc_deadline := fc_deadline c\<rparr>" "b = a\<lparr>fc_deadline := fc_deadline b\<rparr>"
    using assms by (simp_all add: ctx_extends_def)
  then have "c = a\<lparr>fc_deadline := fc_deadline c\<rparr>" by (cases a; cases b; cases c) simp
  with assms show ?thesis by (auto simp: ctx_extends_def intro: rel_dl_trans)
qed

lemma ctx_extends_Cancel [simp]: "ctx_extends ctx (CancelDeadline r ctx)"
  by (auto simp: ctx_extends_def CancelDeadline_def option.rel_map intro: option.rel_refl_strong)

lemma ctx_extends_fields:
  assumes "ctx_extends ctx ctx'"
  shows "fc_request_id ctx' = fc_request_id ctx" "fc_upstream ctx' = fc_upstream ctx"
    "fc_upstream_path ctx' = fc_upstream_path ctx" "fc_method ctx' = fc_method ctx"
    "fc_query ctx' = fc_query ctx" "fc_body ctx' = fc_body ctx"
    "fc_timeout_ms ctx' = fc_timeout_ms ctx" "fc_headers ctx' = fc_headers ctx"
  using assms unfolding ctx_extends_def by (cases ctx; cases ctx'; simp)+

lemma CancelDeadline_fields [simp]:
  "fc_request_id (CancelDeadline r ctx) = fc_request_id ctx"
  "fc_upstream (CancelDeadline r ctx) = fc_upstream ctx"
  "fc_upstream_path (CancelDeadline r ctx) = fc_upstream_path ctx"
  "fc_method (CancelDeadline r ctx) = fc_method ctx"
  "fc_query (CancelDeadline r ctx) = fc_query ctx"
  "fc_body (CancelDeadline r ctx) = fc_body ctx"
  "fc_timeout_ms (CancelDeadline r ctx) = fc_timeout_ms ctx"
  "fc_headers (CancelDeadline r ctx) = fc_headers ctx"
  by (simp_all add: CancelDeadline_def)

section \<open>The contract of an upstream client\<close>

text \<open>
  Every client answers under the request's id, only ever cancels the deadline of the context
  it was given, and only reads the clocks.
\<close>

locale upstream_client =
  fixes forward :: "'s upstream"
  assumes answers_id: "forward ctx w s = (rsp, ctx', w', s') \<Longrightarrow>
            header rsp ''X-Request-Id'' = Some (fc_request_id ctx)"
    and keeps_context: "forward ctx w s = (rsp, ctx', w', s') \<Longrightarrow> ctx_extends ctx ctx'"
    and only_reads: "forward ctx w s = (rsp, ctx', w', s') \<Longrightarrow> later w w'"
begin

lemma keeps_fields:
  assumes "forward ctx w s = (rsp, ctx', w', s')"
  shows "fc_request_id ctx' = fc_request_id ctx" "fc_upstream ctx' = fc_upstream ctx"
    "fc_method ctx' = fc_method ctx" "fc_timeout_ms ctx' = fc_timeout_ms ctx"
    "fc_headers ctx' = fc_headers ctx"
  using ctx_extends_fields [OF keeps_context [OF assms]] by auto

text \<open>A deadline that has been cancelled before the call is still cancelled after it.\<close>

lemma stays_cancelled:
  assumes "forward ctx w s = (rsp, ctx', w', s')" "fc_deadline ctx = Some d" "dl_cancelled d"
  shows "fc_deadline ctx' = Some d"
  using keeps_context [OF assms(1)] assms(2,3)
  by (auto simp: ctx_extends_def dl_extends_def option_rel_Some1)

end

section \<open>Properties\<close>

lemma DeadlineExceeded_reads:
  "fc_deadline ctx = Some d \<Longrightarrow>
   fst (DeadlineExceeded ctx w) \<longleftrightarrow> dl_cancelled d \<or> dl_deadline d \<le> steady_ns w (steady_reads w)"
  by (simp add: DeadlineExceeded_def IsDone_def IsCancelled_def IsExpired_def steady_now_def)

lemma exceeded_stays:
  assumes "later w w'" "steady_mono w" "fst (IsDone d w)" "dl_extends d d'"
  shows "fst (IsDone d' w')"
proof -
  have "dl_cancelled d \<or> dl_deadline d \<le> steady_ns w' (steady_reads w')"
    using assms(3) later_reading [OF assms(1,2)]
    by (auto simp: IsDone_def IsCancelled_def IsExpired_def steady_now_def split: if_splits)
  moreover have "dl_deadline d' = dl_deadline d" "dl_cancelled d \<Longrightarrow> dl_cancelled d'"
    using assms(4) by (simp_all add: dl_extends_def)
  ultimately show ?thesis
    by (auto simp: IsDone_def IsCancelled_def IsExpired_def steady_now_def)
qed

end
