(* ===== verification/Tracing.thy ===== *)
theory Tracing
  imports Config JsonShape Deadline "HOL-Library.Word"
begin

text \<open>
  The tracer of \<^verbatim>\<open>src/observability/tracing.cc\<close>: spans and their ids, the bounded
  list of finished spans, the debug page and the OTLP export. The pseudo random numbers of
  \<^verbatim>\<open>std::mt19937_64\<close> and \<^verbatim>\<open>std::uniform_real_distribution\<close> are
  two arbitrary sequences of which the tracer takes one value after the other. The exporter
  runs in a thread of its own; the model records the spans it is started with. A moved-from
  \<^verbatim>\<open>FinishedSpan\<close> holds valid but unspecified strings: that is the argument
  \<open>moved_from\<close>.
\<close>

unbundle bit_operations_syntax

section \<open>Spans\<close>

record TraceSpan =
  sp_trace_id :: string
  sp_span_id :: string
  sp_parent_span_id :: string
  sp_name :: string
  sp_sampled :: bool
  sp_started_at :: int
  sp_start_unix_ms :: "64 word"

definition TraceSpan_default :: TraceSpan where
  "TraceSpan_default =
     \<lparr>sp_trace_id = [], sp_span_id = [], sp_parent_span_id = [], sp_name = [], sp_sampled = True,
      sp_started_at = 0, sp_start_unix_ms = 0\<rparr>"

record FinishedSpan =
  fs_trace_id :: string
  fs_span_id :: string
  fs_parent_span_id :: string
  fs_name :: string
  fs_service_name :: string
  fs_kind :: string
  fs_path :: string
  fs_upstream :: string
  fs_status :: int
  fs_start_unix_ms :: "64 word"
  fs_duration_ms :: "64 word"
  fs_attributes :: headers

record Tracer =
  trc_config :: TracingConfig
  trc_finished :: "FinishedSpan list"
  trc_id_counter :: "64 word"
  trc_exported :: "FinishedSpan list"
  trc_words :: "nat \<Rightarrow> 64 word"
  trc_words_read :: nat
  trc_coins :: "nat \<Rightarrow> rat"
  trc_coins_read :: nat

definition Enabled :: "Tracer \<Rightarrow> bool" where
  "Enabled tr = tr_enabled (trc_config tr)"

definition ExposeDebugHeaders :: "Tracer \<Rightarrow> bool" where
  "ExposeDebugHeaders tr = tr_expose_debug_headers (trc_config tr)"

section \<open>Identifiers\<close>

definition kHex :: string where
  "kHex = ''0123456789abcdef''"

text \<open>The inner loop of \<^verbatim>\<open>HexRandom\<close>: at most 16 digits of one value, lowest first.\<close>

primrec hex_nibbles :: "nat \<Rightarrow> 64 word \<Rightarrow> string" where
  "hex_nibbles 0 v = []"
| "hex_nibbles (Suc n) v = kHex ! unat (v AND 0xF) # hex_nibbles n (drop_bit 4 v)"

function HexRandom :: "nat \<Rightarrow> Tracer \<Rightarrow> string \<times> Tracer" where
  "HexRandom n tr =
     (if n = 0 then ([], tr)
      else let v = trc_words tr (trc_words_read tr);
               tr' = tr\<lparr>trc_words_read := Suc (trc_words_read tr)\<rparr>
           in case HexRandom (n - 16) tr' of (s, tr'') \<Rightarrow> (hex_nibbles (min n 16) v @ s, tr''))"
  by pat_completeness auto
termination by (relation "measure fst") auto

declare HexRandom.simps [simp del]

text \<open>\<^verbatim>\<open>std::hex\<close> output, filled with zeros to a width of eight.\<close>

fun show_hex :: "nat \<Rightarrow> string" where
  "show_hex n = (if n < 16 then [kHex ! n] else show_hex (n div 16) @ [kHex ! (n mod 16)])"

declare show_hex.simps [simp del]

definition setw0 :: "nat \<Rightarrow> string \<Rightarrow> string" where
  "setw0 w s = replicate (w - length s) (CHR ''0'') @ s"

definition pad_id :: "nat \<Rightarrow> string \<Rightarrow> string" where
  "pad_id n result =
     (let r = (if length result < n then result @ replicate (n - length result) (CHR ''0'') else result)
      in if length r > n then take n r else r)"

definition generate_id :: "nat \<Rightarrow> nat \<Rightarrow> Tracer \<Rightarrow> string \<times> Tracer" where
  "generate_id digits n tr =
     (let tr1 = tr\<lparr>trc_id_counter := trc_id_counter tr + 1\<rparr> in
      case HexRandom digits tr1 of (s, tr2) \<Rightarrow>
        (pad_id n (s @ setw0 8 (show_hex (unat (trc_id_counter tr1 AND 0xffffffff)))), tr2))"

definition GenerateTraceId :: "Tracer \<Rightarrow> string \<times> Tracer" where
  "GenerateTraceId tr = generate_id 24 32 tr"

definition GenerateSpanId :: "Tracer \<Rightarrow> string \<times> Tracer" where
  "GenerateSpanId tr = generate_id 8 16 tr"

definition traceparent_ok :: "string \<Rightarrow> bool" where
  "traceparent_ok tp \<longleftrightarrow>
     55 \<le> length tp \<and> tp ! 2 = CHR ''-'' \<and> tp ! 35 = CHR ''-'' \<and> tp ! 52 = CHR ''-''"

definition ExtractTraceIdFromTraceParent :: "string \<Rightarrow> string" where
  "ExtractTraceIdFromTraceParent tp = (if \<not> traceparent_ok tp then [] else take 32 (drop 3 tp))"

definition ExtractSpanIdFromTraceParent :: "string \<Rightarrow> string" where
  "ExtractSpanIdFromTraceParent tp = (if \<not> traceparent_ok tp then [] else take 16 (drop 36 tp))"

text \<open>A header that is present and not empty.\<close>

definition nonempty_header :: "HttpRequest \<Rightarrow> string \<Rightarrow> string option" where
  "nonempty_header request key =
     (case om_get (req_headers request) key of Some v \<Rightarrow> if v \<noteq> [] then Some v else None | None \<Rightarrow> None)"

definition ExtractTraceIdFromRequest :: "Tracer \<Rightarrow> HttpRequest \<Rightarrow> string" where
  "ExtractTraceIdFromRequest tr request =
     (case nonempty_header request ''X-Trace-Id'' of
        Some v \<Rightarrow> v
      | None \<Rightarrow>
          if tr_accept_traceparent (trc_config tr)
          then (case om_get (req_headers request) ''traceparent'' of
                  Some tp \<Rightarrow> ExtractTraceIdFromTraceParent tp | None \<Rightarrow> [])
          else [])"

definition ExtractParentSpanIdFromRequest :: "Tracer \<Rightarrow> HttpRequest \<Rightarrow> string" where
  "ExtractParentSpanIdFromRequest tr request =
     (case nonempty_header request ''X-Span-Id'' of
        Some v \<Rightarrow> v
      | None \<Rightarrow>
     (case nonempty_header request ''X-Parent-Span-Id'' of
        Some v \<Rightarrow> v
      | None \<Rightarrow>
          if tr_accept_traceparent (trc_config tr)
          then (case om_get (req_headers request) ''traceparent'' of
                  Some tp \<Rightarrow> ExtractSpanIdFromTraceParent tp | None \<Rightarrow> [])
          else []))"

section \<open>Starting and finishing spans\<close>

definition NowUnixMs :: "World \<Rightarrow> 64 word \<times> World" where
  "NowUnixMs w = (case system_now w of (t, w') \<Rightarrow> (word_of_int (ns_to_ms t), w'))"

definition ShouldSample :: "Tracer \<Rightarrow> bool \<times> Tracer" where
  "ShouldSample tr =
     (if tr_sample_ratio (trc_config tr) \<ge> 1 then (True, tr)
      else if tr_sample_ratio (trc_config tr) \<le> 0 then (False, tr)
      else (trc_coins tr (trc_coins_read tr) \<le> tr_sample_ratio (trc_config tr),
            tr\<lparr>trc_coins_read := Suc (trc_coins_read tr)\<rparr>))"

definition StartServerSpan :: "HttpRequest \<Rightarrow> string \<Rightarrow> World \<Rightarrow> Tracer \<Rightarrow> TraceSpan \<times> World \<times> Tracer" where
  "StartServerSpan request name w tr =
     (case steady_now w of (now, w1) \<Rightarrow>
      case NowUnixMs w1 of (unix_ms, w2) \<Rightarrow>
      case (if Enabled tr then ShouldSample tr else (False, tr)) of (sampled, tr1) \<Rightarrow>
      let sp = TraceSpan_default\<lparr>sp_name := name, sp_started_at := now, sp_start_unix_ms := unix_ms,
                   sp_sampled := sampled\<rparr>
      in if \<not> sampled then (sp, w2, tr1)
         else let id0 = ExtractTraceIdFromRequest tr1 request in
           case (if id0 = [] then GenerateTraceId tr1 else (id0, tr1)) of (trace_id, tr2) \<Rightarrow>
           case GenerateSpanId tr2 of (span_id, tr3) \<Rightarrow>
             (sp\<lparr>sp_trace_id := trace_id, sp_parent_span_id := ExtractParentSpanIdFromRequest tr2 request,
                   sp_span_id := span_id\<rparr>, w2, tr3))"

definition StartClientSpan :: "TraceSpan \<Rightarrow> string \<Rightarrow> World \<Rightarrow> Tracer \<Rightarrow> TraceSpan \<times> World \<times> Tracer" where
  "StartClientSpan parent name w tr =
     (case steady_now w of (now, w1) \<Rightarrow>
      case NowUnixMs w1 of (unix_ms, w2) \<Rightarrow>
      let sp = TraceSpan_default\<lparr>sp_name := name, sp_started_at := now, sp_start_unix_ms := unix_ms,
                   sp_sampled := sp_sampled parent\<rparr>
      in if \<not> sp_sampled sp then (sp, w2, tr)
         else case GenerateSpanId tr of (span_id, tr1) \<Rightarrow>
           (sp\<lparr>sp_trace_id := sp_trace_id parent, sp_parent_span_id := sp_span_id parent, sp_span_id := span_id\<rparr>,
            w2, tr1))"

text \<open>The \<^verbatim>\<open>while\<close> loop that pops spans off the front.\<close>

function pop_front_while :: "nat \<Rightarrow> 'a list \<Rightarrow> 'a list" where
  "pop_front_while n xs = (if length xs > n then pop_front_while n (tl xs) else xs)"
  by pat_completeness auto
termination by (relation "measure (length \<circ> snd)") auto

declare pop_front_while.simps [simp del]

definition FinishSpan ::
  "(FinishedSpan \<Rightarrow> FinishedSpan) \<Rightarrow> TraceSpan \<Rightarrow> string \<Rightarrow> string \<Rightarrow> string \<Rightarrow> int \<Rightarrow> headers \<Rightarrow>
   World \<Rightarrow> Tracer \<Rightarrow> World \<times> Tracer" where
  "FinishSpan moved_from sp kind path upstream status attributes w tr =
     (if \<not> sp_sampled sp \<or> sp_trace_id sp = [] \<or> sp_span_id sp = [] then (w, tr)
      else case steady_now w of (now, w') \<Rightarrow>
        let finished = \<lparr>fs_trace_id = sp_trace_id sp, fs_span_id = sp_span_id sp,
              fs_parent_span_id = sp_parent_span_id sp, fs_name = sp_name sp,
              fs_service_name = tr_service_name (trc_config tr), fs_kind = kind, fs_path = path,
              fs_upstream = upstream, fs_status = status, fs_start_unix_ms = sp_start_unix_ms sp,
              fs_duration_ms = word_of_int (ns_to_ms (now - sp_started_at sp)), fs_attributes = attributes\<rparr>;
            tr1 = tr\<lparr>trc_finished :=
              pop_front_while (tr_max_finished_spans (trc_config tr)) (trc_finished tr @ [finished])\<rparr>;
            tr2 = (if tr_otlp_exporter_enabled (trc_config tr)
                   then tr1\<lparr>trc_exported := trc_exported tr1 @ [moved_from finished]\<rparr> else tr1)
        in (w', tr2))"

section \<open>The debug page\<close>

definition JsonKV :: "string \<Rightarrow> string \<Rightarrow> string" where
  "JsonKV key value = quoted (JsonEscape key) @ '':'' @ quoted (JsonEscape value)"

definition span_json :: "FinishedSpan \<Rightarrow> string" where
  "span_json sp =
     ''{'' @ JsonKV ''trace_id'' (fs_trace_id sp) @ '','' @ JsonKV ''span_id'' (fs_span_id sp) @ '','' @
     JsonKV ''parent_span_id'' (fs_parent_span_id sp) @ '','' @ JsonKV ''name'' (fs_name sp) @ '','' @
     JsonKV ''service_name'' (fs_service_name sp) @ '','' @ JsonKV ''kind'' (fs_kind sp) @ '','' @
     JsonKV ''path'' (fs_path sp) @ '','' @ JsonKV ''upstream'' (fs_upstream sp) @ '','' @
     json_key ''status'' @ show_int (fs_status sp) @ '','' @
     json_key ''start_unix_ms'' @ show_nat (unat (fs_start_unix_ms sp)) @ '','' @
     json_key ''duration_ms'' @ show_nat (unat (fs_duration_ms sp)) @ '','' @
     json_key ''attributes'' @ ''{'' @ comma_sep (map (\<lambda>(k, v). JsonKV k v) (fs_attributes sp)) @ ''}'' @ ''}''"

definition RenderRecentSpansJson :: "Tracer \<Rightarrow> string" where
  "RenderRecentSpansJson tr =
     ''{'' @ json_key ''count'' @ show_nat (length (trc_finished tr)) @ '','' @
     json_key ''spans'' @ ''['' @ comma_sep (map span_json (trc_finished tr)) @ '']'' @ ''}''"

definition BuildTraceDebugResponse :: "Tracer option \<Rightarrow> HttpResponse" where
  "BuildTraceDebugResponse tracer =
     HttpResponse_default\<lparr>rsp_status := 200, rsp_content_type := ''application/json'',
       rsp_body := (case tracer of
          None \<Rightarrow> ToJson (ApiResponse_Success (''{'' @ json_key ''count'' @ ''0,'' @ json_key ''spans'' @ ''[]}''))
        | Some tr \<Rightarrow> ToJson (ApiResponse_Success (RenderRecentSpansJson tr)))\<rparr>"

section \<open>The OTLP export\<close>

text \<open>An attribute with its string value, and the list \<^verbatim>\<open>append_attr\<close> builds.\<close>

definition otlp_attr :: "string \<times> string \<Rightarrow> string" where
  "otlp_attr kv =
     ''{'' @ json_key ''key'' @ quoted (JsonEscape (fst kv)) @ '','' @ json_key ''value'' @
     ''{'' @ json_key ''stringValue'' @ quoted (JsonEscape (snd kv)) @ ''}}''"

definition otlp_attributes :: "FinishedSpan \<Rightarrow> (string \<times> string) list" where
  "otlp_attributes sp =
     [(''http.route'', fs_path sp), (''upstream'', fs_upstream sp),
      (''http.status_code'', show_int (fs_status sp)),
      (''duration_ms'', show_nat (unat (fs_duration_ms sp)))] @ fs_attributes sp"

definition BuildOtlpJson :: "FinishedSpan \<Rightarrow> string" where
  "BuildOtlpJson sp =
     (let start_ns = fs_start_unix_ms sp * 1000000;
          end_ns = (fs_start_unix_ms sp + fs_duration_ms sp) * 1000000;
          kind = (if fs_kind sp = ''server'' then 2 else 3 :: int)
      in ''{'' @ json_key ''resourceSpans'' @ ''[{'' @ json_key ''resource'' @ ''{'' @ json_key ''attributes'' @ ''['' @
         otlp_attr (''service.name'', fs_service_name sp) @ '']},'' @
         json_key ''scopeSpans'' @ ''[{'' @ json_key ''scope'' @ ''{'' @ json_key ''name'' @
         quoted ''tgw-gateway-platform'' @ '','' @ json_key ''version'' @ quoted ''0.1.0'' @ ''},'' @
         json_key ''spans'' @ ''[{'' @
         json_key ''traceId'' @ quoted (JsonEscape (fs_trace_id sp)) @ '','' @
         json_key ''spanId'' @ quoted (JsonEscape (fs_span_id sp)) @ '','' @
         (if fs_parent_span_id sp \<noteq> []
          then json_key ''parentSpanId'' @ quoted (JsonEscape (fs_parent_span_id sp)) @ '','' else []) @
         json_key ''name'' @ quoted (JsonEscape (fs_name sp)) @ '','' @
         json_key ''kind'' @ show_int kind @ '','' @
         json_key ''startTimeUnixNano'' @ quoted (show_nat (unat start_ns)) @ '','' @
         json_key ''endTimeUnixNano'' @ quoted (show_nat (unat end_ns)) @ '','' @
         json_key ''attributes'' @ ''['' @ comma_sep (map otlp_attr (otlp_attributes sp)) @ ''],'' @
         json_key ''status'' @ ''{'' @ json_key ''code'' @ (if 500 \<le> fs_status sp then ''2'' else ''1'') @ ''}'' @
         ''}]}]}]}'' @ ''}'')"

text \<open>The bytes that \<^verbatim>\<open>PostOtlpJson\<close> writes to the collector's socket.\<close>

definition PostOtlpJson :: "TracingConfig \<Rightarrow> string \<Rightarrow> string" where
  "PostOtlpJson cfg payload =
     ''POST '' @ tr_otlp_path cfg @ '' HTTP/1.1'' @ [CR, LF] @
     ''Host: '' @ tr_otlp_host cfg @ '':'' @ show_nat (tr_otlp_http_port cfg) @ [CR, LF] @
     ''Content-Type: application/json'' @ [CR, LF] @
     ''Content-Length: '' @ show_nat (length payload) @ [CR, LF] @
     ''Connection: close'' @ [CR, LF] @ [CR, LF] @ payload"

section \<open>Lemmas on identifiers\<close>

lemma length_hex_nibbles [simp]: "length (hex_nibbles n v) = n"
  by (induction n arbitrary: v) auto

lemma length_kHex [simp]: "length kHex = 16"
  by (simp add: kHex_def)

lemma nibble_less: "unat ((v :: 64 word) AND 0xF) < 16"
proof -
  have "v AND 0xF \<le> 0xF" by (rule word_and_le1)
  then show ?thesis by (simp add: word_le_nat_alt)
qed

lemma hex_nibbles_digits: "set (hex_nibbles n v) \<subseteq> set kHex"
  by (induction n arbitrary: v) (auto simp: nibble_less)

lemma HexRandom_spec:
  "length (fst (HexRandom n tr)) = n \<and> set (fst (HexRandom n tr)) \<subseteq> set kHex \<and>
   trc_id_counter (snd (HexRandom n tr)) = trc_id_counter tr \<and>
   (\<exists>k. snd (HexRandom n tr) = tr\<lparr>trc_words_read := k\<rparr>)"
proof (induction n tr rule: HexRandom.induct)
  case (1 n tr)
  show ?case
  proof (cases "n = 0")
    case True
    then show ?thesis by (subst (1 2 3 4) HexRandom.simps) (auto intro: exI [of _ "trc_words_read tr"])
  next
    case False
    let ?tr = "tr\<lparr>trc_words_read := Suc (trc_words_read tr)\<rparr>"
    obtain s tr2 where h: "HexRandom (n - 16) ?tr = (s, tr2)" by fastforce
    have eq: "HexRandom n tr = (hex_nibbles (min n 16) (trc_words tr (trc_words_read tr)) @ s, tr2)"
      using False h by (subst HexRandom.simps) (simp add: Let_def)
    from 1 [OF False refl refl] h show ?thesis
      using False hex_nibbles_digits by (auto simp: eq)
  qed
qed

lemma show_hex_digits: "set (show_hex n) \<subseteq> set kHex"
proof (induction n rule: show_hex.induct)
  case (1 n)
  then show ?case by (subst show_hex.simps) auto
qed

lemma show_hex_length: "n < 16 ^ k \<Longrightarrow> 0 < k \<Longrightarrow> length (show_hex n) \<le> k"
proof (induction n arbitrary: k rule: show_hex.induct)
  case (1 n)
  show ?case
  proof (cases "n < 16")
    case True
    then show ?thesis using 1(3) by (subst show_hex.simps) simp
  next
    case False
    then obtain j where k: "k = Suc j" "0 < j" using 1(2) by (cases k; cases "k - 1") auto
    then have "n div 16 < 16 ^ j" using 1(2) by (simp add: less_mult_imp_div_less mult.commute)
    from 1(1) [OF False this k(2)] False k show ?thesis by (subst show_hex.simps) simp
  qed
qed

definition hex_char_val :: "char \<Rightarrow> nat" where
  "hex_char_val c = (if isdigit c then code c - 48 else code c - 87)"

definition hex_val :: "string \<Rightarrow> nat" where
  "hex_val s = foldl (\<lambda>a c. 16 * a + hex_char_val c) 0 s"

lemma hex_char_val_nth: "n < 16 \<Longrightarrow> hex_char_val (kHex ! n) = n"
proof -
  have "list_all (\<lambda>n. hex_char_val (kHex ! n) = n) [0..<16]" by code_simp
  then show "n < 16 \<Longrightarrow> hex_char_val (kHex ! n) = n" by (simp add: list_all_iff)
qed

lemma hex_val_show_hex: "hex_val (show_hex n) = n"
proof (induction n rule: show_hex.induct)
  case (1 n)
  show ?case
  proof (cases "n < 16")
    case True
    then show ?thesis by (subst show_hex.simps) (simp add: hex_val_def hex_char_val_nth)
  next
    case False
    have "hex_val (show_hex n) = 16 * hex_val (show_hex (n div 16)) + hex_char_val (kHex ! (n mod 16))"
      using False by (subst show_hex.simps) (simp add: hex_val_def)
    then show ?thesis using 1 [OF False] by (simp add: hex_char_val_nth)
  qed
qed

lemma hex_val_zeros: "hex_val (replicate k (CHR ''0'') @ s) = hex_val s"
  by (induction k) (simp_all add: hex_val_def hex_char_val_def isdigit_def)

text \<open>An id is so many random digits, followed by eight digits of the counter.\<close>

lemma generate_id_spec:
  assumes "n = digits + 8"
  shows "length (fst (generate_id digits n tr)) = n \<and> set (fst (generate_id digits n tr)) \<subseteq> set kHex \<and>
    hex_val (drop digits (fst (generate_id digits n tr))) = unat (trc_id_counter tr + 1) mod 2 ^ 32 \<and>
    trc_id_counter (snd (generate_id digits n tr)) = trc_id_counter tr + 1 \<and>
    (\<exists>k. snd (generate_id digits n tr) = tr\<lparr>trc_id_counter := trc_id_counter tr + 1, trc_words_read := k\<rparr>)"
proof -
  let ?tr = "tr\<lparr>trc_id_counter := trc_id_counter tr + 1\<rparr>"
  obtain s tr2 where h: "HexRandom digits ?tr = (s, tr2)" by fastforce
  have s: "length s = digits" "set s \<subseteq> set kHex" "trc_id_counter tr2 = trc_id_counter tr + 1"
    "\<exists>k. tr2 = ?tr\<lparr>trc_words_read := k\<rparr>"
    using HexRandom_spec [of digits ?tr] by (auto simp: h)
  define c where "c = unat ((trc_id_counter tr + 1) AND 0xffffffff)"
  have c: "c = unat (trc_id_counter tr + 1) mod 2 ^ 32"
  proof -
    have "(trc_id_counter tr + 1) AND 0xffffffff = take_bit 32 (trc_id_counter tr + 1)"
      by (simp add: take_bit_eq_mask mask_eq_exp_minus_1)
    then show ?thesis by (simp add: c_def take_bit_eq_mod unat_mod)
  qed
  then have "c < 16 ^ 8" by simp
  then have "length (show_hex c) \<le> 8" by (rule show_hex_length) simp
  then have l: "length (setw0 8 (show_hex c)) = 8" by (simp add: setw0_def)
  have v: "hex_val (setw0 8 (show_hex c)) = c" by (simp add: setw0_def hex_val_zeros hex_val_show_hex)
  have d: "set (setw0 8 (show_hex c)) \<subseteq> set kHex" using show_hex_digits [of c] by (auto simp: setw0_def kHex_def)
  have "generate_id digits n tr = (s @ setw0 8 (show_hex c), tr2)"
    using assms s(1) l by (simp add: generate_id_def h c_def pad_id_def Let_def)
  then show ?thesis using assms s l v d c by auto
qed

lemma tracer_ids:
  "length (fst (GenerateTraceId tr)) = 32" "length (fst (GenerateSpanId tr)) = 16"
  "fst (GenerateTraceId tr) \<noteq> []" "fst (GenerateSpanId tr) \<noteq> []"
  using generate_id_spec [of 32 24 tr] generate_id_spec [of 16 8 tr]
  by (auto simp: GenerateTraceId_def GenerateSpanId_def)

section \<open>Lemmas on spans\<close>

lemma pop_front_while_drop: "pop_front_while n xs = drop (length xs - n) xs"
proof (induction n xs rule: pop_front_while.induct)
  case (1 n xs)
  show ?case
  proof (cases "length xs > n")
    case True
    with 1 [OF True] have "pop_front_while n xs = drop (length xs - 1 - n) (tl xs)"
      by (subst pop_front_while.simps) simp
    also have "\<dots> = drop (Suc (length xs - 1 - n)) xs" by (simp add: drop_Suc)
    also have "Suc (length xs - 1 - n) = length xs - n" using True by simp
    finally show ?thesis .
  next
    case False
    then show ?thesis by (subst pop_front_while.simps) simp
  qed
qed

text \<open>What finishing a span adds to the list of finished ones.\<close>

definition recorded_span ::
  "TraceSpan \<Rightarrow> string \<Rightarrow> string \<Rightarrow> string \<Rightarrow> int \<Rightarrow> headers \<Rightarrow> World \<Rightarrow> Tracer \<Rightarrow> FinishedSpan list" where
  "recorded_span sp kind path upstream status attributes w tr =
     (if \<not> sp_sampled sp \<or> sp_trace_id sp = [] \<or> sp_span_id sp = [] then []
      else [\<lparr>fs_trace_id = sp_trace_id sp, fs_span_id = sp_span_id sp,
              fs_parent_span_id = sp_parent_span_id sp, fs_name = sp_name sp,
              fs_service_name = tr_service_name (trc_config tr), fs_kind = kind, fs_path = path,
              fs_upstream = upstream, fs_status = status, fs_start_unix_ms = sp_start_unix_ms sp,
              fs_duration_ms = word_of_int (ns_to_ms (fst (steady_now w) - sp_started_at sp)), fs_attributes = attributes\<rparr>])"

definition last_n :: "nat \<Rightarrow> 'a list \<Rightarrow> 'a list" where
  "last_n n xs = drop (length xs - n) xs"

lemma last_n_append: "last_n n (last_n n xs @ ys) = last_n n (xs @ ys)"
proof (cases "length xs \<le> n")
  case True
  then show ?thesis by (simp add: last_n_def)
next
  case False
  then have "length xs = n + (length xs - n)" by simp
  then show ?thesis by (simp add: last_n_def add.commute)
qed

lemma last_n_same [simp]: "length xs \<le> n \<Longrightarrow> last_n n xs = xs"
  by (simp add: last_n_def)

lemma length_last_n: "length (last_n n xs) = min n (length xs)"
  by (auto simp: last_n_def)

lemma FinishSpan_finished:
  assumes "FinishSpan mv sp kind path upstream status attrs w tr = (w', tr')"
    and "length (trc_finished tr) \<le> tr_max_finished_spans (trc_config tr)"
  shows "trc_finished tr' = last_n (tr_max_finished_spans (trc_config tr))
           (trc_finished tr @ recorded_span sp kind path upstream status attrs w tr)"
    "trc_config tr' = trc_config tr" "later w w'"
  using assms later_steady_now [of w "fst (steady_now w)" "snd (steady_now w)"]
  by (auto simp: steady_now_def FinishSpan_def recorded_span_def pop_front_while_drop last_n_def Let_def split: prod.splits if_splits)

section \<open>Lemmas on the JSON texts\<close>

lemma fragment_JsonKV [simp]: "fragment (JsonKV k v)"
  by (simp add: JsonKV_def)

lemma closed_span_json: "closed_object (span_json sp)"
proof -
  have "span_json sp = braces (JsonKV ''trace_id'' (fs_trace_id sp) @ '','' @ JsonKV ''span_id'' (fs_span_id sp) @ '','' @
     JsonKV ''parent_span_id'' (fs_parent_span_id sp) @ '','' @ JsonKV ''name'' (fs_name sp) @ '','' @
     JsonKV ''service_name'' (fs_service_name sp) @ '','' @ JsonKV ''kind'' (fs_kind sp) @ '','' @
     JsonKV ''path'' (fs_path sp) @ '','' @ JsonKV ''upstream'' (fs_upstream sp) @ '','' @
     json_key ''status'' @ show_int (fs_status sp) @ '','' @
     json_key ''start_unix_ms'' @ show_nat (unat (fs_start_unix_ms sp)) @ '','' @
     json_key ''duration_ms'' @ show_nat (unat (fs_duration_ms sp)) @ '','' @
     json_key ''attributes'' @ braces (comma_sep (map (\<lambda>(k, v). JsonKV k v) (fs_attributes sp))))"
    by (simp add: span_json_def braces_def)
  also have "closed_object \<dots>"
    by (intro closed_object_braces fragment_append fragment_braces fragment_comma_sep) auto
  finally show ?thesis .
qed

lemma closed_RenderRecentSpansJson: "closed_object (RenderRecentSpansJson tr)"
proof -
  have "RenderRecentSpansJson tr = braces (json_key ''count'' @ show_nat (length (trc_finished tr)) @ '','' @
      json_key ''spans'' @ brackets (comma_sep (map span_json (trc_finished tr))))"
    by (simp add: RenderRecentSpansJson_def braces_def brackets_def)
  also have "closed_object \<dots>"
    by (intro closed_object_braces fragment_append fragment_braces fragment_comma_sep)
       (auto simp: fragment_closed closed_span_json)
  finally show ?thesis .
qed

lemma fragment_otlp_attr [simp]: "fragment (otlp_attr kv)"
proof -
  have "otlp_attr kv = braces (json_key ''key'' @ quoted (JsonEscape (fst kv)) @ '','' @ json_key ''value'' @
      braces (json_key ''stringValue'' @ quoted (JsonEscape (snd kv))))"
    by (simp add: otlp_attr_def braces_def)
  also have "fragment \<dots>" by (intro fragment_append fragment_braces) simp_all
  finally show ?thesis .
qed

text \<open>The OTLP text without its last character, by the nesting of its objects.\<close>

definition otlp_span :: "FinishedSpan \<Rightarrow> string" where
  "otlp_span sp =
     (let start_ns = fs_start_unix_ms sp * 1000000;
          end_ns = (fs_start_unix_ms sp + fs_duration_ms sp) * 1000000;
          kind = (if fs_kind sp = ''server'' then 2 else 3 :: int)
      in json_key ''traceId'' @ quoted (JsonEscape (fs_trace_id sp)) @ '','' @
         json_key ''spanId'' @ quoted (JsonEscape (fs_span_id sp)) @ '','' @
         (if fs_parent_span_id sp \<noteq> []
          then json_key ''parentSpanId'' @ quoted (JsonEscape (fs_parent_span_id sp)) @ '','' else []) @
         json_key ''name'' @ quoted (JsonEscape (fs_name sp)) @ '','' @
         json_key ''kind'' @ show_int kind @ '','' @
         json_key ''startTimeUnixNano'' @ quoted (show_nat (unat start_ns)) @ '','' @
         json_key ''endTimeUnixNano'' @ quoted (show_nat (unat end_ns)) @ '','' @
         json_key ''attributes'' @ brackets (comma_sep (map otlp_attr (otlp_attributes sp))) @ '','' @
         json_key ''status'' @ braces (json_key ''code'' @ (if 500 \<le> fs_status sp then ''2'' else ''1'')))"

definition otlp_object :: "FinishedSpan \<Rightarrow> string" where
  "otlp_object sp =
     braces (json_key ''resourceSpans'' @ brackets (braces (
       json_key ''resource'' @ braces (json_key ''attributes'' @ brackets (otlp_attr (''service.name'', fs_service_name sp))) @ '','' @
       json_key ''scopeSpans'' @ brackets (braces (
         json_key ''scope'' @ braces (json_key ''name'' @ quoted ''tgw-gateway-platform'' @ '','' @
           json_key ''version'' @ quoted ''0.1.0'') @ '','' @
         json_key ''spans'' @ brackets (braces (otlp_span sp)))))))"

lemma BuildOtlpJson_object: "BuildOtlpJson sp = otlp_object sp @ ''}''"
  by (simp add: BuildOtlpJson_def otlp_object_def otlp_span_def Let_def braces_def brackets_def)

lemma in_string_show_nat [simp]: "in_string (show_nat n)"
  by (rule in_string_literal) (use show_nat_digits [of n] in \<open>auto simp: list_all_iff isdigit_def\<close>)

lemma fragment_otlp_span: "fragment (otlp_span sp)"
proof -
  have "fragment (if 500 \<le> fs_status sp then ''2'' else ''1'')"
    by (rule fragment_plain) (simp add: plain_text_def)
  then show ?thesis
    unfolding otlp_span_def Let_def
    by (intro fragment_append fragment_braces fragment_comma_sep) (simp_all add: fragment_append)
qed

lemma closed_otlp_object: "closed_object (otlp_object sp)"
  unfolding otlp_object_def
  by (intro closed_object_braces fragment_append fragment_braces fragment_otlp_span)
     (simp_all add: in_string_literal)

section \<open>Properties\<close>

text \<open>
  A generated trace id has 32 and a span id 16 lower-case hexadecimal digits, and the
  last eight digits are the counter: whatever the random numbers are, two ids that a tracer
  generates with fewer than \<open>2 ^ 32\<close> generations between them are different.
\<close>

theorem generated_ids_differ:
  "length (fst (GenerateTraceId tr)) = 32 \<and> set (fst (GenerateTraceId tr)) \<subseteq> set kHex \<and>
   length (fst (GenerateSpanId tr)) = 16 \<and> set (fst (GenerateSpanId tr)) \<subseteq> set kHex \<and>
   trc_id_counter (snd (GenerateTraceId tr)) = trc_id_counter tr + 1 \<and>
   trc_id_counter (snd (GenerateSpanId tr)) = trc_id_counter tr + 1 \<and>
   (\<forall>tr2. unat (trc_id_counter tr + 1) mod 2 ^ 32 \<noteq> unat (trc_id_counter tr2 + 1) mod 2 ^ 32 \<longrightarrow>
      fst (GenerateTraceId tr) \<noteq> fst (GenerateTraceId tr2) \<and> fst (GenerateSpanId tr) \<noteq> fst (GenerateSpanId tr2))"
proof -
  have t: "hex_val (drop 24 (fst (GenerateTraceId tr'))) = unat (trc_id_counter tr' + 1) mod 2 ^ 32" for tr'
    using generate_id_spec [of 32 24 tr'] by (simp add: GenerateTraceId_def)
  have s: "hex_val (drop 8 (fst (GenerateSpanId tr'))) = unat (trc_id_counter tr' + 1) mod 2 ^ 32" for tr'
    using generate_id_spec [of 16 8 tr'] by (simp add: GenerateSpanId_def)
  have "fst (GenerateTraceId tr) \<noteq> fst (GenerateTraceId tr2) \<and> fst (GenerateSpanId tr) \<noteq> fst (GenerateSpanId tr2)"
    if "unat (trc_id_counter tr + 1) mod 2 ^ 32 \<noteq> unat (trc_id_counter tr2 + 1) mod 2 ^ 32" for tr2
    using that t [of tr] t [of tr2] s [of tr] s [of tr2] by metis
  then show ?thesis
    using generate_id_spec [of 32 24 tr] generate_id_spec [of 16 8 tr] tracer_ids
    by (simp add: GenerateTraceId_def GenerateSpanId_def)
qed

definition demo_tracer :: Tracer where
  "demo_tracer = \<lparr>trc_config = TracingConfig_default, trc_finished = [], trc_id_counter = 0, trc_exported = [],
     trc_words = (\<lambda>n. 0x0123456789abcdef), trc_words_read = 0, trc_coins = (\<lambda>n. 0), trc_coins_read = 0\<rparr>"

theorem generated_ids_differ_witness:
  "fst (GenerateSpanId demo_tracer) \<noteq> fst (GenerateSpanId (demo_tracer\<lparr>trc_id_counter := 1\<rparr>))"
  using generated_ids_differ [of demo_tracer] by (simp add: demo_tracer_def)

text \<open>A sequence of finished spans.\<close>

definition finish_all ::
  "(FinishedSpan \<Rightarrow> FinishedSpan) \<Rightarrow> (TraceSpan \<times> string \<times> string \<times> string \<times> int \<times> headers \<times> World) list \<Rightarrow> Tracer \<Rightarrow> Tracer" where
  "finish_all mv = fold (\<lambda>(sp, kind, path, upstream, status, attrs, w) tr.
     snd (FinishSpan mv sp kind path upstream status attrs w tr))"

lemma recorded_span_config:
  "trc_config tr' = trc_config tr \<Longrightarrow>
   recorded_span sp kind path upstream status attrs w tr' = recorded_span sp kind path upstream status attrs w tr"
  by (simp add: recorded_span_def)

text \<open>
  C31: The tracer keeps exactly the newest finished spans: after any sequence of finished
  spans its list holds the last \<^verbatim>\<open>max_finished_spans\<close> of the sampled ones, in order.
\<close>

theorem finished_spans_are_newest:
  assumes "length (trc_finished tr) \<le> tr_max_finished_spans (trc_config tr)"
  shows "trc_finished (finish_all mv calls tr) =
    last_n (tr_max_finished_spans (trc_config tr))
      (trc_finished tr @ concat (map (\<lambda>(sp, kind, path, upstream, status, attrs, w).
          recorded_span sp kind path upstream status attrs w tr) calls)) \<and>
    length (trc_finished (finish_all mv calls tr)) \<le> tr_max_finished_spans (trc_config tr)"
  using assms
proof (induction calls arbitrary: tr)
  case Nil
  then show ?case by (simp add: finish_all_def)
next
  case (Cons c calls)
  obtain sp kind path upstream status attrs w where c: "c = (sp, kind, path, upstream, status, attrs, w)"
    by (metis prod.exhaust)
  obtain w' tr' where f: "FinishSpan mv sp kind path upstream status attrs w tr = (w', tr')" by fastforce
  note s = FinishSpan_finished [OF f Cons.prems]
  have "length (trc_finished tr') \<le> tr_max_finished_spans (trc_config tr')"
    using s by (simp add: length_last_n)
  from Cons.IH [OF this] show ?case
    using s recorded_span_config [OF s(2)]
    by (simp add: c f finish_all_def last_n_append length_last_n)
qed

theorem finished_spans_are_newest_witness:
  "length (trc_finished (finish_all id (replicate 3000 (TraceSpan_default\<lparr>sp_trace_id := ''a'', sp_span_id := ''b''\<rparr>,
     ''server'', ''/'', ''none'', 200, [], \<lparr>steady_ns = (\<lambda>n. 0), steady_reads = 0, system_ns = (\<lambda>n. 0), system_reads = 0\<rparr>))
     demo_tracer)) \<le> 1024"
proof -
  have "length (trc_finished demo_tracer) \<le> tr_max_finished_spans (trc_config demo_tracer)"
    by (simp add: demo_tracer_def)
  moreover have "tr_max_finished_spans (trc_config demo_tracer) = 1024"
    by (simp add: demo_tracer_def TracingConfig_default_def)
  ultimately show ?thesis using finished_spans_are_newest [of demo_tracer] by metis
qed

text \<open>
  The debug page writes one closed JSON object, whatever the spans contain; the text sent
  to the OTLP collector is a closed object followed by one more closing brace, which no JSON
  reader accepts.
\<close>

theorem otlp_json_has_extra_brace:
  "closed_object (RenderRecentSpansJson tr) \<and>
   (\<exists>obj. BuildOtlpJson sp = obj @ ''}'' \<and> closed_object obj) \<and>
   json_run (tl (BuildOtlpJson sp)) Plain 1 = None"
proof -
  have "tl (BuildOtlpJson sp) = tl (otlp_object sp) @ ''}''"
    using closed_otlp_object [of sp] by (simp add: BuildOtlpJson_object closed_object_def)
  with closed_object_end [OF closed_otlp_object [of sp], of "CHR ''}''" "[]"]
  show ?thesis using closed_RenderRecentSpansJson closed_otlp_object BuildOtlpJson_object by auto
qed

end
