(* ===== verification/FieldParsing.thy ===== *)
theory FieldParsing
  imports Http
begin

text \<open>
  The readers of request fields in \<^verbatim>\<open>src/gateway/local_rpc_upstream_client.cc\<close>:
  URL-decoded query strings and flat JSON objects. The C++ code walks a position through the
  text; the model walks through the text that remains from that position on.
\<close>

section \<open>Query strings\<close>

type_synonym FieldMap = "(string, string) omap"

definition IsHex :: "char \<Rightarrow> bool" where
  "IsHex c = isxdigit c"

definition HexValue :: "char \<Rightarrow> nat" where
  "HexValue c =
     (if CHR ''0'' \<le> c \<and> c \<le> CHR ''9'' then code c - code (CHR ''0'')
      else if CHR ''a'' \<le> c \<and> c \<le> CHR ''f'' then code c - code (CHR ''a'') + 10
      else if CHR ''A'' \<le> c \<and> c \<le> CHR ''F'' then code c - code (CHR ''A'') + 10
      else 0)"

fun UrlDecode :: "string \<Rightarrow> string" where
  "UrlDecode [] = []"
| "UrlDecode (c # s) =
     (if c = CHR ''+'' then CHR '' '' # UrlDecode s
      else case s of
        h # l # t \<Rightarrow>
          if c = CHR ''%'' \<and> IsHex h \<and> IsHex l
          then char_of (HexValue h * 16 + HexValue l) # UrlDecode t
          else c # UrlDecode s
      | _ \<Rightarrow> c # UrlDecode s)"

definition query_part :: "string \<Rightarrow> FieldMap \<Rightarrow> FieldMap" where
  "query_part part m =
     (if part = [] then m
      else let key = UrlDecode (takeWhile (\<lambda>c. c \<noteq> CHR ''='') part);
               rest = dropWhile (\<lambda>c. c \<noteq> CHR ''='') part
           in om_put key (if rest = [] then [] else UrlDecode (tl rest)) m)"

text \<open>The loop of \<^verbatim>\<open>ParseQuery\<close> from position \<open>start\<close> on.\<close>

function query_loop :: "string \<Rightarrow> FieldMap \<Rightarrow> FieldMap" where
  "query_loop query result =
     (let part = takeWhile (\<lambda>c. c \<noteq> CHR ''&'') query;
          rest = dropWhile (\<lambda>c. c \<noteq> CHR ''&'') query;
          result1 = query_part part result
      in if rest = [] then result1 else query_loop (tl rest) result1)"
  by pat_completeness auto
termination
proof (relation "measure (length \<circ> fst)", goal_cases)
  case (2 query result part rest result1)
  then have "rest \<noteq> []" "length rest \<le> length query" by (simp_all add: length_dropWhile_le)
  then have "length (tl rest) < length query" by (cases rest) auto
  then show ?case by simp
qed simp

declare query_loop.simps [simp del]

definition ParseQuery :: "string \<Rightarrow> FieldMap" where
  "ParseQuery query = query_loop query om_empty"

section \<open>Flat JSON objects\<close>

definition SkipWhitespace :: "string \<Rightarrow> string" where
  "SkipWhitespace text = dropWhile isspace text"

definition json_unescape_char :: "char \<Rightarrow> char" where
  "json_unescape_char c =
     (if c = CHR ''b'' then CHR 0x08 else if c = CHR ''f'' then CHR 0x0C
      else if c = CHR ''n'' then LF else if c = CHR ''r'' then CR else if c = CHR ''t'' then TAB
      else c)"

text \<open>The loop of \<^verbatim>\<open>ParseJsonStringToken\<close> behind the opening quote.\<close>

fun json_string_loop :: "string \<Rightarrow> string \<Rightarrow> (string \<times> string) result" where
  "json_string_loop [] acc = Inl (Runtime_error ''unterminated json string'')"
| "json_string_loop (c # s) acc =
     (if c = QUOTE then Inr (acc, s)
      else if c \<noteq> BACKSLASH then json_string_loop s (acc @ [c])
      else case s of
        [] \<Rightarrow> Inl (Runtime_error ''invalid json escape'')
      | escaped # t \<Rightarrow> json_string_loop t (acc @ [json_unescape_char escaped]))"

definition ParseJsonStringToken :: "string \<Rightarrow> (string \<times> string) result" where
  "ParseJsonStringToken text =
     (if text = [] \<or> hd text \<noteq> QUOTE then Inl (Runtime_error ''expected json string'')
      else json_string_loop (tl text) [])"

definition scalar_end :: "char \<Rightarrow> bool" where
  "scalar_end c \<longleftrightarrow> c = CHR '','' \<or> c = CHR ''}'' \<or> isspace c"

definition ParseJsonScalarToken :: "string \<Rightarrow> string \<times> string" where
  "ParseJsonScalarToken text =
     (takeWhile (\<lambda>c. \<not> scalar_end c) text, dropWhile (\<lambda>c. \<not> scalar_end c) text)"

text \<open>Every token that is read shortens the text; this is why the object loop ends.\<close>

lemma json_string_loop_length: "json_string_loop s acc = Inr (v, r) \<Longrightarrow> length r < length s"
  by (induction s acc rule: json_string_loop.induct) (auto split: if_splits list.splits)

lemma ParseJsonStringToken_length: "ParseJsonStringToken s = Inr (v, r) \<Longrightarrow> length r < length s"
  by (cases s) (auto simp: ParseJsonStringToken_def split: if_splits dest!: json_string_loop_length)

lemma SkipWhitespace_length: "length (SkipWhitespace s) \<le> length s"
  by (simp add: SkipWhitespace_def length_dropWhile_le)

definition json_value :: "string \<Rightarrow> (string \<times> string) result" where
  "json_value text =
     (if text \<noteq> [] \<and> hd text = QUOTE then ParseJsonStringToken text
      else Inr (ParseJsonScalarToken text))"

lemma json_value_length: "json_value s = Inr (v, r) \<Longrightarrow> length r \<le> length s"
  by (auto simp: json_value_def ParseJsonScalarToken_def length_dropWhile_le split: if_splits
      dest: ParseJsonStringToken_length)

text \<open>One member of an object: its key, its value and the text behind them.\<close>

definition json_member :: "string \<Rightarrow> (string \<times> string \<times> string) result" where
  "json_member text =
     bind_result (ParseJsonStringToken text) (\<lambda>(key, s1).
       let s2 = SkipWhitespace s1 in
       if s2 = [] \<or> hd s2 \<noteq> CHR '':'' then Inl (Runtime_error ''expected ':' after json key'')
       else bind_result (json_value (SkipWhitespace (tl s2))) (\<lambda>(value, s3). Inr (key, value, SkipWhitespace s3)))"

lemma json_member_length:
  assumes "json_member s = Inr (k, v, r)"
  shows "length r < length s"
proof -
  obtain s1 where k: "ParseJsonStringToken s = Inr (k, s1)"
    and rest: "SkipWhitespace s1 \<noteq> []" "bind_result (json_value (SkipWhitespace (tl (SkipWhitespace s1))))
       (\<lambda>(value, s3). Inr (k, value, SkipWhitespace s3)) = Inr (k, v, r)"
    using assms by (auto simp: json_member_def bind_result_Inr Let_def split: if_splits prod.splits)
  then obtain s3 where v: "json_value (SkipWhitespace (tl (SkipWhitespace s1))) = Inr (v, s3)"
    and r: "r = SkipWhitespace s3"
    by (auto simp: bind_result_Inr)
  have "length r \<le> length s3" by (simp add: r SkipWhitespace_length)
  also have "\<dots> \<le> length (SkipWhitespace (tl (SkipWhitespace s1)))" by (rule json_value_length [OF v])
  also have "\<dots> \<le> length (tl (SkipWhitespace s1))" by (rule SkipWhitespace_length)
  also have "\<dots> \<le> length s1" using SkipWhitespace_length [of s1] by simp
  also have "\<dots> < length s" by (rule ParseJsonStringToken_length [OF k])
  finally show ?thesis .
qed

text \<open>The \<^verbatim>\<open>while (true)\<close> loop of \<^verbatim>\<open>ParseFlatJsonObject\<close> behind the brace.\<close>

function json_members :: "string \<Rightarrow> FieldMap \<Rightarrow> FieldMap result" where
  "json_members text result =
     (let s = SkipWhitespace text in
      if s \<noteq> [] \<and> hd s = CHR ''}'' then Inr result
      else case json_member s of
        Inl e \<Rightarrow> Inl e
      | Inr (key, value, s1) \<Rightarrow>
          let result1 = om_put key value result in
          if s1 \<noteq> [] \<and> hd s1 = CHR '','' then json_members (tl s1) result1
          else if s1 \<noteq> [] \<and> hd s1 = CHR ''}'' then Inr result1
          else Inl (Runtime_error ''expected ',' or '}' in json object''))"
  by pat_completeness auto
termination
proof (relation "measure (length \<circ> fst)", goal_cases)
  case (2 txt0 result s m key y v s1 result1)
  then have "length s1 < length s" by (metis json_member_length)
  moreover have "length s \<le> length txt0" using 2(1) by (simp add: SkipWhitespace_length)
  ultimately show ?case by simp
qed simp

declare json_members.simps [simp del]

definition ParseFlatJsonObject :: "string \<Rightarrow> FieldMap result" where
  "ParseFlatJsonObject body =
     (let s = SkipWhitespace body in
      if s = [] then Inr om_empty
      else if hd s \<noteq> CHR ''{'' then Inl (Runtime_error ''json body must be an object'')
      else json_members (tl s) om_empty)"

section \<open>Fields\<close>

definition GetString :: "FieldMap \<Rightarrow> string \<Rightarrow> string" where
  "GetString fs key = (case om_get fs key of None \<Rightarrow> [] | Some v \<Rightarrow> v)"

definition GetInt64 :: "FieldMap \<Rightarrow> string \<Rightarrow> int result" where
  "GetInt64 fs key =
     (case om_get fs key of
        None \<Rightarrow> Inr 0
      | Some v \<Rightarrow> if v = [] \<or> v = ''null'' then Inr 0 else stoll v)"

definition JsonPair :: "string \<Rightarrow> string \<Rightarrow> bool \<Rightarrow> string" where
  "JsonPair key value string_value =
     json_key (JsonEscape key) @ (if string_value then quoted (JsonEscape value) else value)"

section \<open>Reading back escaped strings\<close>

lemma json_string_loop_escape:
  "json_string_loop (JsonEscape v @ QUOTE # rest) acc = Inr (acc @ v, rest)"
proof (induction v arbitrary: acc)
  case (Cons c v)
  then show ?case
    by (auto simp: json_escape_char_def json_unescape_char_def)
qed simp

lemma ParseJsonStringToken_quoted:
  "ParseJsonStringToken (quoted (JsonEscape v) @ rest) = Inr (v, rest)"
  by (simp add: ParseJsonStringToken_def quoted_def json_string_loop_escape)

interpretation json_text: codec "\<lambda>v. quoted (JsonEscape v)"
  "\<lambda>s. case ParseJsonStringToken s of Inr (v, r) \<Rightarrow> Some v | Inl _ \<Rightarrow> None" "\<lambda>_. True"
  by unfold_locales (use ParseJsonStringToken_quoted [of _ "[]"] in simp)

text \<open>A scalar that can stand in an object without quotes.\<close>

definition scalar_text :: "string \<Rightarrow> bool" where
  "scalar_text v \<longleftrightarrow> v \<noteq> [] \<and> hd v \<noteq> QUOTE \<and> (\<forall>c \<in> set v. \<not> scalar_end c)"

lemma number_char: "isdigit c \<or> c = CHR ''-'' \<Longrightarrow> c \<noteq> QUOTE \<and> \<not> scalar_end c"
  by (auto simp: scalar_end_def isdigit_def isspace_def)

lemma scalar_text_show_int: "scalar_text (show_int i)"
  using show_int_chars [of i] hd_in_set [OF show_int_nonempty [of i]] number_char
  unfolding scalar_text_def by (metis show_int_nonempty)

lemma SkipWhitespace_Cons: "\<not> isspace c \<Longrightarrow> SkipWhitespace (c # s) = c # s"
  by (simp add: SkipWhitespace_def)

lemma not_isspace [simp]: "\<not> isspace QUOTE" "\<not> isspace (CHR '','')" "\<not> isspace (CHR ''}'')"
  "\<not> isspace (CHR '':'')" "\<not> isspace (CHR ''{'')"
  by (simp_all add: isspace_def)

lemma json_value_pair:
  assumes "b \<or> scalar_text v" "d = CHR '','' \<or> d = CHR ''}''"
  shows "json_value (SkipWhitespace ((if b then quoted (JsonEscape v) else v) @ d # rest)) = Inr (v, d # rest)"
proof (cases b)
  case True
  then show ?thesis
    using ParseJsonStringToken_quoted [of v "d # rest"]
    by (simp add: json_value_def quoted_def SkipWhitespace_Cons)
next
  case False
  with assms(1) have v: "v \<noteq> []" "hd v \<noteq> QUOTE" "\<forall>c \<in> set v. \<not> scalar_end c" by (auto simp: scalar_text_def)
  then have "\<not> isspace (hd v)" using hd_in_set scalar_end_def by blast
  with v(1) have "SkipWhitespace (v @ d # rest) = v @ d # rest" by (cases v) (auto simp: SkipWhitespace_Cons)
  moreover have "scalar_end d" using assms(2) by (auto simp: scalar_end_def)
  ultimately show ?thesis
    using False v by (simp add: json_value_def ParseJsonScalarToken_def takeWhile_append dropWhile_append)
qed

lemma json_member_pair:
  assumes "b \<or> scalar_text v" "d = CHR '','' \<or> d = CHR ''}''"
  shows "json_member (JsonPair k v b @ d # rest) = Inr (k, v, d # rest)"
proof -
  let ?val = "(if b then quoted (JsonEscape v) else v) @ d # rest"
  have "ParseJsonStringToken (JsonPair k v b @ d # rest) = Inr (k, CHR '':'' # ?val)"
    using ParseJsonStringToken_quoted [of k "CHR '':'' # ?val"] by (simp add: JsonPair_def json_key_def)
  moreover have "SkipWhitespace (d # rest) = d # rest" using assms(2) by (auto simp: SkipWhitespace_Cons)
  ultimately show ?thesis
    using json_value_pair [OF assms, of rest] by (simp add: json_member_def SkipWhitespace_Cons)
qed

text \<open>An object text as the code writes its answers: pairs separated by commas.\<close>

definition json_object :: "(string \<times> string \<times> bool) list \<Rightarrow> string" where
  "json_object kvs =
     ''{'' @ concat (map (\<lambda>(k, v, b). JsonPair k v b @ '','') (butlast kvs)) @
     (case last kvs of (k, v, b) \<Rightarrow> JsonPair k v b) @ ''}''"

definition pairs_of :: "(string \<times> string \<times> bool) list \<Rightarrow> (string \<times> string) list" where
  "pairs_of kvs = map (\<lambda>(k, v, b). (k, v)) kvs"

lemma JsonPair_start: "SkipWhitespace (JsonPair k v b @ s) = JsonPair k v b @ s" "hd (JsonPair k v b @ s) = QUOTE"
  by (simp_all add: JsonPair_def json_key_def quoted_def SkipWhitespace_Cons)

lemma JsonPair_nonempty: "JsonPair k v b \<noteq> []"
  by (simp add: JsonPair_def json_key_def quoted_def)

lemma json_members_pairs:
  assumes "\<forall>(k, v, b) \<in> set kvs. b \<or> scalar_text v" "b \<or> scalar_text v"
  shows "json_members (concat (map (\<lambda>(k, v, b). JsonPair k v b @ '','') kvs) @ JsonPair k v b @ ''}'') m =
    Inr (fold (\<lambda>(k, v). om_put k v) (pairs_of kvs @ [(k, v)]) m)"
  using assms(1)
proof (induction kvs arbitrary: m)
  case Nil
  then show ?case
    using json_member_pair [OF assms(2), of "CHR ''}''" k "[]"] JsonPair_start [of k v b "''}''"]
    by (subst json_members.simps) (simp add: Let_def pairs_of_def JsonPair_nonempty)
next
  case (Cons e kvs)
  obtain k' v' b' where e: "e = (k', v', b')" by (metis prod.exhaust)
  let ?rest = "concat (map (\<lambda>(k, v, b). JsonPair k v b @ '','') kvs) @ JsonPair k v b @ ''}''"
  have "b' \<or> scalar_text v'" using Cons.prems e by simp
  from json_member_pair [OF this, of "CHR '',''" k' ?rest] Cons.IH [of "om_put k' v' m"] Cons.prems
  show ?case
    using JsonPair_start [of k' v' b' "'','' @ ?rest"]
    by (subst json_members.simps) (simp add: e Let_def pairs_of_def JsonPair_nonempty)
qed

section \<open>Reading back URL-encoded text\<close>

definition hex_digit :: "nat \<Rightarrow> char" where
  "hex_digit n = char_of (if n < 10 then 48 + n else 55 + n)"

definition url_plain :: "char \<Rightarrow> bool" where
  "url_plain c \<longleftrightarrow> c \<notin> {CHR ''+'', CHR ''%'', CHR ''&'', CHR ''=''}"

text \<open>Any encoder: a plain character may stand for itself or, like all others, be a hexadecimal escape.\<close>

definition url_encodes :: "char \<Rightarrow> string \<Rightarrow> bool" where
  "url_encodes c t \<longleftrightarrow>
     url_plain c \<and> t = [c] \<or> t = [CHR ''%'', hex_digit (code c div 16), hex_digit (code c mod 16)]"

lemma hex_digit_value: "n < 16 \<Longrightarrow> HexValue (hex_digit n) = n \<and> IsHex (hex_digit n)"
proof -
  have "list_all (\<lambda>n. HexValue (hex_digit n) = n \<and> IsHex (hex_digit n)) [0..<16]" by code_simp
  then show "n < 16 \<Longrightarrow> HexValue (hex_digit n) = n \<and> IsHex (hex_digit n)" by (simp add: list_all_iff)
qed

lemma hex_digit_plain: "n < 16 \<Longrightarrow> hex_digit n \<notin> {CHR ''&'', CHR ''=''}"
proof -
  have "list_all (\<lambda>n. hex_digit n \<notin> {CHR ''&'', CHR ''=''}) [0..<16]" by code_simp
  then show "n < 16 \<Longrightarrow> hex_digit n \<notin> {CHR ''&'', CHR ''=''}" by (simp add: list_all_iff)
qed

lemma code_halves [simp]: "code c div 16 < 16" "code c mod 16 < 16"
  using code_less_256 [of c] by (simp_all add: less_mult_imp_div_less)

lemma UrlDecode_encodes:
  assumes "url_encodes c t"
  shows "UrlDecode (t @ s) = c # UrlDecode s"
  using assms unfolding url_encodes_def
proof
  assume "url_plain c \<and> t = [c]"
  then show ?thesis by (auto simp: url_plain_def split: list.splits)
next
  assume "t = [CHR ''%'', hex_digit (code c div 16), hex_digit (code c mod 16)]"
  then show ?thesis
    using hex_digit_value [OF code_halves(1) [of c]] hex_digit_value [OF code_halves(2) [of c]]
    by simp
qed

lemma UrlDecode_list: "list_all2 url_encodes s ts \<Longrightarrow> UrlDecode (concat ts) = s"
  by (induction rule: list_all2_induct) (simp_all add: UrlDecode_encodes)

lemma url_encodes_no_sep: "list_all2 url_encodes s ts \<Longrightarrow> set (concat ts) \<inter> {CHR ''&'', CHR ''=''} = {}"
proof (induction rule: list_all2_induct)
  case (Cons c s t ts)
  then show ?case
    using hex_digit_plain [OF code_halves(1) [of c]] hex_digit_plain [OF code_halves(2) [of c]]
    by (auto simp: url_encodes_def url_plain_def)
qed simp

lemma query_part_pair:
  assumes "list_all2 url_encodes k ks" "list_all2 url_encodes v vs"
  shows "query_part (concat ks @ ''='' @ concat vs) m = om_put k v m"
  using url_encodes_no_sep [OF assms(1)] UrlDecode_list [OF assms(1)] UrlDecode_list [OF assms(2)]
  by (simp add: query_part_def Let_def takeWhile_append dropWhile_append disjoint_iff)

text \<open>A query string: the encoded pairs, joined with ampersands.\<close>

fun query_text :: "(string \<times> string) list \<Rightarrow> string" where
  "query_text [] = []"
| "query_text [(k, v)] = k @ ''='' @ v"
| "query_text ((k, v) # e # kvs) = k @ ''='' @ v @ ''&'' @ query_text (e # kvs)"

definition pair_encodes :: "string \<times> string \<Rightarrow> string \<times> string \<Rightarrow> bool" where
  "pair_encodes p t \<longleftrightarrow>
     (\<exists>ks vs. t = (concat ks, concat vs) \<and> list_all2 url_encodes (fst p) ks \<and> list_all2 url_encodes (snd p) vs)"

lemma pair_encodes_part:
  assumes "pair_encodes (k, v) (tk, tv)"
  shows "query_part (tk @ ''='' @ tv) m = om_put k v m" "CHR ''&'' \<notin> set (tk @ ''='' @ tv)"
proof -
  obtain ks vs where t: "tk = concat ks" "tv = concat vs"
    and enc: "list_all2 url_encodes k ks" "list_all2 url_encodes v vs"
    using assms by (auto simp: pair_encodes_def)
  show "query_part (tk @ ''='' @ tv) m = om_put k v m" unfolding t by (rule query_part_pair [OF enc])
  show "CHR ''&'' \<notin> set (tk @ ''='' @ tv)"
    using url_encodes_no_sep [OF enc(1)] url_encodes_no_sep [OF enc(2)] by (auto simp: t)
qed

lemma query_loop_last: "CHR ''&'' \<notin> set part \<Longrightarrow> query_loop part m = query_part part m"
proof -
  assume "CHR ''&'' \<notin> set part"
  then have "takeWhile (\<lambda>c. c \<noteq> CHR ''&'') part = part" "dropWhile (\<lambda>c. c \<noteq> CHR ''&'') part = []"
    by (induction part) auto
  then show ?thesis by (subst query_loop.simps) (simp only: Let_def if_True refl)
qed

lemma query_loop_step:
  assumes "CHR ''&'' \<notin> set part"
  shows "query_loop (part @ CHR ''&'' # rest) m = query_loop rest (query_part part m)"
proof -
  have "takeWhile (\<lambda>c. c \<noteq> CHR ''&'') (part @ CHR ''&'' # rest) = part"
    "dropWhile (\<lambda>c. c \<noteq> CHR ''&'') (part @ CHR ''&'' # rest) = CHR ''&'' # rest"
    using assms by (induction part) auto
  then show ?thesis by (subst query_loop.simps) (simp add: Let_def)
qed

lemma query_loop_text:
  "list_all2 pair_encodes kvs ts \<Longrightarrow> kvs \<noteq> [] \<Longrightarrow>
   query_loop (query_text ts) m = fold (\<lambda>(k, v). om_put k v) kvs m"
proof (induction kvs ts arbitrary: m rule: list_all2_induct)
  case (Cons p kvs t ts)
  obtain k v tk tv where pt: "p = (k, v)" "t = (tk, tv)" by (metis prod.exhaust)
  note part = pair_encodes_part [OF Cons.hyps(1) [unfolded pt]]
  show ?case
  proof (cases kvs)
    case Nil
    with Cons.hyps(2) have "ts = []" by simp
    then show ?thesis using query_loop_last [OF part(2)] part(1) by (simp add: Nil pt)
  next
    case (Cons q kvs')
    with \<open>list_all2 pair_encodes kvs ts\<close> obtain t' ts' where "ts = t' # ts'" by (cases ts) auto
    then have "query_text (t # ts) = (tk @ ''='' @ tv) @ CHR ''&'' # query_text ts" by (simp add: pt)
    then show ?thesis
      using query_loop_step [OF part(2)] part(1) Cons.IH [of "om_put k v m"] Cons by (simp add: pt)
  qed
qed simp

section \<open>Fields of an object and of a query\<close>

lemma object_fields_ex:
  assumes "kvs \<noteq> []" and "\<forall>(k, v, b) \<in> set kvs. b \<or> scalar_text v"
  shows "\<exists>m. ParseFlatJsonObject (json_object kvs) = Inr m \<and> om_wf m \<and>
           (\<forall>key. om_get m key = map_of (rev (map (\<lambda>(k, v, b). (k, v)) kvs)) key)"
proof -
  obtain k v b where l: "last kvs = (k, v, b)" by (metis prod.exhaust)
  have kvs: "kvs = butlast kvs @ [(k, v, b)]" using assms(1) l by (metis append_butlast_last_id)
  have "b \<or> scalar_text v" using assms l by (metis (no_types, lifting) case_prod_conv last_in_set)
  moreover have "\<forall>(k, v, b) \<in> set (butlast kvs). b \<or> scalar_text v" using assms(2) in_set_butlastD by fast
  ultimately have "json_members (tl (json_object kvs)) om_empty =
      Inr (fold (\<lambda>(k, v). om_put k v) (pairs_of (butlast kvs) @ [(k, v)]) om_empty)"
    using json_members_pairs [of "butlast kvs" b v k om_empty] by (simp add: json_object_def l)
  moreover have "pairs_of kvs = pairs_of (butlast kvs) @ [(k, v)]"
    by (subst kvs) (simp add: pairs_of_def)
  moreover have "SkipWhitespace (json_object kvs) = json_object kvs" "hd (json_object kvs) = CHR ''{''" "json_object kvs \<noteq> []"
    by (simp_all add: json_object_def SkipWhitespace_Cons)
  ultimately have "ParseFlatJsonObject (json_object kvs) = Inr (fold (\<lambda>(k, v). om_put k v) (pairs_of kvs) om_empty)"
    by (simp add: ParseFlatJsonObject_def)
  then show ?thesis
    using om.invar_puts [OF om_wf_Nil] om.get_puts [OF om_wf_Nil, of "pairs_of kvs"]
    by (simp add: pairs_of_def split: option.split)
qed

lemma object_fields:
  assumes "kvs \<noteq> []" "\<forall>(k, v, b) \<in> set kvs. b \<or> scalar_text v"
  obtains m where "ParseFlatJsonObject (json_object kvs) = Inr m"
    "\<And>key. om_get m key = map_of (rev (map (\<lambda>(k, v, b). (k, v)) kvs)) key"
  using object_fields_ex [OF assms] by blast

lemma query_fields:
  assumes "list_all2 pair_encodes kvs ts"
  shows "om_wf (ParseQuery (query_text ts)) \<and> om_get (ParseQuery (query_text ts)) key = map_of (rev kvs) key"
proof (cases "kvs = []")
  case True
  with assms show ?thesis by (simp add: ParseQuery_def query_loop_last query_part_def)
next
  case False
  then have "ParseQuery (query_text ts) = fold (\<lambda>(k, v). om_put k v) kvs om_empty"
    using query_loop_text [OF assms] by (simp add: ParseQuery_def)
  then show ?thesis
    using om.invar_puts [OF om_wf_Nil, of kvs] om.get_puts [OF om_wf_Nil, of kvs key]
    by (cases "map_of (rev kvs) key") simp_all
qed

section \<open>Properties\<close>

text \<open>
  What the code writes as a JSON object, \<^verbatim>\<open>ParseFlatJsonObject\<close> reads back: an
  object of any members, with keys and quoted values of arbitrary bytes and unquoted values
  that are single scalars, is accepted, and every key is found with the value of its last
  member.
\<close>

theorem json_object_roundtrip:
  assumes "kvs \<noteq> []" and "\<forall>(k, v, b) \<in> set kvs. b \<or> scalar_text v"
  shows "\<exists>m. ParseFlatJsonObject (json_object kvs) = Inr m \<and> om_wf m \<and>
           (\<forall>key. om_get m key = map_of (rev (map (\<lambda>(k, v, b). (k, v)) kvs)) key)"
  using object_fields_ex [OF assms] .

theorem json_object_roundtrip_witness:
  "\<exists>m. ParseFlatJsonObject (json_object [([QUOTE], [LF, BACKSLASH], True), (''size'', ''7'', False)]) = Inr m \<and> om_wf m \<and>
     (\<forall>key. om_get m key = map_of (rev (map (\<lambda>(k, v, b). (k, v))
        [([QUOTE], [LF, BACKSLASH], True), (''size'', ''7'', False)])) key)"
proof -
  have "scalar_text ''7''" by code_simp
  then show ?thesis
    by (intro json_object_roundtrip) auto
qed

text \<open>
  \<^verbatim>\<open>ParseQuery\<close> undoes URL encoding: whatever encoder built the query string (each
  byte written as itself, unless it is one of four special ones, or as a percent escape),
  every key is found with the value of its last pair.
\<close>

theorem query_roundtrip:
  assumes "list_all2 pair_encodes kvs ts"
  shows "om_wf (ParseQuery (query_text ts)) \<and> om_get (ParseQuery (query_text ts)) key = map_of (rev kvs) key"
  using query_fields [OF assms] .

theorem query_roundtrip_witness:
  "om_wf (ParseQuery (query_text [(''k'', ''%26'')])) \<and>
   om_get (ParseQuery (query_text [(''k'', ''%26'')])) ''k'' = map_of (rev [(''k'', ''&'')]) ''k''"
proof (rule query_roundtrip)
  have "url_encodes (CHR ''k'') ''k''" "url_encodes (CHR ''&'') ''%26''" by code_simp+
  then have "list_all2 url_encodes ''k'' [''k'']" "list_all2 url_encodes ''&'' [''%26'']" by simp_all
  then show "list_all2 pair_encodes [(''k'', ''&'')] [(''k'', ''%26'')]"
    unfolding pair_encodes_def list_all2_Cons by (intro conjI exI [of _ "[''k'']"] exI [of _ "[''%26'']"]) auto
qed

end
