(* ===== verification/Rpc.thy ===== *)
theory Rpc
  imports Deadline
begin

text \<open>
  The messages the services exchange, as \<^verbatim>\<open>proto/*.proto\<close> declares them, with the
  default value of every field, and the two helpers that each service implementation repeats
  in its file: \<^verbatim>\<open>FillMeta\<close> and \<^verbatim>\<open>FillTimeoutIfCancelled\<close>. The status of a
  task is kept as the integer of the (open) enumeration; an unknown \<^verbatim>\<open>RpcCode\<close>, which
  only a remote service can send, keeps its number.
\<close>

section \<open>Messages\<close>

datatype RpcCode =
    RPC_OK
  | RPC_INVALID_ARGUMENT
  | RPC_UNAUTHORIZED
  | RPC_NOT_FOUND
  | RPC_TIMEOUT
  | RPC_INTERNAL_ERROR
  | RPC_UNKNOWN int

record RpcMeta =
  meta_code :: RpcCode
  meta_message :: string
  meta_request_id :: string
  meta_cost_ms :: int

definition RpcMeta_default :: RpcMeta where
  "RpcMeta_default = \<lparr>meta_code = RPC_OK, meta_message = [], meta_request_id = [], meta_cost_ms = 0\<rparr>"

record LoginRequest =
  lrq_username :: string
  lrq_password :: string

record LoginResponse =
  lrs_meta :: RpcMeta
  lrs_user_id :: int
  lrs_username :: string
  lrs_token :: string
  lrs_role :: string

definition LoginResponse_default :: LoginResponse where
  "LoginResponse_default =
     \<lparr>lrs_meta = RpcMeta_default, lrs_user_id = 0, lrs_username = [], lrs_token = [], lrs_role = []\<rparr>"

record GetProfileRequest =
  prq_user_id :: int

record UserProfile =
  up_user_id :: int
  up_username :: string
  up_email :: string
  up_role :: string

record GetProfileResponse =
  prs_meta :: RpcMeta
  prs_profile :: UserProfile

definition GetProfileResponse_default :: GetProfileResponse where
  "GetProfileResponse_default =
     \<lparr>prs_meta = RpcMeta_default,
      prs_profile = \<lparr>up_user_id = 0, up_username = [], up_email = [], up_role = []\<rparr>\<rparr>"

record CreateFileMetaRequest =
  cfq_filename :: string
  cfq_size :: int
  cfq_content_type :: string
  cfq_owner_user_id :: int

record CreateFileMetaResponse =
  cfs_meta :: RpcMeta
  cfs_file_id :: string

definition CreateFileMetaResponse_default :: CreateFileMetaResponse where
  "CreateFileMetaResponse_default = \<lparr>cfs_meta = RpcMeta_default, cfs_file_id = []\<rparr>"

record GetFileMetaRequest =
  gfq_file_id :: string

record FileMeta =
  fm_file_id :: string
  fm_filename :: string
  fm_size :: int
  fm_content_type :: string
  fm_owner_user_id :: int
  fm_created_at :: int

definition FileMeta_default :: FileMeta where
  "FileMeta_default =
     \<lparr>fm_file_id = [], fm_filename = [], fm_size = 0, fm_content_type = [], fm_owner_user_id = 0,
      fm_created_at = 0\<rparr>"

record GetFileMetaResponse =
  gfs_meta :: RpcMeta
  gfs_file :: FileMeta

definition GetFileMetaResponse_default :: GetFileMetaResponse where
  "GetFileMetaResponse_default = \<lparr>gfs_meta = RpcMeta_default, gfs_file = FileMeta_default\<rparr>"

record CreateTaskRequest =
  ctq_task_type :: string
  ctq_payload :: string
  ctq_user_id :: int

record CreateTaskResponse =
  cts_meta :: RpcMeta
  cts_task_id :: string

definition CreateTaskResponse_default :: CreateTaskResponse where
  "CreateTaskResponse_default = \<lparr>cts_meta = RpcMeta_default, cts_task_id = []\<rparr>"

record GetTaskRequest =
  gtq_task_id :: string

record TaskInfo =
  ti_task_id :: string
  ti_task_type :: string
  ti_status :: int
  ti_result :: string
  ti_user_id :: int
  ti_created_at :: int
  ti_updated_at :: int

definition TaskInfo_default :: TaskInfo where
  "TaskInfo_default =
     \<lparr>ti_task_id = [], ti_task_type = [], ti_status = 0, ti_result = [], ti_user_id = 0,
      ti_created_at = 0, ti_updated_at = 0\<rparr>"

record GetTaskResponse =
  gts_meta :: RpcMeta
  gts_task :: TaskInfo

definition GetTaskResponse_default :: GetTaskResponse where
  "GetTaskResponse_default = \<lparr>gts_meta = RpcMeta_default, gts_task = TaskInfo_default\<rparr>"

record TaskEvent =
  ev_task_id :: string
  ev_status :: int
  ev_message :: string
  ev_timestamp :: int

definition TASK_STATUS_PENDING :: int where
  "TASK_STATUS_PENDING = 1"

section \<open>Shared helpers of the services\<close>

definition FillMeta :: "RpcCode \<Rightarrow> string \<Rightarrow> RpcContext \<Rightarrow> World \<Rightarrow> RpcMeta \<times> World" where
  "FillMeta c message ctx w =
     (case rpc_ElapsedMs ctx w of (ms, w') \<Rightarrow>
        (\<lparr>meta_code = c, meta_message = message, meta_request_id = rpc_request_id ctx, meta_cost_ms = ms\<rparr>, w'))"

text \<open>\<open>Some\<close> metadata when the call must stop, with the deadline cancelled.\<close>

definition FillTimeoutIfCancelled :: "RpcContext \<Rightarrow> World \<Rightarrow> RpcMeta option \<times> RpcContext \<times> World" where
  "FillTimeoutIfCancelled ctx w =
     (case rpc_DeadlineExceeded ctx w of (exceeded, w1) \<Rightarrow>
        if \<not> exceeded then (None, ctx, w1)
        else let ctx1 = rpc_CancelDeadline ''deadline exceeded'' ctx in
          case FillMeta RpcCode.RPC_TIMEOUT ''deadline exceeded'' ctx1 w1 of (meta, w2) \<Rightarrow>
            (Some meta, ctx1, w2))"

definition svc_NowUnixSeconds :: "World \<Rightarrow> int \<times> World" where
  "svc_NowUnixSeconds w = (case system_now w of (t, w') \<Rightarrow> (ns_to_s t, w'))"

section \<open>What every service call keeps\<close>

text \<open>A service only reads the clocks and at most cancels the deadline of its context.\<close>

definition rctx_extends :: "RpcContext \<Rightarrow> RpcContext \<Rightarrow> bool" where
  "rctx_extends ctx ctx' \<longleftrightarrow>
     ctx' = ctx\<lparr>rpc_deadline := rpc_deadline ctx'\<rparr> \<and>
     rel_option dl_extends (rpc_deadline ctx) (rpc_deadline ctx')"

lemma rctx_extends_refl [simp]: "rctx_extends ctx ctx"
  by (simp add: rctx_extends_def option.rel_refl)

lemma rctx_extends_Cancel [simp]: "rctx_extends ctx (rpc_CancelDeadline r ctx)"
  by (auto simp: rctx_extends_def rpc_CancelDeadline_def option.rel_map intro: option.rel_refl_strong)

lemma FillMeta_simps [simp]:
  "meta_code (fst (FillMeta c msg ctx w)) = c"
  "meta_message (fst (FillMeta c msg ctx w)) = msg"
  "meta_request_id (fst (FillMeta c msg ctx w)) = rpc_request_id ctx"
  by (simp_all add: FillMeta_def split: prod.splits)

lemma later_rpc_ElapsedMs [later_intros]: "rpc_ElapsedMs ctx w = (i, w') \<Longrightarrow> later w w'"
  by (auto simp: rpc_ElapsedMs_def intro: later_steady_now split: prod.splits)

lemma later_FillMeta [later_intros]: "FillMeta c msg ctx w = (meta, w') \<Longrightarrow> later w w'"
  by (auto simp: FillMeta_def intro: later_intros split: prod.splits)

lemma later_svc_NowUnixSeconds [later_intros]: "svc_NowUnixSeconds w = (i, w') \<Longrightarrow> later w w'"
  by (auto simp: svc_NowUnixSeconds_def intro: later_intros split: prod.splits)

lemma FillTimeoutIfCancelled_frame:
  assumes "FillTimeoutIfCancelled ctx w = (m, ctx', w')"
  shows "later w w' \<and> rctx_extends ctx ctx' \<and> (m = None \<longrightarrow> ctx' = ctx)"
proof -
  obtain e w1 where e: "rpc_DeadlineExceeded ctx w = (e, w1)" by fastforce
  obtain meta w2 where f:
    "FillMeta RpcCode.RPC_TIMEOUT ''deadline exceeded'' (rpc_CancelDeadline ''deadline exceeded'' ctx) w1 = (meta, w2)"
    by fastforce
  have "later w w1" "later w1 w2" using e f by (auto intro: later_intros)
  with assms e f show ?thesis
    by (auto simp: FillTimeoutIfCancelled_def intro: later_trans split: if_splits)
qed

lemma later_after_check:
  "FillTimeoutIfCancelled ctx w = (m, ctx1, w1) \<Longrightarrow> FillMeta c msg ctx1 w1 = (meta, w2) \<Longrightarrow>
   later w w2 \<and> rctx_extends ctx ctx1"
  using FillTimeoutIfCancelled_frame later_FillMeta later_trans by blast

lemma later_after_now:
  "FillTimeoutIfCancelled ctx w = (m, ctx1, w1) \<Longrightarrow> svc_NowUnixSeconds w1 = (i, w2) \<Longrightarrow>
   FillMeta c msg ctx1 w2 = (meta, w3) \<Longrightarrow> later w w3 \<and> rctx_extends ctx ctx1"
  using FillTimeoutIfCancelled_frame [of ctx w m ctx1 w1] later_FillMeta [of c msg ctx1 w2 meta w3]
    later_svc_NowUnixSeconds [of w1 i w2] later_trans [of w w1 w2] later_trans [of w w2 w3] by simp

text \<open>A call with an active deadline, or none, is not stopped.\<close>

definition rpc_active :: "RpcContext \<Rightarrow> World \<Rightarrow> bool" where
  "rpc_active ctx w \<longleftrightarrow> \<not> fst (rpc_DeadlineExceeded ctx w)"

lemma FillTimeoutIfCancelled_active:
  "rpc_active ctx w \<Longrightarrow> FillTimeoutIfCancelled ctx w = (None, ctx, snd (rpc_DeadlineExceeded ctx w))"
  by (cases "rpc_DeadlineExceeded ctx w") (simp add: FillTimeoutIfCancelled_def rpc_active_def)

end
