(* ===== verification/Users.thy ===== *)
theory Users
  imports Rpc
begin

text \<open>
  The user repositories of \<^verbatim>\<open>src/service/user_repository.cc\<close> and the user service of
  \<^verbatim>\<open>src/service/user_service.cc\<close>. The MySQL repository runs the \<^verbatim>\<open>mysql\<close>
  command through the shell; what that prints is the parameter \<open>popen\<close> (\<open>None\<close> when the
  pipe cannot be opened), a function of the command line for the duration of a query.
\<close>

section \<open>Repositories\<close>

record UserRecord =
  ur_user_id :: int
  ur_username :: string
  ur_password :: string
  ur_email :: string
  ur_role :: string

definition AdminUser :: UserRecord where
  "AdminUser =
     \<lparr>ur_user_id = 10001, ur_username = ''admin'', ur_password = ''123456'',
      ur_email = ''admin@example.com'', ur_role = ''admin''\<rparr>"

text \<open>The interface \<^verbatim>\<open>IUserRepository\<close>; the MySQL implementation may throw.\<close>

record UserRepository =
  repo_FindByUsername :: "string \<Rightarrow> UserRecord option result"
  repo_FindById :: "int \<Rightarrow> UserRecord option result"

definition InMemory_FindByUsername :: "string \<Rightarrow> UserRecord option" where
  "InMemory_FindByUsername username =
     (let user = AdminUser in if username = ur_username user then Some user else None)"

definition InMemory_FindById :: "int \<Rightarrow> UserRecord option" where
  "InMemory_FindById user_id =
     (let user = AdminUser in if user_id = ur_user_id user then Some user else None)"

definition InMemoryUserRepository :: UserRepository where
  "InMemoryUserRepository =
     \<lparr>repo_FindByUsername = (\<lambda>u. Inr (InMemory_FindByUsername u)),
      repo_FindById = (\<lambda>i. Inr (InMemory_FindById i))\<rparr>"

definition shell_quote_char :: "char \<Rightarrow> string" where
  "shell_quote_char c = (if c = QUOTE \<or> c = BACKSLASH then [BACKSLASH, c] else [c])"

definition ShellQuote :: "string \<Rightarrow> string" where
  "ShellQuote value = [QUOTE] @ concat (map shell_quote_char value) @ [QUOTE]"

abbreviation APOS :: char where "APOS \<equiv> CHR 0x27"

definition sql_quote_char :: "char \<Rightarrow> string" where
  "sql_quote_char c = (if c = APOS then [APOS, APOS] else [c])"

definition SqlQuote :: "string \<Rightarrow> string" where
  "SqlQuote value = [APOS] @ concat (map sql_quote_char value) @ [APOS]"

text \<open>
  The loop of \<^verbatim>\<open>SplitTabLine\<close> from position \<open>start\<close> on, on the text that begins
  there: the field up to the next tab, and the rest after the tab if there is one.
\<close>

function SplitTabLine :: "string \<Rightarrow> string list" where
  "SplitTabLine line =
     (let field = takeWhile (\<lambda>c. c \<noteq> TAB) line; rest = dropWhile (\<lambda>c. c \<noteq> TAB) line
      in if rest = [] then [field] else field # SplitTabLine (tl rest))"
  by pat_completeness auto
termination
proof (relation "measure length", goal_cases)
  case (2 line field rest)
  then have "rest \<noteq> []" "length rest \<le> length line" by (simp_all add: length_dropWhile_le)
  then have "length (tl rest) < length line" by (cases rest) auto
  then show ?case by simp
qed simp

declare SplitTabLine.simps [simp del]

definition BuildCommand :: "MysqlConfig \<Rightarrow> string \<Rightarrow> string" where
  "BuildCommand cfg sql =
     ''mysql --batch --raw --skip-column-names'' @
     '' -h '' @ ShellQuote (my_host cfg) @
     '' -P '' @ show_nat (my_port cfg) @
     '' -u '' @ ShellQuote (my_user cfg) @
     (if my_password cfg \<noteq> [] then '' --password='' @ ShellQuote (my_password cfg) else []) @
     '' '' @ ShellQuote (my_database cfg) @
     '' -e '' @ ShellQuote sql"

text \<open>The loop that pops line ends off the output.\<close>

definition strip_line_end :: "string \<Rightarrow> string" where
  "strip_line_end s = rev (dropWhile (\<lambda>c. c = LF \<or> c = CR) (rev s))"

definition QueryOne :: "MysqlConfig \<Rightarrow> (string \<Rightarrow> string option) \<Rightarrow> string \<Rightarrow> UserRecord option result" where
  "QueryOne cfg popen where_clause =
     (let sql = ''SELECT user_id, username, password, email, role FROM users WHERE '' @ where_clause @ '' LIMIT 1''
      in case popen (BuildCommand cfg sql) of
           None \<Rightarrow> Inr None
         | Some text \<Rightarrow>
             let output = strip_line_end text in
             if output = [] then Inr None
             else let fields = SplitTabLine output in
               if length fields < 5 then Inr None
               else case stoll (fields ! 0) of
                      Inl e \<Rightarrow> Inl e
                    | Inr user_id \<Rightarrow>
                        Inr (Some \<lparr>ur_user_id = user_id, ur_username = fields ! 1, ur_password = fields ! 2,
                                   ur_email = fields ! 3, ur_role = fields ! 4\<rparr>))"

definition Mysql_FindByUsername ::
  "MysqlConfig \<Rightarrow> (string \<Rightarrow> string option) \<Rightarrow> string \<Rightarrow> UserRecord option result" where
  "Mysql_FindByUsername cfg popen username = QueryOne cfg popen (''username='' @ SqlQuote username)"

definition Mysql_FindById ::
  "MysqlConfig \<Rightarrow> (string \<Rightarrow> string option) \<Rightarrow> int \<Rightarrow> UserRecord option result" where
  "Mysql_FindById cfg popen user_id = QueryOne cfg popen (''user_id='' @ show_int user_id)"

definition MysqlCliUserRepository :: "MysqlConfig \<Rightarrow> (string \<Rightarrow> string option) \<Rightarrow> UserRepository" where
  "MysqlCliUserRepository cfg popen =
     \<lparr>repo_FindByUsername = Mysql_FindByUsername cfg popen, repo_FindById = Mysql_FindById cfg popen\<rparr>"

section \<open>The user service\<close>

definition UserService_Login ::
  "UserRepository \<Rightarrow> RpcContext \<Rightarrow> LoginRequest \<Rightarrow> World \<Rightarrow> LoginResponse result \<times> RpcContext \<times> World" where
  "UserService_Login repo ctx request w =
     (case FillTimeoutIfCancelled ctx w of
        (Some meta, ctx1, w1) \<Rightarrow> (Inr (LoginResponse_default\<lparr>lrs_meta := meta\<rparr>), ctx1, w1)
      | (None, ctx1, w1) \<Rightarrow>
          if lrq_username request = [] \<or> lrq_password request = []
          then (case FillMeta RPC_INVALID_ARGUMENT ''username or password is empty'' ctx1 w1 of
                  (meta, w2) \<Rightarrow> (Inr (LoginResponse_default\<lparr>lrs_meta := meta\<rparr>), ctx1, w2))
          else case repo_FindByUsername repo (lrq_username request) of
            Inl e \<Rightarrow> (Inl e, ctx1, w1)
          | Inr found \<Rightarrow>
              (case found of
                 Some user \<Rightarrow>
                   if ur_password user \<noteq> lrq_password request
                   then (case FillMeta RPC_UNAUTHORIZED ''invalid username or password'' ctx1 w1 of
                           (meta, w2) \<Rightarrow> (Inr (LoginResponse_default\<lparr>lrs_meta := meta\<rparr>), ctx1, w2))
                   else (case FillMeta RPC_OK ''ok'' ctx1 w1 of
                           (meta, w2) \<Rightarrow>
                             (Inr \<lparr>lrs_meta = meta, lrs_user_id = ur_user_id user, lrs_username = ur_username user,
                                   lrs_token = ''mock-token-'' @ rpc_request_id ctx1, lrs_role = ur_role user\<rparr>,
                              ctx1, w2))
               | None \<Rightarrow>
                   (case FillMeta RPC_UNAUTHORIZED ''invalid username or password'' ctx1 w1 of
                      (meta, w2) \<Rightarrow> (Inr (LoginResponse_default\<lparr>lrs_meta := meta\<rparr>), ctx1, w2))))"

definition UserService_GetProfile ::
  "UserRepository \<Rightarrow> RpcContext \<Rightarrow> GetProfileRequest \<Rightarrow> World \<Rightarrow> GetProfileResponse result \<times> RpcContext \<times> World" where
  "UserService_GetProfile repo ctx request w =
     (case FillTimeoutIfCancelled ctx w of
        (Some meta, ctx1, w1) \<Rightarrow> (Inr (GetProfileResponse_default\<lparr>prs_meta := meta\<rparr>), ctx1, w1)
      | (None, ctx1, w1) \<Rightarrow>
          (case repo_FindById repo (prq_user_id request) of
             Inl e \<Rightarrow> (Inl e, ctx1, w1)
           | Inr None \<Rightarrow>
               (case FillMeta RPC_NOT_FOUND ''user not found'' ctx1 w1 of
                  (meta, w2) \<Rightarrow> (Inr (GetProfileResponse_default\<lparr>prs_meta := meta\<rparr>), ctx1, w2))
           | Inr (Some user) \<Rightarrow>
               (case FillMeta RPC_OK ''ok'' ctx1 w1 of
                  (meta, w2) \<Rightarrow>
                    (Inr \<lparr>prs_meta = meta,
                          prs_profile = \<lparr>up_user_id = ur_user_id user, up_username = ur_username user,
                                         up_email = ur_email user, up_role = ur_role user\<rparr>\<rparr>, ctx1, w2))))"

text \<open>
  The interface \<^verbatim>\<open>IUserService\<close> that the upstream client calls, over a state of type
  \<^typ>\<open>'u\<close>, and the implementation above as an instance of it.
\<close>

record 'u UserServiceOps =
  us_Login :: "RpcContext \<Rightarrow> LoginRequest \<Rightarrow> World \<Rightarrow> 'u \<Rightarrow> LoginResponse result \<times> RpcContext \<times> World \<times> 'u"
  us_GetProfile :: "RpcContext \<Rightarrow> GetProfileRequest \<Rightarrow> World \<Rightarrow> 'u \<Rightarrow> GetProfileResponse result \<times> RpcContext \<times> World \<times> 'u"

definition UserServiceImpl :: "UserRepository \<Rightarrow> unit UserServiceOps" where
  "UserServiceImpl repo =
     \<lparr>us_Login = (\<lambda>ctx req w u. case UserService_Login repo ctx req w of (r, ctx', w') \<Rightarrow> (r, ctx', w', u)),
      us_GetProfile = (\<lambda>ctx req w u. case UserService_GetProfile repo ctx req w of (r, ctx', w') \<Rightarrow> (r, ctx', w', u))\<rparr>"

section \<open>The contract of a user service\<close>

locale user_service =
  fixes ops :: "'u UserServiceOps"
  assumes login_frame: "us_Login ops ctx lreq w u = (r, ctx', w', u') \<Longrightarrow> later w w' \<and> rctx_extends ctx ctx'"
    and profile_frame: "us_GetProfile ops ctx preq w u = (r', ctx', w', u') \<Longrightarrow> later w w' \<and> rctx_extends ctx ctx'"

interpretation impl: user_service "UserServiceImpl repo"
  by unfold_locales
    (auto simp: UserServiceImpl_def UserService_Login_def UserService_GetProfile_def
      dest: later_after_check FillTimeoutIfCancelled_frame
      split: prod.splits option.splits sum.splits if_splits)

section \<open>Rows of the mysql client\<close>

lemma SplitTabLine_join:
  assumes "TAB \<notin> set x"
  shows "SplitTabLine (x @ TAB # xs) = x # SplitTabLine xs" "SplitTabLine x = [x]"
proof -
  have t: "takeWhile (\<lambda>c. c \<noteq> TAB) x = x" "dropWhile (\<lambda>c. c \<noteq> TAB) x = []"
    using assms by auto
  show "SplitTabLine (x @ TAB # xs) = x # SplitTabLine xs"
    using assms by (subst SplitTabLine.simps) (simp add: takeWhile_append dropWhile_append)
  show "SplitTabLine x = [x]" using t by (subst SplitTabLine.simps) simp
qed

lemma strip_line_end_append:
  assumes "s \<noteq> []" "last s \<notin> {LF, CR}" "set e \<subseteq> {LF, CR}"
  shows "strip_line_end (s @ e) = s"
proof -
  obtain s' c where s: "s = s' @ [c]" using assms(1) by (metis rev_exhaust)
  have "dropWhile (\<lambda>c. c = LF \<or> c = CR) (rev e @ rev s) = rev s"
    using assms(2,3) s by (subst dropWhile_append2) auto
  then show ?thesis by (simp add: strip_line_end_def)
qed

section \<open>Quoting for the shell and for SQL\<close>

text \<open>
  How a POSIX shell reads a double-quoted word (after the opening quote): a backslash takes
  the special meaning off a dollar sign, a backquote, a double quote or a backslash, and
  joins lines; a dollar sign or backquote that is not escaped is active (it starts an
  expansion or a command substitution).
\<close>

datatype sh_piece = Lit char | Active char

abbreviation DOLLAR :: char where "DOLLAR \<equiv> CHR 0x24"
abbreviation BACKQUOTE :: char where "BACKQUOTE \<equiv> CHR 0x60"

definition sh_cons :: "sh_piece \<Rightarrow> (sh_piece list \<times> string) option \<Rightarrow> (sh_piece list \<times> string) option" where
  "sh_cons p r = map_option (\<lambda>(ps, s). (p # ps, s)) r"

fun sh_dquoted :: "string \<Rightarrow> (sh_piece list \<times> string) option" where
  "sh_dquoted [] = None"
| "sh_dquoted [c] = (if c = QUOTE then Some ([], []) else None)"
| "sh_dquoted (c # d # s) =
     (if c = QUOTE then Some ([], d # s)
      else if c = BACKSLASH then
        if d \<in> {QUOTE, BACKSLASH, DOLLAR, BACKQUOTE} then sh_cons (Lit d) (sh_dquoted s)
        else if d = LF then sh_dquoted s
        else sh_cons (Lit c) (sh_dquoted (d # s))
      else if c \<in> {DOLLAR, BACKQUOTE} then sh_cons (Active c) (sh_dquoted (d # s))
      else sh_cons (Lit c) (sh_dquoted (d # s)))"

definition sh_word :: "string \<Rightarrow> (sh_piece list \<times> string) option" where
  "sh_word s = (if take 1 s = [QUOTE] then sh_dquoted (drop 1 s) else None)"

definition sh_char :: "char \<Rightarrow> sh_piece" where
  "sh_char c = (if c \<in> {DOLLAR, BACKQUOTE} then Active c else Lit c)"

lemma sh_dquoted_step:
  "s \<noteq> [] \<Longrightarrow> sh_dquoted (shell_quote_char c @ s) = sh_cons (sh_char c) (sh_dquoted s)"
  by (cases s) (auto simp: shell_quote_char_def sh_char_def)

lemma sh_dquoted_quoted:
  "sh_dquoted (concat (map shell_quote_char v) @ QUOTE # rest) = Some (map sh_char v, rest)"
proof (induction v)
  case Nil
  show ?case by (cases rest) simp_all
next
  case (Cons c v)
  then show ?case by (simp add: sh_dquoted_step sh_cons_def)
qed

text \<open>
  How MySQL reads a single-quoted string literal (after the opening quote) in its default
  mode: a doubled quote is a quote, and a backslash escapes the next character.
\<close>

definition mysql_unescape :: "char \<Rightarrow> string" where
  "mysql_unescape d =
     (if d = CHR ''0'' then [CHR 0x00] else if d = CHR ''b'' then [CHR 0x08]
      else if d = CHR ''n'' then [LF] else if d = CHR ''r'' then [CR] else if d = CHR ''t'' then [TAB]
      else if d = CHR ''Z'' then [CHR 0x1A]
      else if d = CHR ''%'' \<or> d = CHR ''_'' then [BACKSLASH, d] else [d])"

fun mysql_quoted :: "string \<Rightarrow> (string \<times> string) option" where
  "mysql_quoted [] = None"
| "mysql_quoted [c] = (if c = APOS then Some ([], []) else None)"
| "mysql_quoted (c # d # s) =
     (if c = BACKSLASH then map_option (\<lambda>(v, r). (mysql_unescape d @ v, r)) (mysql_quoted s)
      else if c = APOS then
        if d = APOS then map_option (\<lambda>(v, r). (APOS # v, r)) (mysql_quoted s) else Some ([], d # s)
      else map_option (\<lambda>(v, r). (c # v, r)) (mysql_quoted (d # s)))"

definition mysql_string :: "string \<Rightarrow> (string \<times> string) option" where
  "mysql_string s = (if take 1 s = [APOS] then mysql_quoted (drop 1 s) else None)"

lemma mysql_quoted_step:
  "c \<noteq> BACKSLASH \<Longrightarrow> s \<noteq> [] \<Longrightarrow>
   mysql_quoted (sql_quote_char c @ s) = map_option (\<lambda>(v, r). (c # v, r)) (mysql_quoted s)"
  by (cases s) (auto simp: sql_quote_char_def)

lemma mysql_quoted_value:
  assumes "BACKSLASH \<notin> set v" "take 1 rest \<noteq> [APOS]"
  shows "mysql_quoted (concat (map sql_quote_char v) @ APOS # rest) = Some (v, rest)"
  using assms(1)
proof (induction v)
  case Nil
  show ?case using assms(2) by (cases rest) auto
next
  case (Cons c v)
  then have "c \<noteq> BACKSLASH" by auto
  with Cons show ?case by (simp add: mysql_quoted_step)
qed

section \<open>Properties\<close>

text \<open>
  C34: Log-in succeeds exactly for a non-empty name and password that the repository knows,
  and then reports the stored id, name and role; in every other case that is not a timeout
  or a repository failure the answer is the matching error code and carries no user data.
\<close>

theorem Login_outcomes:
  assumes "rpc_active ctx w"
  shows "\<exists>r ctx' w'. UserService_Login repo ctx req w = (r, ctx', w') \<and>
    (if lrq_username req = [] \<or> lrq_password req = []
     then \<exists>rsp. r = Inr rsp \<and> meta_code (lrs_meta rsp) = RPC_INVALID_ARGUMENT \<and> lrs_user_id rsp = 0 \<and> lrs_token rsp = []
     else case repo_FindByUsername repo (lrq_username req) of
         Inl e \<Rightarrow> r = Inl e
       | Inr found \<Rightarrow>
           (\<exists>rsp. r = Inr rsp \<and>
             (case found of
                Some user \<Rightarrow>
                  if ur_password user = lrq_password req
                  then meta_code (lrs_meta rsp) = RPC_OK \<and> lrs_user_id rsp = ur_user_id user \<and>
                       lrs_username rsp = ur_username user \<and> lrs_role rsp = ur_role user
                  else meta_code (lrs_meta rsp) = RPC_UNAUTHORIZED \<and> lrs_user_id rsp = 0 \<and> lrs_token rsp = []
              | None \<Rightarrow> meta_code (lrs_meta rsp) = RPC_UNAUTHORIZED \<and> lrs_user_id rsp = 0 \<and> lrs_token rsp = [])))"
  unfolding UserService_Login_def FillTimeoutIfCancelled_active [OF assms]
  by (auto simp: LoginResponse_default_def FillMeta_def split: prod.splits option.splits sum.splits)

theorem Login_outcomes_witness:
  "\<exists>r ctx' w'. UserService_Login InMemoryUserRepository
     (fst (RpcContext_default \<lparr>steady_ns = (\<lambda>n. int n), steady_reads = 0, system_ns = (\<lambda>n. int n), system_reads = 0\<rparr>))
     \<lparr>lrq_username = ''admin'', lrq_password = ''123456''\<rparr>
     \<lparr>steady_ns = (\<lambda>n. int n), steady_reads = 0, system_ns = (\<lambda>n. int n), system_reads = 0\<rparr> = (r, ctx', w') \<and>
   (\<exists>rsp. r = Inr rsp \<and> lrs_user_id rsp = 10001 \<and> lrs_role rsp = ''admin'')"
proof -
  let ?w = "\<lparr>steady_ns = (\<lambda>n. int n), steady_reads = 0, system_ns = (\<lambda>n. int n), system_reads = 0\<rparr>"
  have "rpc_active (fst (RpcContext_default ?w)) ?w"
    by (simp add: rpc_active_def rpc_DeadlineExceeded_def RpcContext_default_def steady_now_def)
  from Login_outcomes [OF this, of InMemoryUserRepository "\<lparr>lrq_username = ''admin'', lrq_password = ''123456''\<rparr>"]
  show ?thesis by (auto simp: InMemoryUserRepository_def InMemory_FindByUsername_def AdminUser_def)
qed

text \<open>
  A row that the mysql client prints, five values without tabs or line ends separated by
  tabs, comes back as the record it encodes.
\<close>

theorem QueryOne_reads_row:
  assumes "popen (BuildCommand cfg (''SELECT user_id, username, password, email, role FROM users WHERE '' @ clause @ '' LIMIT 1'')) =
      Some (show_int uid @ [TAB] @ name @ [TAB] @ pw @ [TAB] @ mail @ [TAB] @ role @ [LF])"
    and "in_int64 uid" "\<forall>s \<in> {name, pw, mail, role}. TAB \<notin> set s" "role \<noteq> []" "last role \<notin> {LF, CR}"
  shows "QueryOne cfg popen clause =
    Inr (Some \<lparr>ur_user_id = uid, ur_username = name, ur_password = pw, ur_email = mail, ur_role = role\<rparr>)"
proof -
  let ?row = "show_int uid @ [TAB] @ name @ [TAB] @ pw @ [TAB] @ mail @ [TAB] @ role"
  have "strip_line_end (?row @ [LF]) = ?row"
    by (rule strip_line_end_append) (use assms(4,5) in auto)
  then have strip: "strip_line_end (show_int uid @ [TAB] @ name @ [TAB] @ pw @ [TAB] @ mail @ [TAB] @ role @ [LF]) = ?row"
    by simp
  have "TAB \<notin> set (show_int uid)" using show_int_chars [of uid] by (auto simp: isdigit_def)
  then have "SplitTabLine ?row = [show_int uid, name, pw, mail, role]"
    using assms(3) by (simp add: SplitTabLine_join)
  then show ?thesis
    using assms(1,2) strip by (simp add: QueryOne_def Let_def stoll_show_int)
qed

theorem QueryOne_reads_row_witness:
  "QueryOne MysqlConfig_default (\<lambda>cmd. Some (show_int 7 @ [TAB] @ ''bob'' @ [TAB] @ ''pw'' @ [TAB] @ ''b@x'' @ [TAB] @ ''user'' @ [LF])) ''user_id=7'' =
    Inr (Some \<lparr>ur_user_id = 7, ur_username = ''bob'', ur_password = ''pw'', ur_email = ''b@x'', ur_role = ''user''\<rparr>)"
  by (rule QueryOne_reads_row) (simp_all add: in_int64_def INT64_MIN_def INT64_MAX_def)

text \<open>
  The shell reads a quoted value back as one word with the same characters, but every
  dollar sign and backquote of the value stays active in it: quoting does not stop command
  substitution.
\<close>

theorem ShellQuote_word:
  "sh_word (ShellQuote v @ rest) =
    Some (map (\<lambda>c. if c \<in> {DOLLAR, BACKQUOTE} then Active c else Lit c) v, rest)"
  using sh_dquoted_quoted [of v rest]
  by (simp add: sh_word_def ShellQuote_def sh_char_def [abs_def])



end
