(* ===== verification/Stores.thy ===== *)
theory Stores
  imports Rpc "HOL-Library.Word"
begin

text \<open>
  The two services that keep objects under generated ids: file metadata
  (\<^verbatim>\<open>src/service/file_meta_service.cc\<close>) and tasks
  (\<^verbatim>\<open>src/service/task_service.cc\<close>). Each operation runs under the service's mutex
  and is one step; the counters are 64-bit words.
\<close>

section \<open>File metadata\<close>

record FileMetaServiceImpl =
  fms_files :: "string \<Rightarrow> FileMeta option"
  fms_file_seq :: "64 word"

definition FileMetaServiceImpl_default :: FileMetaServiceImpl where
  "FileMetaServiceImpl_default = \<lparr>fms_files = Map.empty, fms_file_seq = 0\<rparr>"

definition file_key :: "64 word \<Rightarrow> string" where
  "file_key n = ''file-'' @ show_nat (unat n)"

definition CreateFileMeta ::
  "RpcContext \<Rightarrow> CreateFileMetaRequest \<Rightarrow> World \<Rightarrow> FileMetaServiceImpl \<Rightarrow>
   CreateFileMetaResponse \<times> RpcContext \<times> World \<times> FileMetaServiceImpl" where
  "CreateFileMeta ctx request w s =
     (case FillTimeoutIfCancelled ctx w of
        (Some meta, ctx1, w1) \<Rightarrow> (CreateFileMetaResponse_default\<lparr>cfs_meta := meta\<rparr>, ctx1, w1, s)
      | (None, ctx1, w1) \<Rightarrow>
          if cfq_filename request = [] \<or> cfq_size request < 0
          then (case FillMeta RPC_INVALID_ARGUMENT ''invalid file meta'' ctx1 w1 of
                  (meta, w2) \<Rightarrow> (CreateFileMetaResponse_default\<lparr>cfs_meta := meta\<rparr>, ctx1, w2, s))
          else
            let s1 = s\<lparr>fms_file_seq := fms_file_seq s + 1\<rparr>;
                file_id = file_key (fms_file_seq s1)
            in case svc_NowUnixSeconds w1 of (now, w2) \<Rightarrow>
              let file = \<lparr>fm_file_id = file_id, fm_filename = cfq_filename request,
                          fm_size = cfq_size request, fm_content_type = cfq_content_type request,
                          fm_owner_user_id = cfq_owner_user_id request, fm_created_at = now\<rparr>;
                  s2 = s1\<lparr>fms_files := (fms_files s1)(file_id \<mapsto> file)\<rparr>
              in case FillMeta RPC_OK ''ok'' ctx1 w2 of (meta, w3) \<Rightarrow>
                   (\<lparr>cfs_meta = meta, cfs_file_id = file_id\<rparr>, ctx1, w3, s2))"

definition GetFileMeta ::
  "RpcContext \<Rightarrow> GetFileMetaRequest \<Rightarrow> World \<Rightarrow> FileMetaServiceImpl \<Rightarrow>
   GetFileMetaResponse \<times> RpcContext \<times> World" where
  "GetFileMeta ctx request w s =
     (case FillTimeoutIfCancelled ctx w of
        (Some meta, ctx1, w1) \<Rightarrow> (GetFileMetaResponse_default\<lparr>gfs_meta := meta\<rparr>, ctx1, w1)
      | (None, ctx1, w1) \<Rightarrow>
          (case fms_files s (gfq_file_id request) of
             None \<Rightarrow>
               (case FillMeta RPC_NOT_FOUND ''file not found'' ctx1 w1 of
                  (meta, w2) \<Rightarrow> (GetFileMetaResponse_default\<lparr>gfs_meta := meta\<rparr>, ctx1, w2))
           | Some file \<Rightarrow>
               (case FillMeta RPC_OK ''ok'' ctx1 w1 of
                  (meta, w2) \<Rightarrow> (\<lparr>gfs_meta = meta, gfs_file = file\<rparr>, ctx1, w2))))"

section \<open>Tasks\<close>

record TaskServiceImpl =
  tms_tasks :: "string \<Rightarrow> TaskInfo option"
  tms_task_seq :: "64 word"

definition TaskServiceImpl_default :: TaskServiceImpl where
  "TaskServiceImpl_default = \<lparr>tms_tasks = Map.empty, tms_task_seq = 0\<rparr>"

definition task_key :: "64 word \<Rightarrow> string" where
  "task_key n = ''task-'' @ show_nat (unat n)"

definition CreateTask ::
  "RpcContext \<Rightarrow> CreateTaskRequest \<Rightarrow> World \<Rightarrow> TaskServiceImpl \<Rightarrow>
   CreateTaskResponse \<times> RpcContext \<times> World \<times> TaskServiceImpl" where
  "CreateTask ctx request w s =
     (case FillTimeoutIfCancelled ctx w of
        (Some meta, ctx1, w1) \<Rightarrow> (CreateTaskResponse_default\<lparr>cts_meta := meta\<rparr>, ctx1, w1, s)
      | (None, ctx1, w1) \<Rightarrow>
          if ctq_task_type request = []
          then (case FillMeta RPC_INVALID_ARGUMENT ''task_type is empty'' ctx1 w1 of
                  (meta, w2) \<Rightarrow> (CreateTaskResponse_default\<lparr>cts_meta := meta\<rparr>, ctx1, w2, s))
          else
            let s1 = s\<lparr>tms_task_seq := tms_task_seq s + 1\<rparr>;
                task_id = task_key (tms_task_seq s1)
            in case svc_NowUnixSeconds w1 of (now, w2) \<Rightarrow>
              let task = \<lparr>ti_task_id = task_id, ti_task_type = ctq_task_type request,
                          ti_status = TASK_STATUS_PENDING, ti_result = [],
                          ti_user_id = ctq_user_id request, ti_created_at = now, ti_updated_at = now\<rparr>;
                  s2 = s1\<lparr>tms_tasks := (tms_tasks s1)(task_id \<mapsto> task)\<rparr>
              in case FillMeta RPC_OK ''ok'' ctx1 w2 of (meta, w3) \<Rightarrow>
                   (\<lparr>cts_meta = meta, cts_task_id = task_id\<rparr>, ctx1, w3, s2))"

definition GetTask ::
  "RpcContext \<Rightarrow> GetTaskRequest \<Rightarrow> World \<Rightarrow> TaskServiceImpl \<Rightarrow>
   GetTaskResponse \<times> RpcContext \<times> World" where
  "GetTask ctx request w s =
     (case FillTimeoutIfCancelled ctx w of
        (Some meta, ctx1, w1) \<Rightarrow> (GetTaskResponse_default\<lparr>gts_meta := meta\<rparr>, ctx1, w1)
      | (None, ctx1, w1) \<Rightarrow>
          (case tms_tasks s (gtq_task_id request) of
             None \<Rightarrow>
               (case FillMeta RPC_NOT_FOUND ''task not found'' ctx1 w1 of
                  (meta, w2) \<Rightarrow> (GetTaskResponse_default\<lparr>gts_meta := meta\<rparr>, ctx1, w2))
           | Some task \<Rightarrow>
               (case FillMeta RPC_OK ''ok'' ctx1 w1 of
                  (meta, w2) \<Rightarrow> (\<lparr>gts_meta = meta, gts_task = task\<rparr>, ctx1, w2))))"

text \<open>
  \<^verbatim>\<open>SubmitTaskEvent\<close> answers nothing; the logging of a cancelled call reads the clock
  once more for the reason.
\<close>

definition SubmitTaskEvent ::
  "RpcContext \<Rightarrow> TaskEvent \<Rightarrow> World \<Rightarrow> TaskServiceImpl \<Rightarrow> RpcContext \<times> World \<times> TaskServiceImpl" where
  "SubmitTaskEvent ctx event w s =
     (case rpc_DeadlineExceeded ctx w of (exceeded, w1) \<Rightarrow>
        if exceeded
        then let ctx1 = rpc_CancelDeadline ''deadline exceeded'' ctx in
             (case rpc_DeadlineReason ctx1 w1 of (_, w2) \<Rightarrow> (ctx1, w2, s))
        else case tms_tasks s (ev_task_id event) of
               None \<Rightarrow> (ctx, w1, s)
             | Some task \<Rightarrow>
                 (ctx, w1,
                  s\<lparr>tms_tasks := (tms_tasks s)(ev_task_id event \<mapsto>
                       task\<lparr>ti_status := ev_status event, ti_result := ev_message event,
                            ti_updated_at := ev_timestamp event\<rparr>)\<rparr>))"

section \<open>The contract of a store with generated ids\<close>

text \<open>
  \<open>add v s\<close> puts \<open>v\<close> under the id of the incremented counter. From this alone: as long
  as the counter has not wrapped around, a new id is fresh, nothing that was stored is lost,
  and \<open>n\<close> additions give \<open>n\<close> different ids.
\<close>

locale id_store =
  fixes tbl :: "'s \<Rightarrow> string \<Rightarrow> 'v option"
    and sq :: "'s \<Rightarrow> 64 word"
    and key :: "64 word \<Rightarrow> string"
    and add :: "'v \<Rightarrow> 's \<Rightarrow> 's"
  assumes key_inj: "key a = key b \<longleftrightarrow> a = b"
    and sq_add: "sq (add v s) = sq s + 1"
    and tbl_add: "tbl (add v s) = (tbl s)(key (sq s + 1) \<mapsto> v)"
begin

definition issued :: "'s \<Rightarrow> bool" where
  "issued s \<longleftrightarrow> (\<forall>k \<in> dom (tbl s). \<exists>n. k = key n \<and> 1 \<le> unat n \<and> unat n \<le> unat (sq s))"

lemma unat_next: "unat (n :: 64 word) + 1 < 2 ^ 64 \<Longrightarrow> unat (n + 1) = unat n + 1"
  by (simp add: unat_word_ariths)

lemma issued_fresh:
  assumes "issued s" "unat (sq s) + 1 < 2 ^ 64"
  shows "tbl s (key (sq s + 1)) = None"
proof (rule ccontr)
  assume "tbl s (key (sq s + 1)) \<noteq> None"
  then obtain n where "key (sq s + 1) = key n" "unat n \<le> unat (sq s)"
    using assms(1) by (auto simp: issued_def)
  then have "unat (sq s + 1) \<le> unat (sq s)" by (simp add: key_inj)
  with unat_next [OF assms(2)] show False by simp
qed

lemma issued_add:
  assumes "issued s" "unat (sq s) + 1 < 2 ^ 64"
  shows "issued (add v s)"
proof -
  have u: "unat (sq s + 1) = unat (sq s) + 1" by (rule unat_next [OF assms(2)])
  show ?thesis
    unfolding issued_def sq_add tbl_add
  proof
    fix k assume "k \<in> dom ((tbl s)(key (sq s + 1) \<mapsto> v))"
    then have "k = key (sq s + 1) \<or> (\<exists>n. k = key n \<and> 1 \<le> unat n \<and> unat n \<le> unat (sq s))"
      using assms(1) by (auto simp: issued_def)
    then show "\<exists>n. k = key n \<and> 1 \<le> unat n \<and> unat n \<le> unat (sq s + 1)"
    proof
      assume "k = key (sq s + 1)"
      with u show ?thesis by (intro exI [of _ "sq s + 1"]) simp
    next
      assume "\<exists>n. k = key n \<and> 1 \<le> unat n \<and> unat n \<le> unat (sq s)"
      then obtain n where "k = key n" "1 \<le> unat n" "unat n \<le> unat (sq s)" by blast
      with u show ?thesis by (intro exI [of _ n]) simp
    qed
  qed
qed

lemma adds:
  assumes "issued s" "unat (sq s) + length vs < 2 ^ 64"
  shows "issued (fold add vs s) \<and> unat (sq (fold add vs s)) = unat (sq s) + length vs \<and>
    (\<forall>k v. tbl s k = Some v \<longrightarrow> tbl (fold add vs s) k = Some v)"
  using assms
proof (induction vs arbitrary: s)
  case (Cons v vs)
  have lt: "unat (sq s) + 1 < 2 ^ 64" using Cons.prems(2) by simp
  have u: "unat (sq (add v s)) = unat (sq s) + 1" using unat_next [OF lt] by (simp add: sq_add)
  have keep: "tbl (add v s) k = Some x" if "tbl s k = Some x" for k x
    using that issued_fresh [OF Cons.prems(1) lt] by (auto simp: tbl_add)
  from Cons.IH [OF issued_add [OF Cons.prems(1) lt]] Cons.prems(2) u keep show ?case by simp
qed simp

end

text \<open>The two services as such stores.\<close>

definition file_add :: "FileMeta \<Rightarrow> FileMetaServiceImpl \<Rightarrow> FileMetaServiceImpl" where
  "file_add v s =
     s\<lparr>fms_file_seq := fms_file_seq s + 1, fms_files := (fms_files s)(file_key (fms_file_seq s + 1) \<mapsto> v)\<rparr>"

definition task_add :: "TaskInfo \<Rightarrow> TaskServiceImpl \<Rightarrow> TaskServiceImpl" where
  "task_add v s =
     s\<lparr>tms_task_seq := tms_task_seq s + 1, tms_tasks := (tms_tasks s)(task_key (tms_task_seq s + 1) \<mapsto> v)\<rparr>"

lemma file_key_inj: "file_key a = file_key b \<longleftrightarrow> a = b"
  by (simp add: file_key_def show_nat_inj word_unat_eq_iff)

lemma task_key_inj: "task_key a = task_key b \<longleftrightarrow> a = b"
  by (simp add: task_key_def show_nat_inj word_unat_eq_iff)

interpretation files: id_store fms_files fms_file_seq file_key file_add
  by unfold_locales (simp_all add: file_key_inj file_add_def)

interpretation tasks: id_store tms_tasks tms_task_seq task_key task_add
  by unfold_locales (simp_all add: task_key_inj task_add_def)

section \<open>The operations as additions to the store\<close>

lemma rpc_active_no_deadline: "rpc_deadline ctx = None \<Longrightarrow> rpc_active ctx w"
  by (simp add: rpc_active_def rpc_DeadlineExceeded_def)

definition file_of :: "CreateFileMetaRequest \<Rightarrow> string \<Rightarrow> int \<Rightarrow> FileMeta" where
  "file_of req i now =
     \<lparr>fm_file_id = i, fm_filename = cfq_filename req, fm_size = cfq_size req,
      fm_content_type = cfq_content_type req, fm_owner_user_id = cfq_owner_user_id req, fm_created_at = now\<rparr>"

definition task_of :: "CreateTaskRequest \<Rightarrow> string \<Rightarrow> int \<Rightarrow> TaskInfo" where
  "task_of req i now =
     \<lparr>ti_task_id = i, ti_task_type = ctq_task_type req, ti_status = TASK_STATUS_PENDING, ti_result = [],
      ti_user_id = ctq_user_id req, ti_created_at = now, ti_updated_at = now\<rparr>"

lemma CreateFileMeta_adds:
  assumes "rpc_active ctx w" "cfq_filename req \<noteq> []" "0 \<le> cfq_size req"
  obtains meta w' now where
    "CreateFileMeta ctx req w s =
       (\<lparr>cfs_meta = meta, cfs_file_id = file_key (fms_file_seq s + 1)\<rparr>, ctx, w',
        file_add (file_of req (file_key (fms_file_seq s + 1)) now) s)"
    "meta_code meta = RPC_OK"
proof -
  obtain now w2 where n: "svc_NowUnixSeconds (snd (rpc_DeadlineExceeded ctx w)) = (now, w2)" by fastforce
  obtain meta w3 where m: "FillMeta RPC_OK ''ok'' ctx w2 = (meta, w3)" by fastforce
  have "meta_code meta = RPC_OK" using FillMeta_simps(1) [of RPC_OK "''ok''" ctx w2] m by simp
  with that show ?thesis
    using assms n m
    by (simp add: CreateFileMeta_def FillTimeoutIfCancelled_active Let_def file_add_def file_of_def)
qed

lemma CreateTask_adds:
  assumes "rpc_active ctx w" "ctq_task_type req \<noteq> []"
  obtains meta w' now where
    "CreateTask ctx req w s =
       (\<lparr>cts_meta = meta, cts_task_id = task_key (tms_task_seq s + 1)\<rparr>, ctx, w',
        task_add (task_of req (task_key (tms_task_seq s + 1)) now) s)"
    "meta_code meta = RPC_OK"
proof -
  obtain now w2 where n: "svc_NowUnixSeconds (snd (rpc_DeadlineExceeded ctx w)) = (now, w2)" by fastforce
  obtain meta w3 where m: "FillMeta RPC_OK ''ok'' ctx w2 = (meta, w3)" by fastforce
  have "meta_code meta = RPC_OK" using FillMeta_simps(1) [of RPC_OK "''ok''" ctx w2] m by simp
  with that show ?thesis
    using assms n m
    by (simp add: CreateTask_def FillTimeoutIfCancelled_active Let_def task_add_def task_of_def)
qed

lemma GetFileMeta_reads:
  assumes "rpc_active ctx w" "fms_files s i = Some f"
  shows "gfs_file (fst (GetFileMeta ctx \<lparr>gfq_file_id = i\<rparr> w s)) = f"
    and "meta_code (gfs_meta (fst (GetFileMeta ctx \<lparr>gfq_file_id = i\<rparr> w s))) = RPC_OK"
  using assms by (simp_all add: GetFileMeta_def FillTimeoutIfCancelled_active FillMeta_def split: prod.splits)

lemma GetTask_reads:
  assumes "rpc_active ctx w" "tms_tasks s i = Some t"
  shows "gts_task (fst (GetTask ctx \<lparr>gtq_task_id = i\<rparr> w s)) = t"
    and "meta_code (gts_meta (fst (GetTask ctx \<lparr>gtq_task_id = i\<rparr> w s))) = RPC_OK"
  using assms by (simp_all add: GetTask_def FillTimeoutIfCancelled_active FillMeta_def split: prod.splits)

text \<open>The whole effect of an event on the table of tasks.\<close>

definition apply_event :: "TaskEvent \<Rightarrow> TaskInfo \<Rightarrow> TaskInfo" where
  "apply_event ev t = t\<lparr>ti_status := ev_status ev, ti_result := ev_message ev, ti_updated_at := ev_timestamp ev\<rparr>"

lemma SubmitTaskEvent_active:
  assumes "rpc_active ctx w" "SubmitTaskEvent ctx ev w s = (ctx', w', s')"
  shows "tms_task_seq s' = tms_task_seq s" "ctx' = ctx"
    "tms_tasks s' k = (if k = ev_task_id ev then map_option (apply_event ev) (tms_tasks s k) else tms_tasks s k)"
  using assms
  by (auto simp: SubmitTaskEvent_def rpc_active_def apply_event_def split: prod.splits option.splits)

text \<open>All operations of both services only read the clocks and may cancel the deadline.\<close>

lemma CreateFileMeta_frame:
  "CreateFileMeta ctx req w s = (r, ctx', w', s') \<Longrightarrow> later w w' \<and> rctx_extends ctx ctx'"
  by (auto simp: CreateFileMeta_def Let_def
      dest: later_after_now later_after_check FillTimeoutIfCancelled_frame
      split: prod.splits option.splits if_splits)

lemma GetFileMeta_frame:
  "GetFileMeta ctx req w s = (r, ctx', w') \<Longrightarrow> later w w' \<and> rctx_extends ctx ctx'"
  by (auto simp: GetFileMeta_def dest: later_after_check FillTimeoutIfCancelled_frame
      split: prod.splits option.splits)

lemma CreateTask_frame:
  "CreateTask ctx req w s = (r, ctx', w', s') \<Longrightarrow> later w w' \<and> rctx_extends ctx ctx'"
  by (auto simp: CreateTask_def Let_def
      dest: later_after_now later_after_check FillTimeoutIfCancelled_frame
      split: prod.splits option.splits if_splits)

lemma GetTask_frame:
  "GetTask ctx req w s = (r, ctx', w') \<Longrightarrow> later w w' \<and> rctx_extends ctx ctx'"
  by (auto simp: GetTask_def dest: later_after_check FillTimeoutIfCancelled_frame
      split: prod.splits option.splits)

lemma SubmitTaskEvent_frame:
  assumes "SubmitTaskEvent ctx ev w s = (ctx', w', s')"
  shows "later w w' \<and> rctx_extends ctx ctx'"
proof -
  obtain e w1 where e: "rpc_DeadlineExceeded ctx w = (e, w1)" by fastforce
  obtain m w2 where r: "rpc_DeadlineReason (rpc_CancelDeadline ''deadline exceeded'' ctx) w1 = (m, w2)" by fastforce
  have "later w w1" "later w1 w2" using e r by (auto intro: later_intros)
  with assms e r show ?thesis
    by (auto simp: SubmitTaskEvent_def intro: later_trans split: if_splits option.splits)
qed

lemmas service_frames = CreateFileMeta_frame GetFileMeta_frame CreateTask_frame GetTask_frame SubmitTaskEvent_frame

section \<open>Properties\<close>

definition demo_rpc :: RpcContext where
  "demo_rpc = \<lparr>rpc_request_id = ''req-1'', rpc_trace_id = [], rpc_caller = ''tgw-gateway'', rpc_user_id = [],
     rpc_timeout_ms = 1000, rpc_deadline = None, rpc_headers = [], rpc_start_time = 0\<rparr>"

definition demo_ticks :: World where
  "demo_ticks = \<lparr>steady_ns = (\<lambda>n. int n), steady_reads = 0, system_ns = (\<lambda>n. int n), system_reads = 0\<rparr>"

lemma demo_active: "rpc_active demo_rpc w"
  by (rule rpc_active_no_deadline) (simp add: demo_rpc_def)

text \<open>
  C35: Creating file metadata gives an id that was not in use, leaves every other entry alone,
  and a later query for that id returns exactly the submitted values, also after any number
  of further creations (until the 64-bit counter wraps around).
\<close>

theorem file_meta_roundtrip:
  assumes "rpc_active ctx w" "cfq_filename req \<noteq> []" "0 \<le> cfq_size req"
    and "files.issued s" "unat (fms_file_seq s) + 1 + length vs < 2 ^ 64"
    and "CreateFileMeta ctx req w s = (rsp, ctx', w', s')"
    and "rpc_active ctx2 w2"
  shows "meta_code (cfs_meta rsp) = RPC_OK \<and> fms_files s (cfs_file_id rsp) = None \<and>
    (\<forall>k v. fms_files s k = Some v \<longrightarrow> fms_files s' k = Some v) \<and> files.issued s' \<and>
    (\<exists>now. gfs_file (fst (GetFileMeta ctx2 \<lparr>gfq_file_id = cfs_file_id rsp\<rparr> w2 (fold file_add vs s'))) =
       \<lparr>fm_file_id = cfs_file_id rsp, fm_filename = cfq_filename req, fm_size = cfq_size req,
        fm_content_type = cfq_content_type req, fm_owner_user_id = cfq_owner_user_id req, fm_created_at = now\<rparr>)"
proof -
  obtain meta now where rsp: "rsp = \<lparr>cfs_meta = meta, cfs_file_id = file_key (fms_file_seq s + 1)\<rparr>"
    and s': "s' = file_add (file_of req (file_key (fms_file_seq s + 1)) now) s" and ok: "meta_code meta = RPC_OK"
    using CreateFileMeta_adds [OF assms(1-3), of s] assms(6) by (metis Pair_inject)
  have lt: "unat (fms_file_seq s) + 1 < 2 ^ 64" using assms(5) by simp
  note fresh = files.issued_fresh [OF assms(4) lt] and keep = files.issued_add [OF assms(4) lt]
  have "unat (fms_file_seq s') + length vs < 2 ^ 64"
    using files.unat_next [OF lt] assms(5) by (simp add: s' files.sq_add)
  moreover have "fms_files s' (cfs_file_id rsp) = Some (file_of req (cfs_file_id rsp) now)"
    by (simp add: s' rsp files.tbl_add)
  ultimately have "fms_files (fold file_add vs s') (cfs_file_id rsp) = Some (file_of req (cfs_file_id rsp) now)"
    using files.adds [of s' vs] keep s' by simp
  from GetFileMeta_reads(1) [OF assms(7) this] show ?thesis
    using fresh keep ok by (auto simp: rsp s' files.tbl_add file_of_def)
qed

theorem file_meta_roundtrip_witness:
  "\<exists>now. gfs_file (fst (GetFileMeta demo_rpc
      \<lparr>gfq_file_id = cfs_file_id (fst (CreateFileMeta demo_rpc
          \<lparr>cfq_filename = ''a.txt'', cfq_size = 3, cfq_content_type = ''text/plain'', cfq_owner_user_id = 7\<rparr>
          demo_ticks FileMetaServiceImpl_default))\<rparr> demo_ticks
      (snd (snd (snd (CreateFileMeta demo_rpc
          \<lparr>cfq_filename = ''a.txt'', cfq_size = 3, cfq_content_type = ''text/plain'', cfq_owner_user_id = 7\<rparr>
          demo_ticks FileMetaServiceImpl_default)))))) =
     \<lparr>fm_file_id = cfs_file_id (fst (CreateFileMeta demo_rpc
          \<lparr>cfq_filename = ''a.txt'', cfq_size = 3, cfq_content_type = ''text/plain'', cfq_owner_user_id = 7\<rparr>
          demo_ticks FileMetaServiceImpl_default)),
      fm_filename = ''a.txt'', fm_size = 3, fm_content_type = ''text/plain'', fm_owner_user_id = 7, fm_created_at = now\<rparr>"
proof -
  let ?req = "\<lparr>cfq_filename = ''a.txt'', cfq_size = 3, cfq_content_type = ''text/plain'', cfq_owner_user_id = 7\<rparr>"
  obtain rsp ctx' w' s' where c: "CreateFileMeta demo_rpc ?req demo_ticks FileMetaServiceImpl_default = (rsp, ctx', w', s')"
    by (metis prod.exhaust)
  have i: "files.issued FileMetaServiceImpl_default" by (simp add: files.issued_def FileMetaServiceImpl_default_def)
  have "unat (fms_file_seq FileMetaServiceImpl_default) + 1 + length [] < 2 ^ 64"
    by (simp add: FileMetaServiceImpl_default_def)
  from file_meta_roundtrip [OF demo_active _ _ i this c demo_active, of demo_ticks] show ?thesis
    by (auto simp: c)
qed

text \<open>
  C36: A task starts as pending with the submitted type and user; an event for it replaces
  its status, result and update time and nothing else, and touches no other task; an event
  for an id that is not in the table changes nothing.
\<close>

theorem task_lifecycle:
  assumes "rpc_active ctx w" "ctq_task_type req \<noteq> []" "CreateTask ctx req w s = (rsp, ctx1, w1, s1)"
    and "rpc_active ctx2 w2" "SubmitTaskEvent ctx2 ev w2 s1 = (ctx3, w3, s3)"
    and "rpc_active ctx4 w4"
  shows "\<exists>now. gts_task (fst (GetTask ctx4 \<lparr>gtq_task_id = cts_task_id rsp\<rparr> w4 s3)) =
      (if ev_task_id ev = cts_task_id rsp
       then \<lparr>ti_task_id = cts_task_id rsp, ti_task_type = ctq_task_type req, ti_status = ev_status ev,
             ti_result = ev_message ev, ti_user_id = ctq_user_id req, ti_created_at = now,
             ti_updated_at = ev_timestamp ev\<rparr>
       else \<lparr>ti_task_id = cts_task_id rsp, ti_task_type = ctq_task_type req, ti_status = TASK_STATUS_PENDING,
             ti_result = [], ti_user_id = ctq_user_id req, ti_created_at = now, ti_updated_at = now\<rparr>) \<and>
    (\<forall>k. k \<noteq> ev_task_id ev \<longrightarrow> tms_tasks s3 k = tms_tasks s1 k) \<and>
    (tms_tasks s1 (ev_task_id ev) = None \<longrightarrow> tms_tasks s3 = tms_tasks s1)"
proof -
  obtain meta now where rsp: "rsp = \<lparr>cts_meta = meta, cts_task_id = task_key (tms_task_seq s + 1)\<rparr>"
    and s1: "s1 = task_add (task_of req (task_key (tms_task_seq s + 1)) now) s"
    using CreateTask_adds [OF assms(1,2), of s] assms(3) by (metis Pair_inject)
  have "tms_tasks s1 (cts_task_id rsp) = Some (task_of req (cts_task_id rsp) now)"
    by (simp add: s1 rsp tasks.tbl_add)
  then have "tms_tasks s3 (cts_task_id rsp) =
      Some (if ev_task_id ev = cts_task_id rsp then apply_event ev (task_of req (cts_task_id rsp) now)
            else task_of req (cts_task_id rsp) now)"
    using SubmitTaskEvent_active(3) [OF assms(4,5), of "cts_task_id rsp"]
    by (cases "ev_task_id ev = cts_task_id rsp") auto
  from GetTask_reads(1) [OF assms(6) this] show ?thesis
    using SubmitTaskEvent_active(3) [OF assms(4,5)]
    by (auto simp: apply_event_def task_of_def fun_eq_iff)
qed

theorem task_lifecycle_witness:
  "\<exists>now. gts_task (fst (GetTask demo_rpc \<lparr>gtq_task_id = ''task-1''\<rparr> demo_ticks
      (snd (snd (SubmitTaskEvent demo_rpc \<lparr>ev_task_id = ''task-1'', ev_status = 3, ev_message = ''done'', ev_timestamp = 9\<rparr> demo_ticks
        (snd (snd (snd (CreateTask demo_rpc \<lparr>ctq_task_type = ''scan'', ctq_payload = [], ctq_user_id = 7\<rparr> demo_ticks
           TaskServiceImpl_default))))))))) =
    \<lparr>ti_task_id = ''task-1'', ti_task_type = ''scan'', ti_status = 3, ti_result = ''done'', ti_user_id = 7,
     ti_created_at = now, ti_updated_at = 9\<rparr>"
proof -
  let ?req = "\<lparr>ctq_task_type = ''scan'', ctq_payload = [], ctq_user_id = 7\<rparr>"
  let ?ev = "\<lparr>ev_task_id = ''task-1'', ev_status = 3, ev_message = ''done'', ev_timestamp = 9\<rparr>"
  obtain rsp ctx1 w1 s1 where c: "CreateTask demo_rpc ?req demo_ticks TaskServiceImpl_default = (rsp, ctx1, w1, s1)"
    by (metis prod.exhaust)
  obtain ctx3 w3 s3 where e: "SubmitTaskEvent demo_rpc ?ev demo_ticks s1 = (ctx3, w3, s3)" by (metis prod.exhaust)
  have "cts_task_id rsp = task_key 1"
    by (rule CreateTask_adds [OF demo_active, of ?req demo_ticks TaskServiceImpl_default])
       (use c in \<open>auto simp: TaskServiceImpl_default_def\<close>)
  then have i: "cts_task_id rsp = ''task-1''"
    by (simp only:) code_simp
  from task_lifecycle [OF demo_active _ c demo_active e demo_active, of demo_ticks] show ?thesis
    by (simp add: c e i)
qed

end
