(* ===== verification/Upstream.thy ===== *)
theory Upstream
  imports Deadline
begin

text \<open>
  The mock upstream client of \<^verbatim>\<open>src/gateway/upstream_client.cc\<close>, which answers every
  context with a description of it.
\<close>

definition mock_data :: "ForwardContext \<Rightarrow> string" where
  "mock_data ctx =
     ''{'' @ json_key ''mock'' @ ''true,'' @
     json_key ''upstream'' @ quoted (JsonEscape (fc_upstream ctx)) @ '','' @
     json_key ''upstream_path'' @ quoted (JsonEscape (fc_upstream_path ctx)) @ '','' @
     json_key ''method'' @ quoted (JsonEscape (fc_method ctx)) @ '','' @
     json_key ''request_id'' @ quoted (JsonEscape (fc_request_id ctx)) @ '','' @
     json_key ''timeout_ms'' @ show_int (fc_timeout_ms ctx) @ '','' @
     json_key ''header_count'' @ show_nat (length (fc_headers ctx)) @
     (if fc_query ctx \<noteq> [] then '','' @ json_key ''query'' @ quoted (JsonEscape (fc_query ctx)) else []) @
     ''}''"

definition MockUpstreamClient_Forward :: "unit upstream" where
  "MockUpstreamClient_Forward ctx w s =
     (set_header ''X-Upstream'' (fc_upstream ctx)
       (set_header ''X-Request-Id'' (fc_request_id ctx)
         (HttpResponse_default\<lparr>rsp_status := 200, rsp_content_type := ''application/json'',
            rsp_body := ToJson (ApiResponse_Success (mock_data ctx))\<rparr>)),
      ctx, w, s)"

interpretation mock: upstream_client MockUpstreamClient_Forward
  by unfold_locales (auto simp: MockUpstreamClient_Forward_def)

end
