(* ===== verification/Governance.thy ===== *)
theory Governance
  imports Upstream
begin

text \<open>
  The governance decorator of \<^verbatim>\<open>src/governance/governance_upstream_client.cc\<close>:
  deadline checks, retries with backoff, a circuit breaker per upstream and degraded
  answers, around an arbitrary upstream client \<open>inner\<close>. Its own state is the map of
  circuit states; logging is left out. \<^verbatim>\<open>sleep_for\<close> has no effect but that time
  passes, and any amount of time may pass between two readings of the clock.
\<close>

section \<open>Definitions\<close>

datatype CircuitState = CLOSED | OPEN | HALF_OPEN

record CircuitBreakerRuntimeState =
  cbs_state :: CircuitState
  cbs_consecutive_failures :: int
  cbs_consecutive_successes :: int
  cbs_open_until :: int

definition CircuitBreakerRuntimeState_default :: CircuitBreakerRuntimeState where
  "CircuitBreakerRuntimeState_default =
     \<lparr>cbs_state = CLOSED, cbs_consecutive_failures = 0, cbs_consecutive_successes = 0,
      cbs_open_until = 0\<rparr>"

type_synonym circuits = "string \<Rightarrow> CircuitBreakerRuntimeState option"

text \<open>\<^verbatim>\<open>circuit_states_[upstream]\<close>: a missing entry is created in its default state.\<close>

definition circuit :: "circuits \<Rightarrow> string \<Rightarrow> CircuitBreakerRuntimeState" where
  "circuit cs upstream =
     (case cs upstream of Some st \<Rightarrow> st | None \<Rightarrow> CircuitBreakerRuntimeState_default)"

definition HeaderToInt :: "headers \<Rightarrow> string \<Rightarrow> int \<Rightarrow> int" where
  "HeaderToInt hs key default_value =
     (case om_get hs key of
        None \<Rightarrow> default_value
      | Some v \<Rightarrow> (case stoi v of Inr i \<Rightarrow> i | Inl _ \<Rightarrow> default_value))"

definition BuildErrorResponse :: "int \<Rightarrow> ErrorCode \<Rightarrow> string \<Rightarrow> string \<Rightarrow> HttpResponse" where
  "BuildErrorResponse http_status c message request_id =
     set_header ''X-Request-Id'' request_id
       (HttpResponse_default\<lparr>rsp_status := http_status, rsp_content_type := ''application/json'',
          rsp_body := ToJson (ApiResponse_Error c message)\<rparr>)"

text \<open>The loop of \<^verbatim>\<open>SleepUntilReadyOrDeadline\<close>.\<close>

function sleep_loop :: "ForwardContext \<Rightarrow> int \<Rightarrow> int \<Rightarrow> World \<Rightarrow> bool \<times> ForwardContext \<times> World" where
  "sleep_loop ctx sleep_ms slept_ms w =
     (if \<not> slept_ms < sleep_ms
      then (case DeadlineExceeded ctx w of (done, w') \<Rightarrow> (\<not> done, ctx, w'))
      else case DeadlineExceeded ctx w of (done, w1) \<Rightarrow>
        if done then (False, CancelDeadline ''deadline exceeded'' ctx, w1)
        else let step_ms = min 10 (sleep_ms - slept_ms) in
          case fc_deadline ctx of
            None \<Rightarrow> sleep_loop ctx sleep_ms (slept_ms + step_ms) w1
          | Some d \<Rightarrow>
              (case RemainingMs d w1 of (remaining_ms, w2) \<Rightarrow>
                 if remaining_ms \<le> 0 then (False, CancelDeadline ''deadline exceeded'' ctx, w2)
                 else sleep_loop ctx sleep_ms (slept_ms + min step_ms remaining_ms) w2))"
  by pat_completeness auto
termination
  by (relation "measure (\<lambda>(ctx, sleep_ms, slept_ms, w). nat (sleep_ms - slept_ms))") auto

declare sleep_loop.simps [simp del]

definition SleepUntilReadyOrDeadline ::
  "ForwardContext \<Rightarrow> int \<Rightarrow> World \<Rightarrow> bool \<times> ForwardContext \<times> World" where
  "SleepUntilReadyOrDeadline ctx sleep_ms w =
     (if sleep_ms \<le> 0
      then (case DeadlineExceeded ctx w of (done, w') \<Rightarrow> (\<not> done, ctx, w'))
      else sleep_loop ctx sleep_ms 0 w)"

definition ElapsedMsSince :: "ForwardContext \<Rightarrow> int \<Rightarrow> World \<Rightarrow> int \<times> World" where
  "ElapsedMsSince ctx started_at w =
     (case fc_deadline ctx of
        Some d \<Rightarrow> ElapsedMs d w
      | None \<Rightarrow> (case steady_now w of (now, w') \<Rightarrow> (ns_to_ms (now - started_at), w')))"

text \<open>The decision of one circuit on a request that arrives at time \<open>now\<close>.\<close>

definition allow_state :: "int \<Rightarrow> CircuitBreakerRuntimeState \<Rightarrow> bool \<times> CircuitBreakerRuntimeState" where
  "allow_state now state =
     (if cbs_state state = OPEN then
        if now \<ge> cbs_open_until state
        then (True, state\<lparr>cbs_state := HALF_OPEN, cbs_consecutive_successes := 0\<rparr>)
        else (False, state)
      else (True, state))"

definition AllowRequest ::
  "CircuitBreakerConfig \<Rightarrow> string \<Rightarrow> circuits \<Rightarrow> World \<Rightarrow> bool \<times> circuits \<times> World" where
  "AllowRequest cfg upstream cs w =
     (if \<not> cb_enabled cfg then (True, cs, w)
      else case steady_now w of (now, w') \<Rightarrow>
        case allow_state now (circuit cs upstream) of (allowed, state) \<Rightarrow>
          (allowed, cs(upstream \<mapsto> state), w'))"

text \<open>The update of one circuit by a result recorded at time \<open>now\<close>.\<close>

definition record_state ::
  "CircuitBreakerConfig \<Rightarrow> int \<Rightarrow> bool \<Rightarrow> CircuitBreakerRuntimeState \<Rightarrow> CircuitBreakerRuntimeState" where
  "record_state cfg now success state =
     (if success then
        let state1 = state\<lparr>cbs_consecutive_failures := 0\<rparr> in
        if cbs_state state1 = HALF_OPEN then
          let state2 = state1\<lparr>cbs_consecutive_successes := cbs_consecutive_successes state1 + 1\<rparr> in
          if cbs_consecutive_successes state2 \<ge> cb_half_open_success_threshold cfg
          then state2\<lparr>cbs_state := CLOSED, cbs_consecutive_successes := 0\<rparr>
          else state2
        else state1
      else
        let state1 = state\<lparr>cbs_consecutive_successes := 0,
                           cbs_consecutive_failures := cbs_consecutive_failures state + 1\<rparr> in
        if cbs_state state1 = HALF_OPEN \<or> cbs_consecutive_failures state1 \<ge> cb_failure_threshold cfg
        then state1\<lparr>cbs_state := OPEN, cbs_open_until := now + cb_open_seconds cfg * 1000000000\<rparr>
        else state1)"

definition RecordResult ::
  "CircuitBreakerConfig \<Rightarrow> string \<Rightarrow> bool \<Rightarrow> circuits \<Rightarrow> World \<Rightarrow> circuits \<times> World" where
  "RecordResult cfg upstream success cs w =
     (if \<not> cb_enabled cfg then (cs, w)
      else case steady_now w of (now, w') \<Rightarrow>
        (cs(upstream \<mapsto> record_state cfg now success (circuit cs upstream)), w'))"

definition IsIdempotentMethod :: "string \<Rightarrow> bool" where
  "IsIdempotentMethod m \<longleftrightarrow> m = ''GET'' \<or> m = ''HEAD'' \<or> m = ''OPTIONS''"

definition CanRetryMethod :: "GovernanceConfig \<Rightarrow> ForwardContext \<Rightarrow> bool" where
  "CanRetryMethod cfg ctx =
     (if IsIdempotentMethod (fc_method ctx) then True else retry_non_idempotent (gov_retry cfg))"

definition IsFailureResponse :: "HttpResponse \<Rightarrow> bool" where
  "IsFailureResponse rsp \<longleftrightarrow> rsp_status rsp = 504 \<or> rsp_status rsp \<ge> 500"

definition TimeoutResponse :: "ForwardContext \<Rightarrow> int \<Rightarrow> HttpResponse" where
  "TimeoutResponse ctx attempt =
     set_header ''X-Governance-Attempt'' (show_int attempt)
     (set_header ''X-Governance-Timeout'' ''true''
       (BuildErrorResponse 504 RPC_TIMEOUT ''upstream timeout'' (fc_request_id ctx)))"

definition FallbackResponse :: "GovernanceConfig \<Rightarrow> ForwardContext \<Rightarrow> string \<Rightarrow> HttpResponse" where
  "FallbackResponse cfg ctx reason =
     (let data = ''{'' @ json_key ''degraded'' @ ''true,'' @
            json_key ''upstream'' @ quoted (JsonEscape (fc_upstream ctx)) @ '','' @
            json_key ''reason'' @ quoted (JsonEscape reason) @ '','' @
            json_key ''message'' @ quoted (JsonEscape (fb_message (gov_fallback cfg))) @ ''}''
      in set_header ''X-Circuit-State'' ''open''
         (set_header ''X-Governance-Fallback'' ''true''
         (set_header ''X-Request-Id'' (fc_request_id ctx)
           (HttpResponse_default\<lparr>rsp_status := 200, rsp_content_type := ''application/json'',
              rsp_body := ToJson (ApiResponse_Success data)\<rparr>))))"

definition CircuitOpenResponse :: "GovernanceConfig \<Rightarrow> ForwardContext \<Rightarrow> HttpResponse" where
  "CircuitOpenResponse cfg ctx =
     (if fb_enabled (gov_fallback cfg) then FallbackResponse cfg ctx ''circuit breaker open''
      else set_header ''X-Circuit-State'' ''open''
             (BuildErrorResponse 503 RPC_FAILED ''circuit breaker open'' (fc_request_id ctx)))"

definition CallOnce :: "'s upstream \<Rightarrow> 's upstream" where
  "CallOnce inner ctx w s =
     (let debug_sleep_ms = HeaderToInt (fc_headers ctx) ''X-Debug-Sleep-Ms'' 0 in
      case (if debug_sleep_ms > 0 then SleepUntilReadyOrDeadline ctx debug_sleep_ms w
            else (True, ctx, w)) of (ready, ctx1, w1) \<Rightarrow>
      if \<not> ready then (TimeoutResponse ctx1 1, ctx1, w1, s)
      else case DeadlineExceeded ctx1 w1 of (exceeded, w2) \<Rightarrow>
        if exceeded
        then let ctx2 = CancelDeadline ''deadline exceeded'' ctx1 in (TimeoutResponse ctx2 1, ctx2, w2, s)
        else let debug_force_status = HeaderToInt (fc_headers ctx1) ''X-Debug-Force-Status'' 0 in
          if debug_force_status \<ge> 500
          then (set_header ''X-Debug-Forced'' ''true''
                  (BuildErrorResponse debug_force_status RPC_FAILED
                     ''debug forced upstream failure'' (fc_request_id ctx1)), ctx1, w2, s)
          else inner ctx1 w2 s)"

text \<open>
  One pass through the body of the attempt loop. It ends the loop with the response that
  \<^verbatim>\<open>Forward\<close> returns at once (\<open>Return\<close>), leaves it with \<open>last_response\<close> set
  (\<open>Break\<close>), or goes on to the next attempt (\<open>Next\<close>).
\<close>

datatype attempt_exit =
    Return HttpResponse
  | Break HttpResponse
  | Next HttpResponse

definition attempt_once ::
  "GovernanceConfig \<Rightarrow> 's upstream \<Rightarrow> int \<Rightarrow> int \<Rightarrow> ForwardContext \<Rightarrow> World \<Rightarrow> circuits \<times> 's \<Rightarrow>
   attempt_exit \<times> ForwardContext \<times> World \<times> circuits \<times> 's" where
  "attempt_once cfg inner max_attempts attempt ctx w st =
     (let cs = fst st; s = snd st in
      case DeadlineExceeded ctx w of (exceeded, w1) \<Rightarrow>
      if exceeded
      then let ctx1 = CancelDeadline ''deadline exceeded'' ctx
           in (Break (TimeoutResponse ctx1 attempt), ctx1, w1, cs, s)
      else
      case steady_now w1 of (started_at, w2) \<Rightarrow>
      case CallOnce inner ctx w2 s of (rsp, ctx1, w3, s1) \<Rightarrow>
      case ElapsedMsSince ctx1 started_at w3 of (elapsed_ms, w4) \<Rightarrow>
      case DeadlineExceeded ctx1 w4 of (exceeded', w5) \<Rightarrow>
      let timed_out = (exceeded' \<or> elapsed_ms > fc_timeout_ms ctx1);
          ctx2 = (if timed_out then CancelDeadline ''deadline exceeded'' ctx1 else ctx1);
          response = set_header ''X-Governance-Elapsed-Ms'' (show_int elapsed_ms)
                    (set_header ''X-Governance-Attempt'' (show_int attempt)
                      (if timed_out then TimeoutResponse ctx2 attempt else rsp));
          failure = IsFailureResponse response
      in case RecordResult (gov_circuit_breaker cfg) (fc_upstream ctx2) (\<not> failure) cs w5 of (cs1, w6) \<Rightarrow>
      if \<not> failure then (Return response, ctx2, w6, cs1, s1)
      else if \<not> (retry_enabled (gov_retry cfg) \<and> attempt < max_attempts \<and> CanRetryMethod cfg ctx2)
      then (Break response, ctx2, w6, cs1, s1)
      else if retry_backoff_ms (gov_retry cfg) > 0
      then (case SleepUntilReadyOrDeadline ctx2 (retry_backoff_ms (gov_retry cfg)) w6 of
              (ready, ctx3, w7) \<Rightarrow>
                (if \<not> ready then Break (TimeoutResponse ctx3 attempt) else Next response,
                 ctx3, w7, cs1, s1))
      else (Next response, ctx2, w6, cs1, s1))"

text \<open>The attempt loop; \<open>last_response\<close> is \<open>None\<close> while \<^verbatim>\<open>has_response\<close> is false.\<close>

function attempt_loop ::
  "GovernanceConfig \<Rightarrow> 's upstream \<Rightarrow> int \<Rightarrow> int \<Rightarrow> HttpResponse option \<Rightarrow>
   ForwardContext \<Rightarrow> World \<Rightarrow> circuits \<times> 's \<Rightarrow>
   (HttpResponse + HttpResponse option) \<times> ForwardContext \<times> World \<times> circuits \<times> 's" where
  "attempt_loop cfg inner max_attempts attempt last_response ctx w st =
     (if \<not> attempt \<le> max_attempts then (Inr last_response, ctx, w, st)
      else case attempt_once cfg inner max_attempts attempt ctx w st of
        (Return r, ctx', w', st') \<Rightarrow> (Inl r, ctx', w', st')
      | (Break r, ctx', w', st') \<Rightarrow> (Inr (Some r), ctx', w', st')
      | (Next r, ctx', w', st') \<Rightarrow>
          attempt_loop cfg inner max_attempts (attempt + 1) (Some r) ctx' w' st')"
  by pat_completeness auto
termination
  by (relation "measure (\<lambda>(cfg, inner, max_attempts, attempt, _). nat (max_attempts + 1 - attempt))") auto

declare attempt_loop.simps [simp del]

definition max_attempts_of :: "GovernanceConfig \<Rightarrow> int" where
  "max_attempts_of cfg =
     (let m = (if retry_enabled (gov_retry cfg) then retry_max_attempts (gov_retry cfg) else 1)
      in if m \<le> 0 then 1 else m)"

definition Governance_Forward :: "GovernanceConfig \<Rightarrow> 's upstream \<Rightarrow> (circuits \<times> 's) upstream" where
  "Governance_Forward cfg inner ctx w st =
     (if \<not> gov_enabled cfg
      then (case inner ctx w (snd st) of (rsp, ctx', w', s') \<Rightarrow> (rsp, ctx', w', fst st, s'))
      else case AllowRequest (gov_circuit_breaker cfg) (fc_upstream ctx) (fst st) w of
        (allowed, cs1, w1) \<Rightarrow>
          if \<not> allowed then (CircuitOpenResponse cfg ctx, ctx, w1, cs1, snd st)
          else case attempt_loop cfg inner (max_attempts_of cfg) 1 None ctx w1 (cs1, snd st) of
            (result, ctx2, w2, st2) \<Rightarrow>
              (case result of
                 Inl response \<Rightarrow> (response, ctx2, w2, st2)
               | Inr None \<Rightarrow>
                   (BuildErrorResponse 500 INTERNAL_ERROR ''governance call produced no response''
                      (fc_request_id ctx2), ctx2, w2, st2)
               | Inr (Some last_response) \<Rightarrow>
                   (if IsFailureResponse last_response \<and> fb_enabled (gov_fallback cfg)
                    then FallbackResponse cfg ctx2 ''all retry attempts failed''
                    else last_response, ctx2, w2, st2)))"

section \<open>What every step keeps\<close>

text \<open>Sleeping ends, reads the clock and at most cancels the deadline.\<close>

lemma sleep_loop_frame:
  "sleep_loop ctx sleep_ms slept_ms w = (ready, ctx', w') \<Longrightarrow> ctx_extends ctx ctx' \<and> later w w'"
proof (induction ctx sleep_ms slept_ms w rule: sleep_loop.induct)
  case (1 ctx sleep_ms slept_ms w)
  obtain fin w1 where e: "DeadlineExceeded ctx w = (fin, w1)" by fastforce
  have l1: "later w w1" using e by (rule later_context)
  show ?case
  proof (cases "slept_ms < sleep_ms \<and> \<not> fin")
    case False
    with 1(3) e l1 show ?thesis by (subst (asm) sleep_loop.simps) (auto split: if_splits)
  next
    case True
    show ?thesis
    proof (cases "fc_deadline ctx")
      case None
      with 1(3) e True have "sleep_loop ctx sleep_ms (slept_ms + min 10 (sleep_ms - slept_ms)) w1 = (ready, ctx', w')"
        by (subst (asm) sleep_loop.simps) (simp add: Let_def)
      with 1(1) [OF _ e [symmetric] _ refl None] True l1 show ?thesis by (auto intro: later_trans)
    next
      case (Some d)
      obtain rem w2 where r: "RemainingMs d w1 = (rem, w2)" by fastforce
      have l2: "later w w2" using l1 later_deadline(4) [OF r] by (rule later_trans)
      show ?thesis
      proof (cases "rem \<le> 0")
        case True
        with 1(3) e Some r l2 \<open>slept_ms < sleep_ms \<and> \<not> fin\<close> show ?thesis
          by (subst (asm) sleep_loop.simps) (auto simp: Let_def)
      next
        case False
        with 1(3) e Some r \<open>slept_ms < sleep_ms \<and> \<not> fin\<close>
        have "sleep_loop ctx sleep_ms (slept_ms + min (min 10 (sleep_ms - slept_ms)) rem) w2 = (ready, ctx', w')"
          by (subst (asm) sleep_loop.simps) (simp add: Let_def)
        with 1(2) [OF _ e [symmetric] _ refl Some r [symmetric]] True False l2 show ?thesis
          by (auto intro: later_trans)
      qed
    qed
  qed
qed

lemma SleepUntil_frame:
  "SleepUntilReadyOrDeadline ctx ms w = (ready, ctx', w') \<Longrightarrow> ctx_extends ctx ctx' \<and> later w w'"
  by (auto simp: SleepUntilReadyOrDeadline_def intro: later_context sleep_loop_frame
      dest: sleep_loop_frame split: if_splits prod.splits)

section \<open>Answers\<close>

lemma response_ids [simp]:
  "header (BuildErrorResponse st c msg rid) ''X-Request-Id'' = Some rid"
  "header (TimeoutResponse ctx a) ''X-Request-Id'' = Some (fc_request_id ctx)"
  "header (FallbackResponse cfg ctx reason) ''X-Request-Id'' = Some (fc_request_id ctx)"
  "header (CircuitOpenResponse cfg ctx) ''X-Request-Id'' = Some (fc_request_id ctx)"
  by (simp_all add: BuildErrorResponse_def TimeoutResponse_def FallbackResponse_def
      CircuitOpenResponse_def Let_def)

lemma response_status [simp]:
  "rsp_status (BuildErrorResponse st c msg rid) = st"
  "rsp_status (TimeoutResponse ctx a) = 504"
  "rsp_status (FallbackResponse cfg ctx reason) = 200"
  by (simp_all add: BuildErrorResponse_def TimeoutResponse_def FallbackResponse_def Let_def)

lemma later_AllowRequest: "AllowRequest cfg u cs w = (b, cs', w') \<Longrightarrow> later w w'"
  by (auto simp: AllowRequest_def intro: later_steady_now split: if_splits prod.splits)

lemma later_RecordResult: "RecordResult cfg u b cs w = (cs', w') \<Longrightarrow> later w w'"
  by (auto simp: RecordResult_def intro: later_steady_now split: if_splits prod.splits)

lemma later_ElapsedMsSince: "ElapsedMsSince ctx t w = (i, w') \<Longrightarrow> later w w'"
  by (auto simp: ElapsedMsSince_def intro: later_steady_now later_deadline split: option.splits prod.splits)

text \<open>
  One attempt, taken apart: either the deadline was over before it, or the wrapped call was
  made, its result classified and recorded, and then the retry rules applied.
\<close>

lemma attempt_once_cases:
  assumes "attempt_once cfg inner mx a ctx w st = (res, ctx', w', st')"
  obtains (expired) w1 where "DeadlineExceeded ctx w = (True, w1)" "res = Break (TimeoutResponse ctx a)"
      "ctx' = CancelDeadline ''deadline exceeded'' ctx" "w' = w1" "st' = st"
  | (called) w1 w2 t rsp ctx1 w3 s1 el w4 exc w5 timed ctx2 rsp2 cs1 w6 where
      "DeadlineExceeded ctx w = (False, w1)" "steady_now w1 = (t, w2)"
      "CallOnce inner ctx w2 (snd st) = (rsp, ctx1, w3, s1)"
      "ElapsedMsSince ctx1 t w3 = (el, w4)" "DeadlineExceeded ctx1 w4 = (exc, w5)"
      "timed = (exc \<or> el > fc_timeout_ms ctx1)"
      "ctx2 = (if timed then CancelDeadline ''deadline exceeded'' ctx1 else ctx1)"
      "rsp2 = set_header ''X-Governance-Elapsed-Ms'' (show_int el)
         (set_header ''X-Governance-Attempt'' (show_int a) (if timed then TimeoutResponse ctx2 a else rsp))"
      "RecordResult (gov_circuit_breaker cfg) (fc_upstream ctx2) (\<not> IsFailureResponse rsp2) (fst st) w5 = (cs1, w6)"
      "st' = (cs1, s1)"
      "\<not> IsFailureResponse rsp2 \<and> res = Return rsp2 \<and> ctx' = ctx2 \<and> w' = w6 \<or>
       IsFailureResponse rsp2 \<and>
         \<not> (retry_enabled (gov_retry cfg) \<and> a < mx \<and> CanRetryMethod cfg ctx2) \<and>
         res = Break rsp2 \<and> ctx' = ctx2 \<and> w' = w6 \<or>
       IsFailureResponse rsp2 \<and> retry_enabled (gov_retry cfg) \<and> a < mx \<and> CanRetryMethod cfg ctx2 \<and>
         (retry_backoff_ms (gov_retry cfg) \<le> 0 \<and> res = Next rsp2 \<and> ctx' = ctx2 \<and> w' = w6 \<or>
          (\<exists>ready. SleepUntilReadyOrDeadline ctx2 (retry_backoff_ms (gov_retry cfg)) w6 = (ready, ctx', w') \<and>
             res = (if ready then Next rsp2 else Break (TimeoutResponse ctx' a))))"
proof -
  obtain exc0 w1 where e0: "DeadlineExceeded ctx w = (exc0, w1)" by fastforce
  show ?thesis
  proof (cases exc0)
    case True
    with assms e0 have "res = Break (TimeoutResponse ctx a)" "ctx' = CancelDeadline ''deadline exceeded'' ctx"
      "w' = w1" "st' = st"
      by (auto simp: attempt_once_def Let_def TimeoutResponse_def)
    with expired e0 True show ?thesis by simp
  next
    case False
    obtain t w2 where t: "steady_now w1 = (t, w2)" by fastforce
    obtain rsp ctx1 w3 s1 where c: "CallOnce inner ctx w2 (snd st) = (rsp, ctx1, w3, s1)" by (metis prod.exhaust)
    obtain el w4 where el: "ElapsedMsSince ctx1 t w3 = (el, w4)" by fastforce
    obtain exc w5 where e1: "DeadlineExceeded ctx1 w4 = (exc, w5)" by fastforce
    define timed where "timed = (exc \<or> el > fc_timeout_ms ctx1)"
    define ctx2 where "ctx2 = (if timed then CancelDeadline ''deadline exceeded'' ctx1 else ctx1)"
    define rsp2 where "rsp2 = set_header ''X-Governance-Elapsed-Ms'' (show_int el)
         (set_header ''X-Governance-Attempt'' (show_int a) (if timed then TimeoutResponse ctx2 a else rsp))"
    obtain cs1 w6 where rr: "RecordResult (gov_circuit_breaker cfg) (fc_upstream ctx2)
        (\<not> IsFailureResponse rsp2) (fst st) w5 = (cs1, w6)" by fastforce
    obtain ready ctx3 w7 where sl:
      "SleepUntilReadyOrDeadline ctx2 (retry_backoff_ms (gov_retry cfg)) w6 = (ready, ctx3, w7)"
      by (metis prod.exhaust)
    have eq: "attempt_once cfg inner mx a ctx w st =
      (if \<not> IsFailureResponse rsp2 then (Return rsp2, ctx2, w6, cs1, s1)
       else if \<not> (retry_enabled (gov_retry cfg) \<and> a < mx \<and> CanRetryMethod cfg ctx2)
       then (Break rsp2, ctx2, w6, cs1, s1)
       else if retry_backoff_ms (gov_retry cfg) > 0
       then (if \<not> ready then Break (TimeoutResponse ctx3 a) else Next rsp2, ctx3, w7, cs1, s1)
       else (Next rsp2, ctx2, w6, cs1, s1))"
      using e0 False t c el e1 rr sl unfolding timed_def ctx2_def rsp2_def
      by (simp add: attempt_once_def Let_def)
    show ?thesis
      by (rule called [OF e0 [unfolded eq_False [THEN iffD2, OF False]] t c el e1 timed_def ctx2_def rsp2_def rr])
         (use assms eq sl in \<open>auto split: if_splits\<close>)
  qed
qed

text \<open>The induction principle of the attempt loop, by the four ways a pass can end.\<close>

lemma attempt_loop_rule [consumes 1, case_names stop return break again]:
  assumes "attempt_loop cfg inner mx a lst ctx w st = (res, ctx', w', st')"
    and stop: "\<And>a lst ctx w st. mx < a \<Longrightarrow> P a lst ctx w st (Inr lst) ctx w st"
    and return: "\<And>a lst ctx w st r ctx1 w1 st1. a \<le> mx \<Longrightarrow>
      attempt_once cfg inner mx a ctx w st = (Return r, ctx1, w1, st1) \<Longrightarrow>
      P a lst ctx w st (Inl r) ctx1 w1 st1"
    and break: "\<And>a lst ctx w st r ctx1 w1 st1. a \<le> mx \<Longrightarrow>
      attempt_once cfg inner mx a ctx w st = (Break r, ctx1, w1, st1) \<Longrightarrow>
      P a lst ctx w st (Inr (Some r)) ctx1 w1 st1"
    and step: "\<And>a lst ctx w st r ctx1 w1 st1 res ctx' w' st'. a \<le> mx \<Longrightarrow>
      attempt_once cfg inner mx a ctx w st = (Next r, ctx1, w1, st1) \<Longrightarrow>
      P (a + 1) (Some r) ctx1 w1 st1 res ctx' w' st' \<Longrightarrow> P a lst ctx w st res ctx' w' st'"
  shows "P a lst ctx w st res ctx' w' st'"
  using assms(1)
proof (induction "nat (mx + 1 - a)" arbitrary: a lst ctx w st)
  case 0
  then have "mx < a" by simp
  with 0 have "res = Inr lst" "ctx' = ctx" "w' = w" "st' = st"
    by (simp_all add: attempt_loop.simps [of cfg inner mx a])
  with stop [OF \<open>mx < a\<close>] show ?case by simp
next
  case (Suc n)
  then have le: "a \<le> mx" by simp
  obtain x ctx1 w1 st1 where o: "attempt_once cfg inner mx a ctx w st = (x, ctx1, w1, st1)"
    by (metis prod.exhaust)
  note unfold = Suc.prems [unfolded attempt_loop.simps [of cfg inner mx a]]
  show ?case
  proof (cases x)
    case (Next r)
    with unfold le o have "attempt_loop cfg inner mx (a + 1) (Some r) ctx1 w1 st1 = (res, ctx', w', st')"
      by simp
    from Suc.hyps(1) [OF _ this] Suc.hyps(2) have "P (a + 1) (Some r) ctx1 w1 st1 res ctx' w' st'" by simp
    with step [OF le] o Next show ?thesis by blast
  next
    case (Return r)
    with unfold le o have "res = Inl r" "ctx' = ctx1" "w' = w1" "st' = st1" by simp_all
    with return [OF le o [unfolded Return]] show ?thesis by simp
  next
    case (Break r)
    with unfold le o have "res = Inr (Some r)" "ctx' = ctx1" "w' = w1" "st' = st1" by simp_all
    with break [OF le o [unfolded Break]] show ?thesis by simp
  qed
qed

section \<open>The decorator is an upstream client\<close>

definition exit_response :: "attempt_exit \<Rightarrow> HttpResponse" where
  "exit_response x = (case x of Return r \<Rightarrow> r | Break r \<Rightarrow> r | Next r \<Rightarrow> r)"

context upstream_client
begin

lemma CallOnce_contract:
  assumes "CallOnce forward ctx w s = (rsp, ctx', w', s')"
  shows "header rsp ''X-Request-Id'' = Some (fc_request_id ctx) \<and> ctx_extends ctx ctx' \<and> later w w'"
proof -
  let ?ms = "HeaderToInt (fc_headers ctx) ''X-Debug-Sleep-Ms'' 0"
  obtain ready ctx1 w1 where sl:
    "(if ?ms > 0 then SleepUntilReadyOrDeadline ctx ?ms w else (True, ctx, w)) = (ready, ctx1, w1)"
    by (metis prod.exhaust)
  then have x1: "ctx_extends ctx ctx1" "later w w1"
    using SleepUntil_frame [of ctx ?ms w] by (auto split: if_splits)
  obtain exc w2 where e: "DeadlineExceeded ctx1 w1 = (exc, w2)" by fastforce
  have x2: "later w w2" using x1 e later_context(1) later_trans by blast
  have f: "fc_request_id ctx1 = fc_request_id ctx" using ctx_extends_fields [OF x1(1)] by simp
  show ?thesis
  proof (cases "ready \<and> \<not> exc \<and> \<not> HeaderToInt (fc_headers ctx1) ''X-Debug-Force-Status'' 0 \<ge> 500")
    case True
    then have "forward ctx1 w2 s = (rsp, ctx', w', s')"
      using assms sl e by (simp add: CallOnce_def Let_def)
    from answers_id [OF this] keeps_context [OF this] only_reads [OF this] show ?thesis
      using f x1(1) x2 by (auto intro: ctx_extends_trans later_trans)
  next
    case False
    then show ?thesis
      using assms sl e x1 x2 f
      by (auto simp: CallOnce_def Let_def intro: ctx_extends_trans split: if_splits)
  qed
qed

lemma attempt_once_contract:
  assumes "attempt_once cfg forward mx a ctx w st = (res, ctx', w', st')"
  shows "header (exit_response res) ''X-Request-Id'' = Some (fc_request_id ctx) \<and>
    ctx_extends ctx ctx' \<and> later w w'"
  using assms
proof (cases rule: attempt_once_cases)
  case expired
  then show ?thesis by (auto simp: exit_response_def intro: later_context)
next
  case (called w1 w2 t rsp ctx1 w3 s1 el w4 exc w5 timed ctx2 rsp2 cs1 w6)
  note c = CallOnce_contract [OF called(3)]
  have x2: "ctx_extends ctx ctx2"
    using c called(7) by (auto intro: ctx_extends_trans)
  have "later w w2" using called(1,2) by (blast intro: later_trans later_context later_steady_now)
  moreover have "later w3 w6"
    using called(4,5,9) by (blast intro: later_trans later_ElapsedMsSince later_context later_RecordResult)
  ultimately have l6: "later w w6" using c by (blast intro: later_trans)
  have id2: "header rsp2 ''X-Request-Id'' = Some (fc_request_id ctx)"
    using c called(7,8) ctx_extends_fields(1) [of ctx ctx1] by auto
  have "SleepUntilReadyOrDeadline ctx2 ms w6 = (ready, ctx', w') \<Longrightarrow>
      ctx_extends ctx ctx' \<and> later w w' \<and> fc_request_id ctx' = fc_request_id ctx" for ms ready
    using SleepUntil_frame x2 l6 ctx_extends_fields(1) by (meson ctx_extends_trans later_trans)
  then show ?thesis
    using called(11) x2 l6 id2 by (auto simp: exit_response_def)
qed

lemma attempt_loop_contract:
  assumes "attempt_loop cfg forward mx a lst ctx w st = (res, ctx', w', st')"
    and "\<forall>r. lst = Some r \<longrightarrow> header r ''X-Request-Id'' = Some (fc_request_id ctx)"
  shows "(\<forall>r. res = Inl r \<or> res = Inr (Some r) \<longrightarrow> header r ''X-Request-Id'' = Some (fc_request_id ctx)) \<and>
    ctx_extends ctx ctx' \<and> later w w'"
  using assms
proof (induction rule: attempt_loop_rule)
  case (again a lst ctx w st r ctx1 w1 st1 res ctx' w' st')
  note c = attempt_once_contract [OF again(2)]
  have id: "fc_request_id ctx1 = fc_request_id ctx" using c ctx_extends_fields(1) by simp
  with c have "header r ''X-Request-Id'' = Some (fc_request_id ctx1)" by (simp add: exit_response_def)
  with again(3) have "(\<forall>r. res = Inl r \<or> res = Inr (Some r) \<longrightarrow>
      header r ''X-Request-Id'' = Some (fc_request_id ctx1)) \<and> ctx_extends ctx1 ctx' \<and> later w1 w'"
    by simp
  then show ?case using c id by (auto intro: ctx_extends_trans [of ctx ctx1] later_trans [of w w1])
qed (use attempt_once_contract in \<open>fastforce simp: exit_response_def\<close>)+

end

lemma governed_client:
  assumes "upstream_client inner"
  shows "upstream_client (Governance_Forward cfg inner)"
proof -
  have "header rsp ''X-Request-Id'' = Some (fc_request_id ctx) \<and> ctx_extends ctx ctx' \<and> later w w'"
    if f: "Governance_Forward cfg inner ctx w st = (rsp, ctx', w', st')" for ctx w st rsp ctx' w' st'
  proof (cases "gov_enabled cfg")
    case False
    obtain r c v s where i: "inner ctx w (snd st) = (r, c, v, s)" by (metis prod.exhaust)
    with f False have "r = rsp" "c = ctx'" "v = w'" by (simp_all add: Governance_Forward_def)
    with i show ?thesis
      using upstream_client.answers_id [OF assms i] upstream_client.keeps_context [OF assms i]
        upstream_client.only_reads [OF assms i] by simp
  next
    case True
    obtain ok cs1 w1 where a: "AllowRequest (gov_circuit_breaker cfg) (fc_upstream ctx) (fst st) w = (ok, cs1, w1)"
      by (metis prod.exhaust)
    obtain res ctx2 w2 st2 where l: "attempt_loop cfg inner (max_attempts_of cfg) 1 None ctx w1 (cs1, snd st) =
        (res, ctx2, w2, st2)" by (metis prod.exhaust)
    note c = upstream_client.attempt_loop_contract [OF assms l]
    have "later w w1" using a by (rule later_AllowRequest)
    moreover have "ctx_extends ctx ctx2 \<Longrightarrow> fc_request_id ctx2 = fc_request_id ctx"
      by (rule ctx_extends_fields)
    ultimately show ?thesis
      using f True a l c
      by (auto simp: Governance_Forward_def intro: later_trans split: if_splits sum.splits option.splits)
  qed
  then show ?thesis by unfold_locales blast+
qed

section \<open>How often the wrapped client is called\<close>

text \<open>A client that counts its calls in front of its state.\<close>

definition counting :: "'s upstream \<Rightarrow> (nat \<times> 's) upstream" where
  "counting inner ctx w st =
     (case inner ctx w (snd st) of (rsp, ctx', w', s') \<Rightarrow> (rsp, ctx', w', Suc (fst st), s'))"

lemma counting_client:
  assumes "upstream_client inner"
  shows "upstream_client (counting inner)"
proof -
  have "header rsp ''X-Request-Id'' = Some (fc_request_id ctx) \<and> ctx_extends ctx ctx' \<and> later w w'"
    if f: "counting inner ctx w st = (rsp, ctx', w', st')" for ctx w st rsp ctx' w' st'
  proof -
    obtain s where i: "inner ctx w (snd st) = (rsp, ctx', w', s)"
      using f by (auto simp: counting_def split: prod.splits)
    show ?thesis
      using upstream_client.answers_id [OF assms i] upstream_client.keeps_context [OF assms i]
        upstream_client.only_reads [OF assms i] by simp
  qed
  then show ?thesis by unfold_locales blast+
qed

lemma CallOnce_counting:
  "CallOnce (counting inner) ctx w st = (rsp, ctx', w', st') \<Longrightarrow> fst st' \<le> Suc (fst st)"
  by (auto simp: CallOnce_def Let_def counting_def split: prod.splits if_splits)

lemma attempt_once_counting:
  assumes "attempt_once cfg (counting inner) mx a ctx w st = (res, ctx', w', st')"
  shows "fst (snd st') \<le> Suc (fst (snd st))"
  using assms by (cases rule: attempt_once_cases) (auto dest: CallOnce_counting)

lemma attempt_once_Next:
  assumes "upstream_client inner"
    and "attempt_once cfg inner mx a ctx w st = (Next r, ctx', w', st')"
  shows "retry_enabled (gov_retry cfg) \<and> a < mx \<and> CanRetryMethod cfg ctx \<and> CanRetryMethod cfg ctx'"
proof -
  have m: "fc_method ctx' = fc_method ctx"
    using upstream_client.attempt_once_contract [OF assms] ctx_extends_fields(4) by blast
  from assms(2) show ?thesis
  proof (cases rule: attempt_once_cases)
    case (called w1 w2 t rsp ctx1 w3 s1 el w4 exc w5 timed ctx2 rsp2 cs1 w6)
    then have "retry_enabled (gov_retry cfg) \<and> a < mx \<and> CanRetryMethod cfg ctx2 \<and> ctx_extends ctx2 ctx'"
      using SleepUntil_frame [of ctx2] by (auto split: if_splits)
    then show ?thesis using m ctx_extends_fields(4) [of ctx2 ctx'] by (simp add: CanRetryMethod_def)
  qed simp
qed

lemma attempt_loop_counting:
  assumes "attempt_loop cfg (counting inner) mx a lst ctx w st = (res, ctx', w', st')"
    and "upstream_client inner"
  shows "fst (snd st') \<le> fst (snd st) + nat (mx + 1 - a) \<and>
    (\<not> (retry_enabled (gov_retry cfg) \<and> CanRetryMethod cfg ctx) \<longrightarrow> fst (snd st') \<le> Suc (fst (snd st)))"
  using assms(1)
proof (induction rule: attempt_loop_rule)
  case (again a lst ctx w st r ctx1 w1 st1 res ctx' w' st')
  have "retry_enabled (gov_retry cfg) \<and> a < mx \<and> CanRetryMethod cfg ctx"
    using attempt_once_Next [OF counting_client [OF assms(2)] again(2)] by simp
  moreover have "fst (snd st1) \<le> Suc (fst (snd st))" using attempt_once_counting [OF again(2)] .
  ultimately show ?case using again(3) by auto
qed (auto dest!: attempt_once_counting)

section \<open>Failures are masked\<close>

lemma attempt_once_Return: "attempt_once cfg inner mx a ctx w st = (Return r, ctx', w', st') \<Longrightarrow> \<not> IsFailureResponse r"
  by (erule attempt_once_cases) (auto split: if_splits)

lemma attempt_loop_result:
  "attempt_loop cfg inner mx a lst ctx w st = (res, ctx', w', st') \<Longrightarrow>
   (\<forall>r. res = Inl r \<longrightarrow> \<not> IsFailureResponse r) \<and> (res = Inr None \<longrightarrow> lst = None \<and> mx < a)"
  by (induction rule: attempt_loop_rule) (auto dest: attempt_once_Return)

lemma attempt_loop_expired:
  assumes "DeadlineExceeded ctx w = (True, w1)" "a \<le> mx"
  shows "attempt_loop cfg inner mx a lst ctx w st =
    (Inr (Some (TimeoutResponse ctx a)), CancelDeadline ''deadline exceeded'' ctx, w1, st)"
  using assms by (simp add: attempt_loop.simps [of _ _ _ a] attempt_once_def TimeoutResponse_def)

lemma max_attempts_pos: "1 \<le> max_attempts_of cfg"
  by (simp add: max_attempts_of_def Let_def)

section \<open>The circuit breaker as a state machine\<close>

text \<open>
  The steps of one circuit, with the time of the latest: a request asks for admission, or the
  result of an admitted one is recorded. Requests run concurrently, so results may arrive in
  any state.
\<close>

inductive cb_step ::
  "CircuitBreakerConfig \<Rightarrow> int \<times> CircuitBreakerRuntimeState \<Rightarrow> int \<times> CircuitBreakerRuntimeState \<Rightarrow> bool"
  for cfg where
  ask: "now \<le> now' \<Longrightarrow> cb_step cfg (now, st) (now', snd (allow_state now' st))"
| result: "now \<le> now' \<Longrightarrow> cb_step cfg (now, st) (now', record_state cfg now' success st)"

inductive_cases cb_stepE: "cb_step cfg (now, st) (now', st')"

abbreviation cb_path ::
  "CircuitBreakerConfig \<Rightarrow> int \<times> CircuitBreakerRuntimeState \<Rightarrow> int \<times> CircuitBreakerRuntimeState \<Rightarrow> bool" where
  "cb_path cfg \<equiv> (cb_step cfg)\<^sup>*\<^sup>*"

definition cb_ok :: "CircuitBreakerConfig \<Rightarrow> bool" where
  "cb_ok cfg \<longleftrightarrow> 1 \<le> cb_failure_threshold cfg \<and> 1 \<le> cb_half_open_success_threshold cfg \<and>
     0 \<le> cb_open_seconds cfg"

text \<open>The invariant of a circuit at time \<open>now\<close>.\<close>

definition cb_inv :: "CircuitBreakerConfig \<Rightarrow> int \<Rightarrow> CircuitBreakerRuntimeState \<Rightarrow> bool" where
  "cb_inv cfg now st \<longleftrightarrow>
     0 \<le> cbs_consecutive_failures st \<and> 0 \<le> cbs_consecutive_successes st \<and>
     (case cbs_state st of
        CLOSED \<Rightarrow> cbs_consecutive_failures st < cb_failure_threshold cfg \<and> cbs_consecutive_successes st = 0
      | OPEN \<Rightarrow> cbs_open_until st \<le> now + cb_open_seconds cfg * 1000000000 \<and> cbs_consecutive_successes st = 0
      | HALF_OPEN \<Rightarrow> cbs_consecutive_successes st < cb_half_open_success_threshold cfg)"

lemma cb_inv_default: "cb_ok cfg \<Longrightarrow> cb_inv cfg now CircuitBreakerRuntimeState_default"
  by (simp add: cb_inv_def cb_ok_def CircuitBreakerRuntimeState_default_def)

lemma cb_inv_mono: "cb_inv cfg now st \<Longrightarrow> now \<le> now' \<Longrightarrow> cb_inv cfg now' st"
  by (auto simp: cb_inv_def split: CircuitState.splits)

lemma cb_inv_allow:
  "cb_ok cfg \<Longrightarrow> cb_inv cfg now st \<Longrightarrow> cb_inv cfg now (snd (allow_state now st))"
  by (auto simp: cb_inv_def cb_ok_def allow_state_def split: CircuitState.splits)

lemma cb_inv_record:
  "cb_ok cfg \<Longrightarrow> cb_inv cfg now st \<Longrightarrow> cb_inv cfg now (record_state cfg now b st)"
  by (cases "cbs_state st") (auto simp: cb_inv_def cb_ok_def record_state_def Let_def)

lemma cb_inv_step:
  "cb_step cfg (now, st) (now', st') \<Longrightarrow> cb_ok cfg \<Longrightarrow> cb_inv cfg now st \<Longrightarrow> cb_inv cfg now' st' \<and> now \<le> now'"
  by (erule cb_stepE) (auto intro: cb_inv_allow cb_inv_record cb_inv_mono)

lemma cb_inv_path:
  assumes "cb_path cfg (now, st) (now', st')" "cb_ok cfg" "cb_inv cfg now st"
  shows "cb_inv cfg now' st' \<and> now \<le> now'"
  using assms
proof (induction "(now', st')" arbitrary: now' st' rule: rtranclp_induct)
  case (step y)
  obtain t s where y: "y = (t, s)" by (cases y)
  with step cb_inv_step [of cfg t s now' st'] show ?case by auto
qed simp

text \<open>An open circuit stays open, and refuses, until the time it was opened for is over.\<close>

lemma open_step:
  assumes "cb_step cfg (now, st) (now', st')" "cb_inv cfg now st" "cbs_state st = OPEN"
    and "now' < cbs_open_until st"
  shows "cbs_state st' = OPEN \<and> cbs_open_until st \<le> cbs_open_until st'"
  using assms by (elim cb_stepE) (auto simp: allow_state_def record_state_def Let_def cb_inv_def)

lemma open_path:
  assumes "cb_path cfg (now, st) (now', st')" "cb_ok cfg" "cb_inv cfg now st" "cbs_state st = OPEN"
    and "now' < cbs_open_until st"
  shows "cbs_state st' = OPEN \<and> cbs_open_until st \<le> cbs_open_until st'"
  using assms
proof (induction "(now', st')" arbitrary: now' st' rule: rtranclp_induct)
  case (step y)
  obtain t s where y: "y = (t, s)" by (cases y)
  have path: "cb_path cfg (now, st) (t, s)" using step.hyps(1) y by simp
  note inv = cb_inv_path [OF path step.prems(1,2)]
  have "t \<le> now'" using step.hyps(2) y by (auto elim: cb_stepE)
  then have "cbs_state s = OPEN \<and> cbs_open_until st \<le> cbs_open_until s"
    using step.hyps(3) [OF y] step.prems by simp
  with open_step [of cfg t s now' st'] step y inv show ?case by auto
qed simp

section \<open>The decorator drives the state machine\<close>

abbreviation reading :: "World \<Rightarrow> int" where
  "reading w \<equiv> steady_ns w (steady_reads w)"

text \<open>
  Between two worlds the circuit of \<open>u\<close> makes steps of the machine, at times between the
  readings of the two.
\<close>

definition circuit_moves :: "CircuitBreakerConfig \<Rightarrow> string \<Rightarrow> World \<Rightarrow> circuits \<Rightarrow> World \<Rightarrow> circuits \<Rightarrow> bool" where
  "circuit_moves cfg u w cs w' cs' \<longleftrightarrow>
     (\<forall>t0. t0 \<le> reading w \<longrightarrow> (\<exists>t1. t1 \<le> reading w' \<and> cb_path cfg (t0, circuit cs u) (t1, circuit cs' u)))"

lemma circuit_moves_refl:
  "later w w' \<Longrightarrow> steady_mono w \<Longrightarrow> circuit_moves cfg u w cs w' cs"
  unfolding circuit_moves_def using later_reading order_trans by blast

lemma circuit_moves_trans:
  assumes "circuit_moves cfg u w cs w1 cs1" "circuit_moves cfg u w1 cs1 w' cs'"
  shows "circuit_moves cfg u w cs w' cs'"
  unfolding circuit_moves_def
proof (intro allI impI)
  fix t0 assume "t0 \<le> reading w"
  then obtain t1 where "t1 \<le> reading w1" "cb_path cfg (t0, circuit cs u) (t1, circuit cs1 u)"
    using assms(1) by (auto simp: circuit_moves_def)
  moreover then obtain t2 where "t2 \<le> reading w'" "cb_path cfg (t1, circuit cs1 u) (t2, circuit cs' u)"
    using assms(2) by (auto simp: circuit_moves_def)
  ultimately show "\<exists>t1. t1 \<le> reading w' \<and> cb_path cfg (t0, circuit cs u) (t1, circuit cs' u)"
    by (meson rtranclp_trans)
qed

lemma circuit_upd [simp]: "circuit (cs(v \<mapsto> st)) u = (if u = v then st else circuit cs u)"
  by (simp add: circuit_def)

lemma reading_next: "steady_mono w \<Longrightarrow> reading w \<le> reading (snd (steady_now w))"
  by (simp add: steady_mono_def mono_def)

lemma AllowRequest_moves:
  assumes "AllowRequest cfg v cs w = (b, cs', w')" "steady_mono w"
  shows "circuit_moves cfg u w cs w' cs'"
proof (cases "cb_enabled cfg")
  case True
  then have cs': "cs' = cs(v \<mapsto> snd (allow_state (reading w) (circuit cs v)))" and w': "w' = snd (steady_now w)"
    using assms(1) by (auto simp: AllowRequest_def steady_now_def split: prod.splits)
  have le: "reading w \<le> reading w'" using reading_next [OF assms(2)] w' by simp
  show ?thesis
  proof (cases "u = v")
    case True
    then show ?thesis
      using le cb_step.ask by (fastforce simp: circuit_moves_def cs')
  next
    case False
    then show ?thesis using le by (auto simp: circuit_moves_def cs' intro: exI [of _ "reading w"])
        (meson order_trans rtranclp.rtrancl_refl)
  qed
qed (use assms in \<open>auto simp: AllowRequest_def intro: circuit_moves_refl\<close>)

lemma RecordResult_moves:
  assumes "RecordResult cfg v b cs w = (cs', w')" "steady_mono w"
  shows "circuit_moves cfg u w cs w' cs'"
proof (cases "cb_enabled cfg")
  case True
  then have cs': "cs' = cs(v \<mapsto> record_state cfg (reading w) b (circuit cs v))" and w': "w' = snd (steady_now w)"
    using assms(1) by (auto simp: RecordResult_def steady_now_def)
  have le: "reading w \<le> reading w'" using reading_next [OF assms(2)] w' by simp
  show ?thesis
  proof (cases "u = v")
    case True
    then show ?thesis
      using le cb_step.result by (fastforce simp: circuit_moves_def cs')
  next
    case False
    then show ?thesis using le by (auto simp: circuit_moves_def cs')
        (meson order_trans rtranclp.rtrancl_refl)
  qed
qed (use assms in \<open>auto simp: RecordResult_def intro: circuit_moves_refl\<close>)

lemma attempt_once_moves:
  assumes "upstream_client inner" "attempt_once cfg inner mx a ctx w st = (res, ctx', w', st')" "steady_mono w"
  shows "circuit_moves (gov_circuit_breaker cfg) u w (fst st) w' (fst st')"
  using assms(2)
proof (cases rule: attempt_once_cases)
  case expired
  then show ?thesis using assms(3) by (auto intro: circuit_moves_refl later_context)
next
  case (called w1 w2 t rsp ctx1 w3 s1 el w4 exc w5 timed ctx2 rsp2 cs1 w6)
  have "later w w3"
    using called(1-3) upstream_client.CallOnce_contract [OF assms(1) called(3)]
    by (blast intro: later_trans later_context later_steady_now)
  then have l5: "later w w5" using called(4,5) by (blast intro: later_trans later_ElapsedMsSince later_context)
  then have m5: "steady_mono w5" using assms(3) later_mono by simp
  have l: "later w5 w6" using called(9) by (rule later_RecordResult)
  have "later w6 w'"
    using called(11) SleepUntil_frame [of ctx2] by auto
  moreover have "steady_mono w6" using m5 l later_mono by simp
  ultimately show ?thesis
    using circuit_moves_trans [OF circuit_moves_refl [OF l5 assms(3)]
        circuit_moves_trans [OF RecordResult_moves [OF called(9) m5] circuit_moves_refl]]
      called(10) by auto
qed

lemma attempt_loop_moves:
  assumes "attempt_loop cfg inner mx a lst ctx w st = (res, ctx', w', st')"
    and "upstream_client inner" "steady_mono w"
  shows "circuit_moves (gov_circuit_breaker cfg) u w (fst st) w' (fst st')"
  using assms(1,3)
proof (induction rule: attempt_loop_rule)
  case (again a lst ctx w st r ctx1 w1 st1 res ctx' w' st')
  have "steady_mono w1"
    using upstream_client.attempt_once_contract [OF assms(2) again(2)] later_mono again(4) by blast
  with again show ?case using attempt_once_moves [OF assms(2) again(2,4)] by (auto intro: circuit_moves_trans)
qed (use attempt_once_moves [OF assms(2)] in \<open>auto intro: circuit_moves_refl\<close>)

lemma Governance_Forward_moves:
  assumes "upstream_client inner" "steady_mono w"
    and "Governance_Forward cfg inner ctx w st = (rsp, ctx', w', st')"
  shows "circuit_moves (gov_circuit_breaker cfg) u w (fst st) w' (fst st')"
proof (cases "gov_enabled cfg")
  case False
  obtain r c v s where i: "inner ctx w (snd st) = (r, c, v, s)" by (metis prod.exhaust)
  then have "later w v" using upstream_client.only_reads [OF assms(1)] by blast
  then show ?thesis using assms(2,3) False i by (auto simp: Governance_Forward_def intro: circuit_moves_refl)
next
  case True
  obtain ok cs1 w1 where a: "AllowRequest (gov_circuit_breaker cfg) (fc_upstream ctx) (fst st) w = (ok, cs1, w1)"
    by (metis prod.exhaust)
  obtain res ctx2 w2 st2 where l: "attempt_loop cfg inner (max_attempts_of cfg) 1 None ctx w1 (cs1, snd st) =
      (res, ctx2, w2, st2)" by (metis prod.exhaust)
  have m1: "steady_mono w1" using later_AllowRequest [OF a] later_mono assms(2) by blast
  have 1: "circuit_moves (gov_circuit_breaker cfg) u w (fst st) w1 cs1"
    using AllowRequest_moves [OF a assms(2)] .
  have 2: "circuit_moves (gov_circuit_breaker cfg) u w1 cs1 w2 (fst st2)"
    using attempt_loop_moves [OF l assms(1) m1] by simp
  from assms(3) True a l have "w' = w1 \<and> fst st' = cs1 \<or> w' = w2 \<and> fst st' = fst st2"
    by (auto simp: Governance_Forward_def split: if_splits sum.splits option.splits)
  with 1 circuit_moves_trans [OF 1 2] show ?thesis by auto
qed

definition circuits_inv :: "CircuitBreakerConfig \<Rightarrow> World \<Rightarrow> circuits \<Rightarrow> bool" where
  "circuits_inv cfg w cs \<longleftrightarrow> (\<forall>u. cb_inv cfg (reading w) (circuit cs u))"

lemma circuits_invD: "circuits_inv cfg w cs \<Longrightarrow> cb_inv cfg (reading w) (circuit cs u)"
  by (simp add: circuits_inv_def)

lemma circuits_inv_init: "cb_ok cfg \<Longrightarrow> circuits_inv cfg w Map.empty"
  by (simp add: circuits_inv_def circuit_def cb_inv_default)

text \<open>The recorded failures of a closed circuit, and the successes of a half-open one.\<close>

lemma failures_closed:
  assumes "cbs_state st = CLOSED" "cbs_consecutive_failures st + int (length ts) < cb_failure_threshold cfg"
  shows "cbs_state (foldl (\<lambda>s t. record_state cfg t False s) st ts) = CLOSED \<and>
    cbs_consecutive_failures (foldl (\<lambda>s t. record_state cfg t False s) st ts) =
      cbs_consecutive_failures st + int (length ts)"
  using assms by (induction ts rule: rev_induct) (auto simp: record_state_def Let_def)

lemma successes_half_open:
  assumes "cbs_state st = HALF_OPEN"
    "cbs_consecutive_successes st + int (length ts) < cb_half_open_success_threshold cfg"
  shows "cbs_state (foldl (\<lambda>s t. record_state cfg t True s) st ts) = HALF_OPEN \<and>
    cbs_consecutive_successes (foldl (\<lambda>s t. record_state cfg t True s) st ts) =
      cbs_consecutive_successes st + int (length ts)"
  using assms by (induction ts rule: rev_induct) (auto simp: record_state_def Let_def)

lemma circuits_inv_forward:
  assumes "upstream_client inner" "steady_mono w" "cb_ok (gov_circuit_breaker cfg)"
    and "circuits_inv (gov_circuit_breaker cfg) w cs"
    and "Governance_Forward cfg inner ctx w (cs, s) = (rsp, ctx', w', (cs', s'))"
  shows "circuits_inv (gov_circuit_breaker cfg) w' cs'"
  unfolding circuits_inv_def
proof
  fix u
  have "circuit_moves (gov_circuit_breaker cfg) u w cs w' cs'"
    using Governance_Forward_moves [OF assms(1,2,5)] by simp
  then obtain t1 where t1: "t1 \<le> reading w'"
    "cb_path (gov_circuit_breaker cfg) (reading w, circuit cs u) (t1, circuit cs' u)"
    by (auto simp: circuit_moves_def)
  from cb_inv_path [OF t1(2) assms(3) circuits_invD [OF assms(4)]] t1(1)
  show "cb_inv (gov_circuit_breaker cfg) (reading w') (circuit cs' u)"
    using cb_inv_mono by blast
qed

section \<open>Properties\<close>

text \<open>The number of calls of the wrapped client during one forward.\<close>

definition calls_made :: "GovernanceConfig \<Rightarrow> 's upstream \<Rightarrow> ForwardContext \<Rightarrow> World \<Rightarrow> circuits \<Rightarrow> 's \<Rightarrow> nat" where
  "calls_made cfg inner ctx w cs s =
     (case Governance_Forward cfg (counting inner) ctx w (cs, 0, s) of (rsp, ctx', w', cs', n, s') \<Rightarrow> n)"

definition demo_ctx :: ForwardContext where
  "demo_ctx = \<lparr>fc_request_id = ''req-1'', fc_upstream = ''user'', fc_upstream_path = ''/profile'',
     fc_method = ''POST'', fc_query = [], fc_body = [], fc_timeout_ms = 1000, fc_deadline = None,
     fc_headers = []\<rparr>"

definition demo_world :: World where
  "demo_world = \<lparr>steady_ns = (\<lambda>n. int n * 1000000000), steady_reads = 5,
     system_ns = (\<lambda>n. 0), system_reads = 0\<rparr>"

lemma steady_mono_demo: "steady_mono demo_world"
  by (simp add: demo_world_def steady_mono_def mono_def)

text \<open>
  C17: One forward calls the wrapped client at most \<^verbatim>\<open>max_attempts\<close> times, and only once
  when retries are off or the method is not idempotent and such methods are not to be
  retried: a failing POST is never repeated behind the client's back.
\<close>

theorem governance_attempts_bounded:
  assumes "upstream_client inner" "gov_enabled cfg"
  shows "calls_made cfg inner ctx w cs s \<le>
    (if retry_enabled (gov_retry cfg) \<and>
        (fc_method ctx \<in> {''GET'', ''HEAD'', ''OPTIONS''} \<or> retry_non_idempotent (gov_retry cfg))
     then nat (max 1 (retry_max_attempts (gov_retry cfg))) else 1)"
proof -
  obtain ok cs1 w1 where a: "AllowRequest (gov_circuit_breaker cfg) (fc_upstream ctx) cs w = (ok, cs1, w1)"
    by (metis prod.exhaust)
  obtain res ctx2 w2 st2 where l: "attempt_loop cfg (counting inner) (max_attempts_of cfg) 1 None ctx w1 (cs1, 0, s) =
      (res, ctx2, w2, st2)" by (metis prod.exhaust)
  have "calls_made cfg inner ctx w cs s = 0 \<or> calls_made cfg inner ctx w cs s = fst (snd st2)"
    using assms(2) a l
    by (cases st2) (auto simp: calls_made_def Governance_Forward_def split: sum.splits option.splits)
  moreover have "CanRetryMethod cfg ctx \<longleftrightarrow>
      fc_method ctx \<in> {''GET'', ''HEAD'', ''OPTIONS''} \<or> retry_non_idempotent (gov_retry cfg)"
    by (simp add: CanRetryMethod_def IsIdempotentMethod_def)
  moreover have "max_attempts_of cfg = max 1 (retry_max_attempts (gov_retry cfg))" if "retry_enabled (gov_retry cfg)"
    using that by (simp add: max_attempts_of_def Let_def)
  ultimately show ?thesis
    using attempt_loop_counting [OF l assms(1)] by auto
qed

theorem governance_attempts_bounded_witness:
  "calls_made GovernanceConfig_default MockUpstreamClient_Forward demo_ctx demo_world Map.empty () \<le> 1"
  using governance_attempts_bounded [OF mock.upstream_client_axioms,
      of GovernanceConfig_default demo_ctx demo_world Map.empty "()"]
  by (simp add: GovernanceConfig_default_def RetryConfig_default_def demo_ctx_def)

text \<open>
  With the fallback enabled no failure reaches the caller: whatever the wrapped client
  answers and however time passes, the answer has a status below 500.
\<close>

theorem governance_masks_failures:
  assumes "gov_enabled cfg" "fb_enabled (gov_fallback cfg)"
  shows "rsp_status (fst (Governance_Forward cfg inner ctx w st)) < 500"
proof -
  obtain ok cs1 w1 where a: "AllowRequest (gov_circuit_breaker cfg) (fc_upstream ctx) (fst st) w = (ok, cs1, w1)"
    by (metis prod.exhaust)
  obtain res ctx2 w2 st2 where l: "attempt_loop cfg inner (max_attempts_of cfg) 1 None ctx w1 (cs1, snd st) =
      (res, ctx2, w2, st2)" by (metis prod.exhaust)
  have "res \<noteq> Inr None" using attempt_loop_result [OF l] max_attempts_pos [of cfg] by auto
  moreover have "\<not> IsFailureResponse r" if "res = Inl r" for r using attempt_loop_result [OF l] that by simp
  ultimately show ?thesis
    using assms a l
    by (auto simp: Governance_Forward_def CircuitOpenResponse_def IsFailureResponse_def
        split: sum.splits option.splits)
qed

theorem governance_masks_failures_witness:
  "rsp_status (fst (Governance_Forward GovernanceConfig_default
     (\<lambda>ctx w s. (BuildErrorResponse 500 INTERNAL_ERROR ''down'' ''req-1'', ctx, w, s)) demo_ctx demo_world (Map.empty, ()))) < 500"
  using governance_masks_failures [of GovernanceConfig_default]
  by (simp add: GovernanceConfig_default_def FallbackConfig_default_def)

text \<open>
  Every forward keeps the invariant of all circuits: a closed circuit has fewer
  consecutive failures than the threshold, a half-open one fewer successes than its own, and
  no circuit is open for longer than the configured time from now.
\<close>

theorem circuit_invariant_kept:
  assumes "upstream_client inner" "steady_mono w" "cb_ok (gov_circuit_breaker cfg)"
    and "circuits_inv (gov_circuit_breaker cfg) w cs"
    and "Governance_Forward cfg inner ctx w (cs, s) = (rsp, ctx', w', (cs', s'))"
  shows "circuits_inv (gov_circuit_breaker cfg) w' cs'"
  by (rule circuits_inv_forward [OF assms])

theorem circuit_invariant_kept_witness:
  "circuits_inv CircuitBreakerConfig_default
     (fst (snd (snd (Governance_Forward GovernanceConfig_default MockUpstreamClient_Forward demo_ctx demo_world (Map.empty, ())))))
     (fst (snd (snd (snd (Governance_Forward GovernanceConfig_default MockUpstreamClient_Forward demo_ctx demo_world (Map.empty, ()))))))"
proof -
  obtain rsp ctx' w' cs' s' where f: "Governance_Forward GovernanceConfig_default MockUpstreamClient_Forward
      demo_ctx demo_world (Map.empty, ()) = (rsp, ctx', w', (cs', s'))"
    by (metis prod.exhaust)
  have ok: "cb_ok (gov_circuit_breaker GovernanceConfig_default)"
    by (simp add: cb_ok_def GovernanceConfig_default_def CircuitBreakerConfig_default_def)
  from circuit_invariant_kept [OF mock.upstream_client_axioms steady_mono_demo ok circuits_inv_init [OF ok] f]
  show ?thesis by (simp add: f) (simp add: GovernanceConfig_default_def)
qed

text \<open>
  C18: Once a circuit has opened, every request to that upstream is refused until the time it
  was opened for has passed, whatever requests and results come in between: the wrapped
  client is not called and the answer says that the circuit is open.
\<close>

theorem open_circuit_refuses:
  assumes "gov_enabled cfg" "cb_enabled (gov_circuit_breaker cfg)" "cb_ok (gov_circuit_breaker cfg)"
    and "cb_inv (gov_circuit_breaker cfg) now st" "cbs_state st = OPEN"
    and "cb_path (gov_circuit_breaker cfg) (now, st) (now', circuit cs (fc_upstream ctx))"
    and "now' \<le> reading w" "reading w < cbs_open_until st"
  shows "Governance_Forward cfg inner ctx w (cs, s) =
      (CircuitOpenResponse cfg ctx, ctx, snd (steady_now w), cs(fc_upstream ctx \<mapsto> circuit cs (fc_upstream ctx)), s) \<and>
    header (CircuitOpenResponse cfg ctx) ''X-Circuit-State'' = Some ''open''"
proof -
  have "cbs_state (circuit cs (fc_upstream ctx)) = OPEN \<and>
      cbs_open_until st \<le> cbs_open_until (circuit cs (fc_upstream ctx))"
    using open_path [OF assms(6,3,4,5)] assms(7,8) by simp
  with assms show ?thesis
    by (simp add: Governance_Forward_def AllowRequest_def allow_state_def steady_now_def
        CircuitOpenResponse_def FallbackResponse_def Let_def)
qed

theorem open_circuit_refuses_witness:
  "fst (Governance_Forward GovernanceConfig_default MockUpstreamClient_Forward demo_ctx demo_world
     ([''user'' \<mapsto> \<lparr>cbs_state = OPEN, cbs_consecutive_failures = 5, cbs_consecutive_successes = 0,
                     cbs_open_until = 6000000000\<rparr>], ())) =
   CircuitOpenResponse GovernanceConfig_default demo_ctx"
proof -
  let ?st = "\<lparr>cbs_state = OPEN, cbs_consecutive_failures = 5, cbs_consecutive_successes = 0, cbs_open_until = 6000000000\<rparr>"
  let ?cfg = "gov_circuit_breaker GovernanceConfig_default"
  have c: "circuit [''user'' \<mapsto> ?st] (fc_upstream demo_ctx) = ?st" by (simp add: circuit_def demo_ctx_def)
  have "cb_ok ?cfg" "cb_inv ?cfg 0 ?st" "cb_enabled ?cfg" "gov_enabled GovernanceConfig_default"
    by (simp_all add: cb_ok_def cb_inv_def GovernanceConfig_default_def CircuitBreakerConfig_default_def)
  moreover have "reading demo_world = 5000000000" by (simp add: demo_world_def)
  ultimately show ?thesis
    using open_circuit_refuses [of GovernanceConfig_default 0 ?st 0 "[''user'' \<mapsto> ?st]" demo_ctx demo_world
        MockUpstreamClient_Forward "()"] c by simp
qed

text \<open>
  C19: A closed circuit opens exactly with the recorded failure that makes the consecutive
  failures reach the threshold, and then for the configured time; a half-open circuit opens
  again at its first failure and closes exactly with the success that reaches its threshold.
\<close>

theorem breaker_transitions:
  assumes "cb_ok cfg"
  shows "(cbs_state st = CLOSED \<and> cbs_consecutive_failures st = 0 \<and>
      int (length ts) + 1 = cb_failure_threshold cfg \<longrightarrow>
      cbs_state (foldl (\<lambda>s t. record_state cfg t False s) st ts) = CLOSED \<and>
      cbs_state (foldl (\<lambda>s t. record_state cfg t False s) st (ts @ [t])) = OPEN \<and>
      cbs_open_until (foldl (\<lambda>s t. record_state cfg t False s) st (ts @ [t])) =
        t + cb_open_seconds cfg * 1000000000) \<and>
    (cbs_state st = HALF_OPEN \<longrightarrow> cbs_state (record_state cfg t False st) = OPEN) \<and>
    (cbs_state st = HALF_OPEN \<and> cbs_consecutive_successes st = 0 \<and>
      int (length ts) + 1 = cb_half_open_success_threshold cfg \<longrightarrow>
      cbs_state (foldl (\<lambda>s t. record_state cfg t True s) st ts) = HALF_OPEN \<and>
      cbs_state (foldl (\<lambda>s t. record_state cfg t True s) st (ts @ [t])) = CLOSED)"
  using failures_closed [of st ts cfg] successes_half_open [of st ts cfg]
  by (auto simp: record_state_def Let_def)

theorem breaker_transitions_witness:
  "cbs_state (foldl (\<lambda>s t. record_state CircuitBreakerConfig_default t False s)
     CircuitBreakerRuntimeState_default ([1, 2, 3, 4] @ [5])) = OPEN"
  using breaker_transitions [of CircuitBreakerConfig_default CircuitBreakerRuntimeState_default "[1, 2, 3, 4]" 5]
  by (simp add: cb_ok_def CircuitBreakerConfig_default_def CircuitBreakerRuntimeState_default_def)

text \<open>
  C20: A request whose deadline is over (or was cancelled) before it is forwarded does not
  reach the wrapped client; the caller gets the answer of an open circuit, the degraded
  answer, or a timeout.
\<close>

theorem expired_request_not_forwarded:
  assumes "gov_enabled cfg" "steady_mono w"
    and "fc_deadline ctx = Some d" "dl_cancelled d \<or> dl_deadline d \<le> reading w"
  shows "calls_made cfg inner ctx w cs s = 0 \<and>
    fst (Governance_Forward cfg inner ctx w (cs, s)) \<in>
      {CircuitOpenResponse cfg ctx,
       if fb_enabled (gov_fallback cfg) then FallbackResponse cfg ctx ''all retry attempts failed''
       else TimeoutResponse ctx 1}"
proof -
  obtain ok cs1 w1 where a: "AllowRequest (gov_circuit_breaker cfg) (fc_upstream ctx) cs w = (ok, cs1, w1)"
    by (metis prod.exhaust)
  have "reading w \<le> reading w1" using later_reading [OF later_AllowRequest [OF a] assms(2)] .
  then have "fst (DeadlineExceeded ctx w1)" using DeadlineExceeded_reads [OF assms(3)] assms(4) by auto
  then obtain w2 where e: "DeadlineExceeded ctx w1 = (True, w2)" by (metis prod.collapse)
  show ?thesis
    using assms(1) a attempt_loop_expired [OF e max_attempts_pos, where inner = "counting inner"]
      attempt_loop_expired [OF e max_attempts_pos, where inner = inner]
    by (auto simp: calls_made_def Governance_Forward_def IsFailureResponse_def FallbackResponse_def)
qed

theorem expired_request_not_forwarded_witness:
  "calls_made GovernanceConfig_default MockUpstreamClient_Forward
     (demo_ctx\<lparr>fc_deadline := Some \<lparr>dl_start = 0, dl_deadline = 1000, dl_cancelled = False, dl_cancel_reason = []\<rparr>\<rparr>)
     demo_world Map.empty () = 0"
proof -
  let ?d = "\<lparr>dl_start = 0, dl_deadline = 1000, dl_cancelled = False, dl_cancel_reason = []\<rparr>"
  have "gov_enabled GovernanceConfig_default" by (simp add: GovernanceConfig_default_def)
  moreover have "dl_deadline ?d \<le> reading demo_world" by (simp add: demo_world_def)
  ultimately show ?thesis
    using expired_request_not_forwarded [of GovernanceConfig_default demo_world
        "demo_ctx\<lparr>fc_deadline := Some ?d\<rparr>" ?d MockUpstreamClient_Forward Map.empty "()"]
      steady_mono_demo by simp
qed

text \<open>
  Whatever path a request takes through the decorator (refused, timed out, retried,
  degraded or answered), its answer carries the request's id, provided the wrapped client's
  answers do.
\<close>

theorem governed_answers_carry_request_id:
  assumes "upstream_client inner"
  shows "header (fst (Governance_Forward cfg inner ctx w st)) ''X-Request-Id'' = Some (fc_request_id ctx)"
  using upstream_client.answers_id [OF governed_client [OF assms]] by (metis prod.collapse)

theorem governed_answers_carry_request_id_witness:
  "header (fst (Governance_Forward GovernanceConfig_default MockUpstreamClient_Forward demo_ctx demo_world
     (Map.empty, ()))) ''X-Request-Id'' = Some ''req-1''"
  using governed_answers_carry_request_id [OF mock.upstream_client_axioms, of GovernanceConfig_default demo_ctx
      demo_world "(Map.empty, ())"]
  by (simp add: demo_ctx_def)

end
