(* ===== verification/LocalRpc.thy ===== *)
theory LocalRpc
  imports FieldParsing Users Stores TokenService Governance
begin

text \<open>
  The in-process upstream client of \<^verbatim>\<open>src/gateway/local_rpc_upstream_client.cc\<close>: it
  turns a forward context into a call of one of the three services and the answer of the
  service into an HTTP response. The user service is any implementation of its interface;
  the RPC context shares the deadline object of the forward context, so that a cancellation
  by the service is one of the caller's deadline.
\<close>

section \<open>Contexts, codes and answers\<close>

definition BuildRpcContext :: "ForwardContext \<Rightarrow> World \<Rightarrow> RpcContext \<times> World" where
  "BuildRpcContext ctx w =
     (case RpcContext_default w of (r, w') \<Rightarrow>
        let r1 = r\<lparr>rpc_request_id := fc_request_id ctx, rpc_caller := ''tgw-gateway'',
                   rpc_timeout_ms := fc_timeout_ms ctx, rpc_deadline := fc_deadline ctx,
                   rpc_headers := fc_headers ctx\<rparr>;
            r2 = (case om_get (fc_headers ctx) ''X-Trace-Id'' of None \<Rightarrow> r1 | Some v \<Rightarrow> r1\<lparr>rpc_trace_id := v\<rparr>);
            r3 = (case om_get (fc_headers ctx) ''X-User-Id'' of None \<Rightarrow> r2 | Some v \<Rightarrow> r2\<lparr>rpc_user_id := v\<rparr>)
        in (r3, w'))"

fun MapRpcCode :: "RpcCode \<Rightarrow> ErrorCode" where
  "MapRpcCode RPC_OK = OK"
| "MapRpcCode RPC_INVALID_ARGUMENT = BAD_REQUEST"
| "MapRpcCode RPC_UNAUTHORIZED = UNAUTHORIZED"
| "MapRpcCode RPC_NOT_FOUND = NOT_FOUND"
| "MapRpcCode RpcCode.RPC_TIMEOUT = ErrorCode.RPC_TIMEOUT"
| "MapRpcCode RPC_INTERNAL_ERROR = RPC_FAILED"
| "MapRpcCode (RPC_UNKNOWN n) = RPC_FAILED"

fun MapHttpStatus :: "RpcCode \<Rightarrow> int" where
  "MapHttpStatus RPC_OK = 200"
| "MapHttpStatus RPC_INVALID_ARGUMENT = 400"
| "MapHttpStatus RPC_UNAUTHORIZED = 401"
| "MapHttpStatus RPC_NOT_FOUND = 404"
| "MapHttpStatus RpcCode.RPC_TIMEOUT = 504"
| "MapHttpStatus RPC_INTERNAL_ERROR = 502"
| "MapHttpStatus (RPC_UNKNOWN n) = 502"

definition BuildJsonResponse :: "int \<Rightarrow> ApiResponse \<Rightarrow> string \<Rightarrow> HttpResponse" where
  "BuildJsonResponse status api_response request_id =
     set_header ''X-Request-Id'' request_id
       (HttpResponse_default\<lparr>rsp_status := status, rsp_content_type := ''application/json'',
                             rsp_body := ToJson api_response\<rparr>)"

definition BuildRpcResponse :: "RpcMeta \<Rightarrow> string \<Rightarrow> string \<Rightarrow> HttpResponse" where
  "BuildRpcResponse meta data_json request_id =
     (if meta_code meta = RPC_OK then BuildJsonResponse 200 (ApiResponse_Success data_json) request_id
      else BuildJsonResponse (MapHttpStatus (meta_code meta))
             \<lparr>api_code = ErrorCode_int (MapRpcCode (meta_code meta)), api_message = meta_message meta,
              api_data_raw_json = ''null''\<rparr> request_id)"

definition NotFound :: "string \<Rightarrow> string \<Rightarrow> HttpResponse" where
  "NotFound message request_id = BuildJsonResponse 404 (ApiResponse_Error NOT_FOUND message) request_id"

definition BadRequest :: "string \<Rightarrow> string \<Rightarrow> HttpResponse" where
  "BadRequest message request_id = BuildJsonResponse 400 (ApiResponse_Error BAD_REQUEST message) request_id"

definition InternalError :: "string \<Rightarrow> string \<Rightarrow> HttpResponse" where
  "InternalError message request_id = BuildJsonResponse 500 (ApiResponse_Error INTERNAL_ERROR message) request_id"

definition DeadlineExceeded_response :: "ForwardContext \<Rightarrow> HttpResponse" where
  "DeadlineExceeded_response ctx =
     BuildJsonResponse 504 (ApiResponse_Error ErrorCode.RPC_TIMEOUT ''deadline exceeded'') (fc_request_id ctx)"

definition IsDeadlineExceeded :: "ForwardContext \<Rightarrow> World \<Rightarrow> bool \<times> ForwardContext \<times> World" where
  "IsDeadlineExceeded ctx w =
     (case DeadlineExceeded ctx w of (exceeded, w') \<Rightarrow>
        if \<not> exceeded then (False, ctx, w') else (True, CancelDeadline ''deadline exceeded'' ctx, w'))"

section \<open>The handlers\<close>

text \<open>
  The client's services; the token service is present or not. A handler ends with a response
  or with an exception, in a context whose deadline may have been cancelled.
\<close>

record 'u LocalRpcState =
  lr_users :: 'u
  lr_files :: FileMetaServiceImpl
  lr_tasks :: TaskServiceImpl

type_synonym 'u handled = "HttpResponse result \<times> ForwardContext \<times> World \<times> 'u LocalRpcState"

text \<open>\<^verbatim>\<open>if (IsDeadlineExceeded(ctx)) return DeadlineExceeded(ctx);\<close>\<close>

definition unless_exceeded ::
  "ForwardContext \<Rightarrow> World \<Rightarrow> 'u LocalRpcState \<Rightarrow> (World \<Rightarrow> 'u handled) \<Rightarrow> 'u handled" where
  "unless_exceeded ctx w st k =
     (case IsDeadlineExceeded ctx w of (exceeded, ctx', w') \<Rightarrow>
        if exceeded then (Inr (DeadlineExceeded_response ctx'), ctx', w', st) else k w')"

text \<open>An expression that may throw, and the rest of the handler.\<close>

definition or_throw ::
  "'a result \<Rightarrow> ForwardContext \<Rightarrow> World \<Rightarrow> 'u LocalRpcState \<Rightarrow> ('a \<Rightarrow> 'u handled) \<Rightarrow> 'u handled" where
  "or_throw r ctx w st k = (case r of Inl e \<Rightarrow> (Inl e, ctx, w, st) | Inr a \<Rightarrow> k a)"

text \<open>The forward context after a service call on the RPC context that shares its deadline.\<close>

definition shared_deadline :: "ForwardContext \<Rightarrow> RpcContext \<Rightarrow> ForwardContext" where
  "shared_deadline ctx rpc_ctx = ctx\<lparr>fc_deadline := rpc_deadline rpc_ctx\<rparr>"

text \<open>A user id from the request, or from the authenticated user if there is none.\<close>

definition user_id_field :: "FieldMap \<Rightarrow> string \<Rightarrow> RpcContext \<Rightarrow> int result" where
  "user_id_field fs key rpc_ctx =
     bind_result (GetInt64 fs key) (\<lambda>user_id.
       if user_id = 0 \<and> rpc_user_id rpc_ctx \<noteq> [] then stoll (rpc_user_id rpc_ctx) else Inr user_id)"

definition login_token :: "AuthConfig option \<Rightarrow> LoginResponse \<Rightarrow> string \<Rightarrow> World \<Rightarrow> string \<times> World" where
  "login_token token_service rsp request_id w =
     (case token_service of
        Some cfg \<Rightarrow>
          if meta_code (lrs_meta rsp) = RPC_OK
          then (case svc_NowUnixSeconds w of (now, w') \<Rightarrow>
                  (IssueToken cfg now (lrs_user_id rsp) (lrs_username rsp) (lrs_role rsp) request_id, w'))
          else (lrs_token rsp, w)
      | None \<Rightarrow> (lrs_token rsp, w))"

definition forward_login ::
  "'u UserServiceOps \<Rightarrow> AuthConfig option \<Rightarrow> RpcContext \<Rightarrow> ForwardContext \<Rightarrow> World \<Rightarrow> 'u LocalRpcState \<Rightarrow> 'u handled" where
  "forward_login ops token_service rpc_ctx ctx w st =
     unless_exceeded ctx w st (\<lambda>w1.
     or_throw (ParseFlatJsonObject (fc_body ctx)) ctx w1 st (\<lambda>body.
       let req = \<lparr>lrq_username = GetString body ''username'', lrq_password = GetString body ''password''\<rparr> in
       unless_exceeded ctx w1 st (\<lambda>w2.
         case us_Login ops rpc_ctx req w2 (lr_users st) of (r, rpc_ctx', w3, u) \<Rightarrow>
           let ctx' = shared_deadline ctx rpc_ctx'; st' = st\<lparr>lr_users := u\<rparr> in
           or_throw r ctx' w3 st' (\<lambda>rsp.
             case login_token token_service rsp (fc_request_id ctx) w3 of (token, w4) \<Rightarrow>
               (Inr (BuildRpcResponse (lrs_meta rsp)
                  (json_object [(''user_id'', show_int (lrs_user_id rsp), False),
                                (''username'', lrs_username rsp, True),
                                (''role'', lrs_role rsp, True),
                                (''token'', token, True),
                                (''token_type'', ''Bearer'', True)]) (fc_request_id ctx)),
                ctx', w4, st')))))"

definition forward_profile ::
  "'u UserServiceOps \<Rightarrow> RpcContext \<Rightarrow> ForwardContext \<Rightarrow> World \<Rightarrow> 'u LocalRpcState \<Rightarrow> 'u handled" where
  "forward_profile ops rpc_ctx ctx w st =
     unless_exceeded ctx w st (\<lambda>w1.
       let query = ParseQuery (fc_query ctx) in
       or_throw (user_id_field query ''user_id'' rpc_ctx) ctx w1 st (\<lambda>user_id.
       unless_exceeded ctx w1 st (\<lambda>w2.
         case us_GetProfile ops rpc_ctx \<lparr>prq_user_id = user_id\<rparr> w2 (lr_users st) of (r, rpc_ctx', w3, u) \<Rightarrow>
           let ctx' = shared_deadline ctx rpc_ctx'; st' = st\<lparr>lr_users := u\<rparr> in
           or_throw r ctx' w3 st' (\<lambda>rsp.
             (Inr (BuildRpcResponse (prs_meta rsp)
                (json_object [(''user_id'', show_int (up_user_id (prs_profile rsp)), False),
                              (''username'', up_username (prs_profile rsp), True),
                              (''email'', up_email (prs_profile rsp), True),
                              (''role'', up_role (prs_profile rsp), True)]) (fc_request_id ctx)),
              ctx', w3, st')))))"

definition ForwardUserService ::
  "'u UserServiceOps \<Rightarrow> AuthConfig option \<Rightarrow> ForwardContext \<Rightarrow> World \<Rightarrow> 'u LocalRpcState \<Rightarrow> 'u handled" where
  "ForwardUserService ops token_service ctx w st =
     (case BuildRpcContext ctx w of (rpc_ctx, w0) \<Rightarrow>
        if fc_method ctx = ''POST'' \<and> fc_upstream_path ctx = ''/login''
        then forward_login ops token_service rpc_ctx ctx w0 st
        else if fc_method ctx = ''GET'' \<and> fc_upstream_path ctx = ''/profile''
        then forward_profile ops rpc_ctx ctx w0 st
        else (Inr (NotFound (''UserService method not found: '' @ fc_upstream_path ctx) (fc_request_id ctx)),
              ctx, w0, st))"

definition forward_file_create :: "RpcContext \<Rightarrow> ForwardContext \<Rightarrow> World \<Rightarrow> 'u LocalRpcState \<Rightarrow> 'u handled" where
  "forward_file_create rpc_ctx ctx w st =
     unless_exceeded ctx w st (\<lambda>w1.
     or_throw (ParseFlatJsonObject (fc_body ctx)) ctx w1 st (\<lambda>body.
     or_throw (GetInt64 body ''size'') ctx w1 st (\<lambda>size.
     or_throw (user_id_field body ''owner_user_id'' rpc_ctx) ctx w1 st (\<lambda>owner_user_id.
       let req = \<lparr>cfq_filename = GetString body ''filename'', cfq_size = size,
                  cfq_content_type = GetString body ''content_type'', cfq_owner_user_id = owner_user_id\<rparr> in
       unless_exceeded ctx w1 st (\<lambda>w2.
         case CreateFileMeta rpc_ctx req w2 (lr_files st) of (rsp, rpc_ctx', w3, files) \<Rightarrow>
           (Inr (BuildRpcResponse (cfs_meta rsp) (json_object [(''file_id'', cfs_file_id rsp, True)]) (fc_request_id ctx)),
            shared_deadline ctx rpc_ctx', w3, st\<lparr>lr_files := files\<rparr>))))))"

definition forward_file_get :: "RpcContext \<Rightarrow> ForwardContext \<Rightarrow> World \<Rightarrow> 'u LocalRpcState \<Rightarrow> 'u handled" where
  "forward_file_get rpc_ctx ctx w st =
     unless_exceeded ctx w st (\<lambda>w1.
       let query = ParseQuery (fc_query ctx); req = \<lparr>gfq_file_id = GetString query ''file_id''\<rparr> in
       unless_exceeded ctx w1 st (\<lambda>w2.
         case GetFileMeta rpc_ctx req w2 (lr_files st) of (rsp, rpc_ctx', w3) \<Rightarrow>
           (Inr (BuildRpcResponse (gfs_meta rsp)
              (json_object [(''file_id'', fm_file_id (gfs_file rsp), True),
                            (''filename'', fm_filename (gfs_file rsp), True),
                            (''size'', show_int (fm_size (gfs_file rsp)), False),
                            (''content_type'', fm_content_type (gfs_file rsp), True),
                            (''owner_user_id'', show_int (fm_owner_user_id (gfs_file rsp)), False),
                            (''created_at'', show_int (fm_created_at (gfs_file rsp)), False)]) (fc_request_id ctx)),
            shared_deadline ctx rpc_ctx', w3, st)))"

definition ForwardFileMetaService :: "ForwardContext \<Rightarrow> World \<Rightarrow> 'u LocalRpcState \<Rightarrow> 'u handled" where
  "ForwardFileMetaService ctx w st =
     (case BuildRpcContext ctx w of (rpc_ctx, w0) \<Rightarrow>
        if fc_method ctx = ''POST'' \<and> fc_upstream_path ctx = ''/meta/create''
        then forward_file_create rpc_ctx ctx w0 st
        else if fc_method ctx = ''GET'' \<and> fc_upstream_path ctx = ''/meta''
        then forward_file_get rpc_ctx ctx w0 st
        else (Inr (NotFound (''FileMetaService method not found: '' @ fc_upstream_path ctx) (fc_request_id ctx)),
              ctx, w0, st))"

definition forward_task_create :: "RpcContext \<Rightarrow> ForwardContext \<Rightarrow> World \<Rightarrow> 'u LocalRpcState \<Rightarrow> 'u handled" where
  "forward_task_create rpc_ctx ctx w st =
     unless_exceeded ctx w st (\<lambda>w1.
     or_throw (ParseFlatJsonObject (fc_body ctx)) ctx w1 st (\<lambda>body.
     or_throw (user_id_field body ''user_id'' rpc_ctx) ctx w1 st (\<lambda>user_id.
       let req = \<lparr>ctq_task_type = GetString body ''task_type'', ctq_payload = GetString body ''payload'',
                  ctq_user_id = user_id\<rparr> in
       unless_exceeded ctx w1 st (\<lambda>w2.
         case CreateTask rpc_ctx req w2 (lr_tasks st) of (rsp, rpc_ctx', w3, tasks) \<Rightarrow>
           (Inr (BuildRpcResponse (cts_meta rsp) (json_object [(''task_id'', cts_task_id rsp, True)]) (fc_request_id ctx)),
            shared_deadline ctx rpc_ctx', w3, st\<lparr>lr_tasks := tasks\<rparr>)))))"

definition forward_task_get :: "RpcContext \<Rightarrow> ForwardContext \<Rightarrow> World \<Rightarrow> 'u LocalRpcState \<Rightarrow> 'u handled" where
  "forward_task_get rpc_ctx ctx w st =
     unless_exceeded ctx w st (\<lambda>w1.
       let query = ParseQuery (fc_query ctx); req = \<lparr>gtq_task_id = GetString query ''task_id''\<rparr> in
       unless_exceeded ctx w1 st (\<lambda>w2.
         case GetTask rpc_ctx req w2 (lr_tasks st) of (rsp, rpc_ctx', w3) \<Rightarrow>
           (Inr (BuildRpcResponse (gts_meta rsp)
              (json_object [(''task_id'', ti_task_id (gts_task rsp), True),
                            (''task_type'', ti_task_type (gts_task rsp), True),
                            (''status'', show_int (ti_status (gts_task rsp)), False),
                            (''result'', ti_result (gts_task rsp), True),
                            (''user_id'', show_int (ti_user_id (gts_task rsp)), False),
                            (''created_at'', show_int (ti_created_at (gts_task rsp)), False),
                            (''updated_at'', show_int (ti_updated_at (gts_task rsp)), False)]) (fc_request_id ctx)),
            shared_deadline ctx rpc_ctx', w3, st)))"

definition forward_task_event :: "RpcContext \<Rightarrow> ForwardContext \<Rightarrow> World \<Rightarrow> 'u LocalRpcState \<Rightarrow> 'u handled" where
  "forward_task_event rpc_ctx ctx w st =
     unless_exceeded ctx w st (\<lambda>w1.
     or_throw (ParseFlatJsonObject (fc_body ctx)) ctx w1 st (\<lambda>body.
     or_throw (GetInt64 body ''status'') ctx w1 st (\<lambda>status.
     or_throw (GetInt64 body ''timestamp'') ctx w1 st (\<lambda>timestamp.
       let event = \<lparr>ev_task_id = GetString body ''task_id'', ev_status = cast_int status,
                    ev_message = GetString body ''message'', ev_timestamp = timestamp\<rparr> in
       unless_exceeded ctx w1 st (\<lambda>w2.
         case SubmitTaskEvent rpc_ctx event w2 (lr_tasks st) of (rpc_ctx', w3, tasks) \<Rightarrow>
           (Inr (BuildJsonResponse 200
              (ApiResponse_Success (json_object [(''accepted'', ''true'', False), (''task_id'', ev_task_id event, True)]))
              (fc_request_id ctx)),
            shared_deadline ctx rpc_ctx', w3, st\<lparr>lr_tasks := tasks\<rparr>))))))"

definition ForwardTaskService :: "ForwardContext \<Rightarrow> World \<Rightarrow> 'u LocalRpcState \<Rightarrow> 'u handled" where
  "ForwardTaskService ctx w st =
     (case BuildRpcContext ctx w of (rpc_ctx, w0) \<Rightarrow>
        if fc_method ctx = ''POST'' \<and> fc_upstream_path ctx = ''/create''
        then forward_task_create rpc_ctx ctx w0 st
        else if fc_method ctx = ''GET'' \<and> fc_upstream_path ctx = ''/get''
        then forward_task_get rpc_ctx ctx w0 st
        else if fc_method ctx = ''POST'' \<and> fc_upstream_path ctx = ''/event''
        then forward_task_event rpc_ctx ctx w0 st
        else (Inr (NotFound (''TaskService method not found: '' @ fc_upstream_path ctx) (fc_request_id ctx)),
              ctx, w0, st))"

section \<open>The client\<close>

text \<open>The body of the \<^verbatim>\<open>try\<close> block, and the two handlers behind it.\<close>

definition local_dispatch ::
  "'u UserServiceOps \<Rightarrow> AuthConfig option \<Rightarrow> ForwardContext \<Rightarrow> World \<Rightarrow> 'u LocalRpcState \<Rightarrow> 'u handled" where
  "local_dispatch ops token_service ctx w st =
     unless_exceeded ctx w st (\<lambda>w1.
       if fc_upstream ctx = ''UserService'' then ForwardUserService ops token_service ctx w1 st
       else if fc_upstream ctx = ''FileMetaService'' then ForwardFileMetaService ctx w1 st
       else if fc_upstream ctx = ''TaskService'' then ForwardTaskService ctx w1 st
       else (Inr (NotFound (''unknown upstream service: '' @ fc_upstream ctx) (fc_request_id ctx)), ctx, w1, st))"

definition catch_exn :: "string \<Rightarrow> exn \<Rightarrow> HttpResponse" where
  "catch_exn request_id e =
     (case e of Invalid_argument m \<Rightarrow> BadRequest m request_id | _ \<Rightarrow> InternalError (what e) request_id)"

definition LocalRpc_Forward :: "'u UserServiceOps \<Rightarrow> AuthConfig option \<Rightarrow> 'u LocalRpcState upstream" where
  "LocalRpc_Forward ops token_service ctx w st =
     (case local_dispatch ops token_service ctx w st of
        (Inr rsp, ctx', w', st') \<Rightarrow> (rsp, ctx', w', st')
      | (Inl e, ctx', w', st') \<Rightarrow> (catch_exn (fc_request_id ctx) e, ctx', w', st'))"

section \<open>The contract of the client\<close>

text \<open>
  What every handler keeps, from the start of the request: the deadline is at most
  cancelled, the clocks are only read, a response carries the request's id.
\<close>

definition handled_ok :: "ForwardContext \<Rightarrow> World \<Rightarrow> 'u handled \<Rightarrow> bool" where
  "handled_ok ctx w h =
     (case h of (r, ctx', w', st') \<Rightarrow> ctx_extends ctx ctx' \<and> later w w' \<and>
        (\<forall>rsp. r = Inr rsp \<longrightarrow> header rsp ''X-Request-Id'' = Some (fc_request_id ctx)))"

named_theorems handled_rules "how a handler's contract follows from the one of its parts"

lemma answers_id [simp]:
  "header (BuildJsonResponse st api i) ''X-Request-Id'' = Some i"
  "header (BuildRpcResponse meta d i) ''X-Request-Id'' = Some i"
  "header (NotFound m i) ''X-Request-Id'' = Some i"
  "header (BadRequest m i) ''X-Request-Id'' = Some i"
  "header (InternalError m i) ''X-Request-Id'' = Some i"
  "header (catch_exn i e) ''X-Request-Id'' = Some i"
  "header (DeadlineExceeded_response ctx) ''X-Request-Id'' = Some (fc_request_id ctx)"
  by (simp_all add: BuildJsonResponse_def BuildRpcResponse_def NotFound_def BadRequest_def InternalError_def
      DeadlineExceeded_response_def catch_exn_def split: exn.split)

lemma handled_unless_exceeded [handled_rules]:
  assumes "later w0 w" "\<And>w'. later w0 w' \<Longrightarrow> handled_ok ctx w0 (k w')"
  shows "handled_ok ctx w0 (unless_exceeded ctx w st k)"
proof -
  obtain e w' where e: "DeadlineExceeded ctx w = (e, w')" by fastforce
  have "later w0 w'" using later_trans [OF assms(1) later_context(1) [OF e]] .
  with assms(2) e show ?thesis
    by (auto simp: unless_exceeded_def IsDeadlineExceeded_def handled_ok_def DeadlineExceeded_response_def)
qed

lemma handled_or_throw [handled_rules]:
  assumes "later w0 w" "ctx_extends ctx ctx'" "\<And>a. r = Inr a \<Longrightarrow> handled_ok ctx w0 (k a)"
  shows "handled_ok ctx w0 (or_throw r ctx' w st k)"
  using assms by (auto simp: or_throw_def handled_ok_def split: sum.splits)

lemma handled_answer [handled_rules]:
  "later w0 w \<Longrightarrow> ctx_extends ctx ctx' \<Longrightarrow> header rsp ''X-Request-Id'' = Some (fc_request_id ctx) \<Longrightarrow>
   handled_ok ctx w0 (Inr rsp, ctx', w, st)"
  by (simp add: handled_ok_def)

lemma shared_deadline_extends:
  assumes "rctx_extends rpc_ctx rpc_ctx'" "rpc_deadline rpc_ctx = fc_deadline ctx"
  shows "ctx_extends ctx (shared_deadline ctx rpc_ctx')"
  using assms by (simp add: ctx_extends_def rctx_extends_def shared_deadline_def)

lemma BuildRpcContext_frame:
  assumes "BuildRpcContext ctx w = (rpc_ctx, w')"
  shows "rpc_deadline rpc_ctx = fc_deadline ctx \<and> rpc_request_id rpc_ctx = fc_request_id ctx \<and> later w w'"
proof -
  obtain r w1 where r: "RpcContext_default w = (r, w1)" by fastforce
  then have "later w w1" by (auto simp: RpcContext_default_def intro: later_steady_now split: prod.splits)
  with assms r show ?thesis by (auto simp: BuildRpcContext_def Let_def split: option.splits)
qed

lemma later_login_token: "login_token ts rsp i w = (t, w') \<Longrightarrow> later w w'"
  by (auto simp: login_token_def intro: later_intros split: option.splits if_splits prod.splits)

text \<open>
  The rules for a service call: \<open>call\<close> is the result of the call on the shared deadline, and
  the handler goes on from the world it leaves.
\<close>

lemma service_called:
  assumes "later w0 w" "rpc_deadline rpc_ctx = fc_deadline ctx" "later w w' \<and> rctx_extends rpc_ctx rpc_ctx'"
  shows "later w0 w' \<and> ctx_extends ctx (shared_deadline ctx rpc_ctx')"
  using assms later_trans shared_deadline_extends by blast

lemmas service_calls = service_called [rotated 2, OF CreateFileMeta_frame] service_called [rotated 2, OF GetFileMeta_frame]
  service_called [rotated 2, OF CreateTask_frame] service_called [rotated 2, OF GetTask_frame]
  service_called [rotated 2, OF SubmitTaskEvent_frame]

lemma forward_file_create_ok:
  assumes "rpc_deadline rpc_ctx = fc_deadline ctx" "later w0 w"
  shows "handled_ok ctx w0 (forward_file_create rpc_ctx ctx w st)"
  unfolding forward_file_create_def Let_def
  by (intro handled_rules assms(2) ctx_extends_refl)
     (use assms(1) in \<open>auto intro!: handled_answer dest!: service_calls split: prod.split\<close>)

lemma forward_file_get_ok:
  assumes "rpc_deadline rpc_ctx = fc_deadline ctx" "later w0 w"
  shows "handled_ok ctx w0 (forward_file_get rpc_ctx ctx w st)"
  unfolding forward_file_get_def Let_def
  by (intro handled_rules assms(2) ctx_extends_refl)
     (use assms(1) in \<open>auto intro!: handled_answer dest!: service_calls split: prod.split\<close>)

lemma forward_task_create_ok:
  assumes "rpc_deadline rpc_ctx = fc_deadline ctx" "later w0 w"
  shows "handled_ok ctx w0 (forward_task_create rpc_ctx ctx w st)"
  unfolding forward_task_create_def Let_def
  by (intro handled_rules assms(2) ctx_extends_refl)
     (use assms(1) in \<open>auto intro!: handled_answer dest!: service_calls split: prod.split\<close>)

lemma forward_task_get_ok:
  assumes "rpc_deadline rpc_ctx = fc_deadline ctx" "later w0 w"
  shows "handled_ok ctx w0 (forward_task_get rpc_ctx ctx w st)"
  unfolding forward_task_get_def Let_def
  by (intro handled_rules assms(2) ctx_extends_refl)
     (use assms(1) in \<open>auto intro!: handled_answer dest!: service_calls split: prod.split\<close>)

lemma forward_task_event_ok:
  assumes "rpc_deadline rpc_ctx = fc_deadline ctx" "later w0 w"
  shows "handled_ok ctx w0 (forward_task_event rpc_ctx ctx w st)"
  unfolding forward_task_event_def Let_def
  by (intro handled_rules assms(2) ctx_extends_refl)
     (use assms(1) in \<open>auto intro!: handled_answer dest!: service_calls split: prod.split\<close>)

lemmas forward_store_ok = forward_file_create_ok forward_file_get_ok forward_task_create_ok forward_task_get_ok
  forward_task_event_ok

lemma later_rpc_context: "later w0 w \<Longrightarrow> BuildRpcContext ctx w = (rpc_ctx, w') \<Longrightarrow>
    rpc_deadline rpc_ctx = fc_deadline ctx \<and> later w0 w'"
  using BuildRpcContext_frame later_trans by blast

lemma forward_service_ok:
  assumes "later w0 w"
  shows "handled_ok ctx w0 (ForwardFileMetaService ctx w st)" "handled_ok ctx w0 (ForwardTaskService ctx w st)"
proof -
  obtain rpc_ctx w' where b: "BuildRpcContext ctx w = (rpc_ctx, w')" by fastforce
  note r = later_rpc_context [OF assms b]
  show "handled_ok ctx w0 (ForwardFileMetaService ctx w st)" "handled_ok ctx w0 (ForwardTaskService ctx w st)"
    using r by (simp_all add: ForwardFileMetaService_def ForwardTaskService_def b handled_answer forward_store_ok)
qed

context user_service
begin

lemmas user_calls = service_called [rotated 2, OF login_frame] service_called [rotated 2, OF profile_frame]

lemma later_token: "login_token ts rsp i w = (t, w') \<Longrightarrow> later w0 w \<Longrightarrow> later w0 w'"
  using later_login_token later_trans by blast

lemma forward_login_ok:
  assumes "rpc_deadline rpc_ctx = fc_deadline ctx" "later w0 w"
  shows "handled_ok ctx w0 (forward_login ops ts rpc_ctx ctx w st)"
  unfolding forward_login_def Let_def
  by (intro handled_rules assms(2) ctx_extends_refl)
     (use assms(1) in \<open>auto intro!: handled_answer handled_or_throw dest!: user_calls dest: later_token split: prod.split\<close>)

lemma forward_profile_ok:
  assumes "rpc_deadline rpc_ctx = fc_deadline ctx" "later w0 w"
  shows "handled_ok ctx w0 (forward_profile ops rpc_ctx ctx w st)"
  unfolding forward_profile_def Let_def
  by (intro handled_rules assms(2) ctx_extends_refl)
     (use assms(1) in \<open>auto intro!: handled_answer handled_or_throw dest!: user_calls dest: later_token split: prod.split\<close>)

lemma forward_user_service_ok:
  assumes "later w0 w"
  shows "handled_ok ctx w0 (ForwardUserService ops ts ctx w st)"
proof -
  obtain rpc_ctx w' where b: "BuildRpcContext ctx w = (rpc_ctx, w')" by fastforce
  show ?thesis
    using later_rpc_context [OF assms b]
    by (simp add: ForwardUserService_def b handled_answer forward_login_ok forward_profile_ok)
qed

lemma local_dispatch_ok: "handled_ok ctx w (local_dispatch ops ts ctx w st)"
  unfolding local_dispatch_def
  by (rule handled_unless_exceeded [OF later_refl])
     (simp add: forward_user_service_ok forward_service_ok handled_answer)

lemma local_upstream_client: "upstream_client (LocalRpc_Forward ops ts)"
proof
  fix ctx w s rsp ctx' w' s'
  assume "LocalRpc_Forward ops ts ctx w s = (rsp, ctx', w', s')"
  moreover obtain r c v t where d: "local_dispatch ops ts ctx w s = (r, c, v, t)" by (metis prod.exhaust)
  ultimately have "c = ctx'" "v = w'" "(\<exists>e. r = Inl e \<and> rsp = catch_exn (fc_request_id ctx) e) \<or> r = Inr rsp"
    by (auto simp: LocalRpc_Forward_def split: sum.splits)
  moreover have "handled_ok ctx w (r, c, v, t)" using local_dispatch_ok [of ctx w ts s] d by simp
  ultimately show "header rsp ''X-Request-Id'' = Some (fc_request_id ctx)" "ctx_extends ctx ctx'" "later w w'"
    by (auto simp: handled_ok_def)
qed

end

interpretation local_client: upstream_client "LocalRpc_Forward (UserServiceImpl repo) ts"
  by (rule impl.local_upstream_client)

section \<open>Failures seen by the circuit breaker\<close>

text \<open>
  A request on which the wrapped client fails in every state and at every time, whatever has
  happened to its deadline.
\<close>

definition always_fails :: "'s upstream \<Rightarrow> ForwardContext \<Rightarrow> bool" where
  "always_fails inner ctx \<longleftrightarrow> (\<forall>ctx' w s. ctx_extends ctx ctx' \<longrightarrow> IsFailureResponse (fst (inner ctx' w s)))"

lemma failure_500 [simp]: "IsFailureResponse rsp \<longleftrightarrow> 500 \<le> rsp_status rsp"
  by (auto simp: IsFailureResponse_def)

lemma CallOnce_fails:
  assumes "always_fails inner ctx" "CallOnce inner ctx w s = (rsp, ctx', w', s')"
  shows "IsFailureResponse rsp"
proof -
  let ?ms = "HeaderToInt (fc_headers ctx) ''X-Debug-Sleep-Ms'' 0"
  obtain ready ctx1 w1 where sl:
    "(if ?ms > 0 then SleepUntilReadyOrDeadline ctx ?ms w else (True, ctx, w)) = (ready, ctx1, w1)"
    by (metis prod.exhaust)
  then have "ctx_extends ctx ctx1" using SleepUntil_frame [of ctx ?ms w] by (auto split: if_splits)
  with assms(1) have "inner ctx1 v s = (r, c, v', t) \<Longrightarrow> 500 \<le> rsp_status r" for v r c v' t
    by (metis always_fails_def failure_500 fst_conv)
  with assms(2) sl show ?thesis
    by (auto simp: CallOnce_def Let_def split: prod.splits if_splits)
qed

context upstream_client
begin

text \<open>Such a request that is not retried is recorded as one failure of its circuit.\<close>

lemma failing_attempt_recorded:
  assumes "always_fails forward ctx" "\<not> CanRetryMethod cfg ctx" "cb_enabled (gov_circuit_breaker cfg)"
    and "\<not> fst (DeadlineExceeded ctx w)"
    and "attempt_once cfg forward mx a ctx w st = (res, ctx', w', st')"
  shows "(\<exists>r. res = Break r) \<and> (\<exists>t. circuit (fst st') (fc_upstream ctx) =
    record_state (gov_circuit_breaker cfg) t False (circuit (fst st) (fc_upstream ctx)))"
  using assms(5)
proof (cases rule: attempt_once_cases)
  case (called w1 w2 t rsp ctx1 w3 s1 el w4 exc w5 timed ctx2 rsp2 cs1 w6)
  have fail: "IsFailureResponse rsp2" using CallOnce_fails [OF assms(1) called(3)] called(8) by simp
  have "ctx_extends ctx ctx1" using CallOnce_contract [OF called(3)] by simp
  then have "ctx_extends ctx ctx2" using called(7) by (auto intro: ctx_extends_trans)
  note f = ctx_extends_fields [OF this]
  have "\<not> CanRetryMethod cfg ctx2" using assms(2) f by (simp add: CanRetryMethod_def)
  with called(11) fail have "res = Break rsp2" by auto
  moreover have "cs1 = (fst st)(fc_upstream ctx \<mapsto> record_state (gov_circuit_breaker cfg)
      (fst (steady_now w5)) False (circuit (fst st) (fc_upstream ctx)))"
    using called(9) fail assms(3) f by (auto simp: RecordResult_def steady_now_def)
  ultimately show ?thesis using called(10) by auto
qed (use assms(4) in simp)

lemma failing_request_recorded:
  assumes "gov_enabled cfg" "cb_enabled (gov_circuit_breaker cfg)" "always_fails forward ctx"
    and "\<not> CanRetryMethod cfg ctx" "cbs_state (circuit cs (fc_upstream ctx)) = CLOSED"
    and "\<not> fst (DeadlineExceeded ctx (snd (steady_now w)))"
    and "Governance_Forward cfg forward ctx w (cs, s) = (rsp, ctx', w', cs', s')"
  shows "\<exists>t. circuit cs' (fc_upstream ctx) =
    record_state (gov_circuit_breaker cfg) t False (circuit cs (fc_upstream ctx))"
proof -
  let ?w = "snd (steady_now w)" and ?cs = "cs(fc_upstream ctx \<mapsto> circuit cs (fc_upstream ctx))"
  have a: "AllowRequest (gov_circuit_breaker cfg) (fc_upstream ctx) cs w = (True, ?cs, ?w)"
    using assms(2,5) by (simp add: AllowRequest_def allow_state_def split: prod.splits)
  obtain res c v st2 where o: "attempt_once cfg forward (max_attempts_of cfg) 1 ctx ?w (?cs, s) = (res, c, v, st2)"
    by (metis prod.exhaust)
  obtain r where "res = Break r" and t: "\<exists>t. circuit (fst st2) (fc_upstream ctx) =
      record_state (gov_circuit_breaker cfg) t False (circuit ?cs (fc_upstream ctx))"
    using failing_attempt_recorded [OF assms(3,4,2,6) o] by auto
  then have "attempt_loop cfg forward (max_attempts_of cfg) 1 None ctx ?w (?cs, s) = (Inr (Some r), c, v, st2)"
    using max_attempts_pos [of cfg] o by (subst attempt_loop.simps) simp
  then have "st2 = (cs', s')" using assms(1,7) a by (simp add: Governance_Forward_def split: if_splits)
  with t show ?thesis by simp
qed

end

text \<open>Requests that arrive one after the other, each at its own time.\<close>

definition forward_all :: "'s upstream \<Rightarrow> (ForwardContext \<times> World) list \<Rightarrow> 's \<Rightarrow> 's" where
  "forward_all fwd reqs s = foldl (\<lambda>s (ctx, w). case fwd ctx w s of (rsp, ctx', w', s') \<Rightarrow> s') s reqs"

context upstream_client
begin

lemma failing_requests_recorded:
  assumes "gov_enabled cfg" "cb_enabled (gov_circuit_breaker cfg)" "cb_ok (gov_circuit_breaker cfg)"
    and "cbs_state (circuit cs u) = CLOSED"
    and "cbs_consecutive_failures (circuit cs u) + int (length reqs) \<le> cb_failure_threshold (gov_circuit_breaker cfg)"
    and "\<And>ctx w. (ctx, w) \<in> set reqs \<Longrightarrow> always_fails forward ctx \<and> \<not> CanRetryMethod cfg ctx \<and>
           fc_upstream ctx = u \<and> \<not> fst (DeadlineExceeded ctx (snd (steady_now w)))"
  shows "\<exists>ts. length ts = length reqs \<and> circuit (fst (forward_all (Governance_Forward cfg forward) reqs (cs, s))) u =
    foldl (\<lambda>st t. record_state (gov_circuit_breaker cfg) t False st) (circuit cs u) ts"
  using assms(5,6)
proof (induction reqs rule: rev_induct)
  case Nil
  then show ?case by (simp add: forward_all_def)
next
  case (snoc r reqs)
  obtain ctx w where r: "r = (ctx, w)" by fastforce
  let ?mid = "forward_all (Governance_Forward cfg forward) reqs (cs, s)"
  obtain ts where ts: "length ts = length reqs" "circuit (fst ?mid) u =
      foldl (\<lambda>st t. record_state (gov_circuit_breaker cfg) t False st) (circuit cs u) ts"
    using snoc.IH snoc.prems by fastforce
  have "cbs_state (circuit (fst ?mid) u) = CLOSED"
    using failures_closed [OF assms(4), of ts "gov_circuit_breaker cfg"] ts snoc.prems(1) by simp
  moreover obtain rsp c v cs2 s2 where f:
    "Governance_Forward cfg forward ctx w (fst ?mid, snd ?mid) = (rsp, c, v, cs2, s2)"
    by (metis prod.exhaust)
  moreover have "always_fails forward ctx" "\<not> CanRetryMethod cfg ctx" "fc_upstream ctx = u"
    "\<not> fst (DeadlineExceeded ctx (snd (steady_now w)))"
    using snoc.prems(2) [of ctx w] r by simp_all
  ultimately obtain t where "circuit cs2 u = record_state (gov_circuit_breaker cfg) t False (circuit (fst ?mid) u)"
    using failing_request_recorded [OF assms(1,2), of ctx "fst ?mid" w "snd ?mid"] by auto
  moreover have "fst (forward_all (Governance_Forward cfg forward) (reqs @ [r]) (cs, s)) = cs2"
    using f r by (simp add: forward_all_def)
  ultimately show ?case
    using ts by (intro exI [of _ "ts @ [t]"]) simp
qed

end

section \<open>Requests within their deadline\<close>

text \<open>A request whose deadline is not cancelled and lies behind every reading of the clock.\<close>

definition on_time :: "ForwardContext \<Rightarrow> World \<Rightarrow> bool" where
  "on_time ctx w \<longleftrightarrow>
     (\<forall>d. fc_deadline ctx = Some d \<longrightarrow> \<not> dl_cancelled d \<and> (\<forall>n. steady_ns w n < dl_deadline d))"

lemma on_time_not_exceeded: "on_time ctx w \<Longrightarrow> \<not> fst (DeadlineExceeded ctx w)"
  by (cases "fc_deadline ctx") (auto simp: on_time_def DeadlineExceeded_def IsDone_def IsCancelled_def IsExpired_def
      steady_now_def not_le)

lemma on_time_later: "on_time ctx w \<Longrightarrow> later w w' \<Longrightarrow> on_time ctx w'"
  by (simp add: on_time_def later_def)

lemma unless_exceeded_if:
  "unless_exceeded ctx w st k =
     (if fst (DeadlineExceeded ctx w)
      then (Inr (DeadlineExceeded_response ctx), CancelDeadline ''deadline exceeded'' ctx, snd (DeadlineExceeded ctx w), st)
      else k (snd (DeadlineExceeded ctx w)))"
  by (cases "DeadlineExceeded ctx w")
     (simp add: unless_exceeded_def IsDeadlineExceeded_def DeadlineExceeded_response_def)

lemma unless_exceeded_on_time:
  assumes "on_time ctx w"
  obtains w' where "later w w'" "on_time ctx w'" "unless_exceeded ctx w st k = k w'"
proof -
  have "later w (snd (DeadlineExceeded ctx w))" using later_context(1) by (metis prod.collapse)
  with that on_time_later [OF assms this] on_time_not_exceeded [OF assms] show ?thesis
    by (simp add: unless_exceeded_if)
qed

lemma on_time_rpc_active:
  assumes "on_time ctx w" "rpc_deadline rpc_ctx = fc_deadline ctx"
  shows "rpc_active rpc_ctx w"
  using on_time_not_exceeded [OF assms(1)]
  by (simp add: rpc_active_def rpc_DeadlineExceeded_def DeadlineExceeded_def assms(2))

text \<open>The start of a request on time: two checks and the RPC context.\<close>

lemma dispatch_on_time:
  assumes "on_time ctx w"
  obtains rpc_ctx w' where "later w w'" "on_time ctx w'" "rpc_deadline rpc_ctx = fc_deadline ctx"
    "rpc_request_id rpc_ctx = fc_request_id ctx"
    "fc_upstream ctx = ''UserService'' \<Longrightarrow> fc_method ctx = ''POST'' \<Longrightarrow> fc_upstream_path ctx = ''/login'' \<Longrightarrow>
       local_dispatch ops ts ctx w st = forward_login ops ts rpc_ctx ctx w' st"
    "fc_upstream ctx = ''FileMetaService'' \<Longrightarrow> fc_method ctx = ''POST'' \<Longrightarrow> fc_upstream_path ctx = ''/meta/create'' \<Longrightarrow>
       local_dispatch ops ts ctx w st = forward_file_create rpc_ctx ctx w' st"
    "fc_upstream ctx = ''FileMetaService'' \<Longrightarrow> fc_method ctx = ''GET'' \<Longrightarrow> fc_upstream_path ctx = ''/meta'' \<Longrightarrow>
       local_dispatch ops ts ctx w st = forward_file_get rpc_ctx ctx w' st"
proof -
  let ?w = "snd (DeadlineExceeded ctx w)"
  have l: "later w ?w" using later_context(1) by (metis prod.collapse)
  obtain rpc_ctx w' where b: "BuildRpcContext ctx ?w = (rpc_ctx, w')" by fastforce
  note f = BuildRpcContext_frame [OF b]
  have "later w w'" using l f later_trans by blast
  moreover have "\<not> fst (DeadlineExceeded ctx w)" by (rule on_time_not_exceeded [OF assms])
  ultimately show ?thesis
    using that [of w' rpc_ctx] f on_time_later [OF assms, of w']
    by (simp add: local_dispatch_def unless_exceeded_if ForwardUserService_def ForwardFileMetaService_def b)
qed

section \<open>Bodies that are not JSON objects\<close>

lemma ParseJsonStringToken_error: "ParseJsonStringToken s = Inl e \<Longrightarrow> \<exists>m. e = Runtime_error m"
proof -
  have "json_string_loop t acc = Inl e \<Longrightarrow> \<exists>m. e = Runtime_error m" for t acc
    by (induction t acc rule: json_string_loop.induct) (auto split: if_splits list.splits)
  then show "ParseJsonStringToken s = Inl e \<Longrightarrow> \<exists>m. e = Runtime_error m"
    by (auto simp: ParseJsonStringToken_def split: if_splits)
qed

lemma json_member_error: "json_member s = Inl e \<Longrightarrow> \<exists>m. e = Runtime_error m"
  by (auto simp: json_member_def bind_result_Inl json_value_def Let_def ParseJsonStringToken_error
      split: if_splits prod.splits)

lemma json_members_error: "json_members s m = Inl e \<Longrightarrow> \<exists>m. e = Runtime_error m"
proof (induction s m rule: json_members.induct)
  case (1 s m)
  show ?case
  proof (cases "json_member (SkipWhitespace s)")
    case (Inl a)
    with 1(2) show ?thesis
      by (subst (asm) json_members.simps) (auto simp: Let_def dest: json_member_error split: if_splits)
  next
    case (Inr a)
    obtain k v r where a: "a = (k, v, r)" by (metis prod.exhaust)
    with 1(2) Inr 1(1) [OF refl _ Inr a [symmetric] refl refl] show ?thesis
      by (subst (asm) json_members.simps) (auto simp: Let_def split: if_splits)
  qed
qed

text \<open>The parser throws nothing but \<^verbatim>\<open>runtime_error\<close>.\<close>

lemma ParseFlatJsonObject_error: "ParseFlatJsonObject s = Inl e \<Longrightarrow> \<exists>m. e = Runtime_error m"
  by (auto simp: ParseFlatJsonObject_def Let_def dest: json_members_error split: if_splits)

definition json_endpoint :: "ForwardContext \<Rightarrow> bool" where
  "json_endpoint ctx \<longleftrightarrow> fc_method ctx = ''POST'' \<and>
     (fc_upstream ctx, fc_upstream_path ctx) \<in>
       {(''UserService'', ''/login''), (''FileMetaService'', ''/meta/create''), (''TaskService'', ''/create''),
        (''TaskService'', ''/event'')}"

lemma malformed_dispatch:
  assumes "json_endpoint ctx" "ParseFlatJsonObject (fc_body ctx) = Inl e"
  obtains (parsed) w' where "local_dispatch ops ts ctx w st = (Inl e, ctx, w', st)"
  | (late) w' where "\<not> on_time ctx w" "local_dispatch ops ts ctx w st =
      (Inr (DeadlineExceeded_response ctx), CancelDeadline ''deadline exceeded'' ctx, w', st)"
proof -
  obtain r w0 where b: "BuildRpcContext ctx (snd (DeadlineExceeded ctx w)) = (r, w0)" by fastforce
  note defs = local_dispatch_def unless_exceeded_if or_throw_def ForwardUserService_def forward_login_def
    ForwardFileMetaService_def forward_file_create_def ForwardTaskService_def forward_task_create_def forward_task_event_def
  have m: "fc_method ctx = ''POST''" using assms(1) by (simp add: json_endpoint_def)
  consider "fc_upstream ctx = ''UserService'' \<and> fc_upstream_path ctx = ''/login''"
    | "fc_upstream ctx = ''FileMetaService'' \<and> fc_upstream_path ctx = ''/meta/create''"
    | "fc_upstream ctx = ''TaskService'' \<and> fc_upstream_path ctx = ''/create''"
    | "fc_upstream ctx = ''TaskService'' \<and> fc_upstream_path ctx = ''/event''"
    using assms(1) by (auto simp: json_endpoint_def)
  moreover have "on_time ctx w \<Longrightarrow> \<not> fst (DeadlineExceeded ctx w) \<and> \<not> fst (DeadlineExceeded ctx w0)"
    using BuildRpcContext_frame [OF b] on_time_later on_time_not_exceeded later_context(1) by (metis prod.collapse)
  ultimately have "\<exists>w'. local_dispatch ops ts ctx w st = (Inl e, ctx, w', st) \<or> \<not> on_time ctx w \<and> local_dispatch ops ts ctx w st =
      (Inr (DeadlineExceeded_response ctx), CancelDeadline ''deadline exceeded'' ctx, w', st)"
    by cases (auto simp: defs b m assms(2))
  with that show thesis by blast
qed

lemma malformed_always_fails:
  assumes "json_endpoint ctx" "ParseFlatJsonObject (fc_body ctx) = Inl e"
  shows "always_fails (LocalRpc_Forward ops ts) ctx"
  unfolding always_fails_def
proof (intro allI impI)
  fix ctx' w and st :: "'a LocalRpcState"
  assume x: "ctx_extends ctx ctx'"
  have j: "json_endpoint ctx'" "ParseFlatJsonObject (fc_body ctx') = Inl e"
    using assms ctx_extends_fields [OF x] by (simp_all add: json_endpoint_def)
  obtain m where e: "e = Runtime_error m" using ParseFlatJsonObject_error [OF assms(2)] by blast
  show "IsFailureResponse (fst (LocalRpc_Forward ops ts ctx' w st))"
    by (rule malformed_dispatch [OF j, of ops ts w st])
       (simp_all add: e LocalRpc_Forward_def catch_exn_def InternalError_def BuildJsonResponse_def DeadlineExceeded_response_def)
qed

text \<open>A user service of this process over a repository, whatever state its caller keeps.\<close>

definition in_process :: "UserRepository \<Rightarrow> 'u UserServiceOps \<Rightarrow> bool" where
  "in_process repo ops \<longleftrightarrow>
     (\<forall>ctx req w u. us_Login ops ctx req w u = (case UserService_Login repo ctx req w of (r, ctx', w') \<Rightarrow> (r, ctx', w', u))) \<and>
     (\<forall>ctx req w u. us_GetProfile ops ctx req w u = (case UserService_GetProfile repo ctx req w of (r, ctx', w') \<Rightarrow> (r, ctx', w', u)))"

lemma in_process_impl [simp]: "in_process repo (UserServiceImpl repo)"
  by (simp add: in_process_def UserServiceImpl_def)

lemma Login_succeeds:
  assumes "in_process repo ops" "rpc_active rpc_ctx w" "lrq_username req \<noteq> []" "lrq_password req \<noteq> []"
    and "repo_FindByUsername repo (lrq_username req) = Inr (Some user)" "ur_password user = lrq_password req"
  shows "\<exists>meta w'. later w w' \<and> meta_code meta = RPC_OK \<and>
    us_Login ops rpc_ctx req w u =
       (Inr \<lparr>lrs_meta = meta, lrs_user_id = ur_user_id user, lrs_username = ur_username user,
             lrs_token = ''mock-token-'' @ rpc_request_id rpc_ctx, lrs_role = ur_role user\<rparr>, rpc_ctx, w', u)"
proof -
  obtain meta w' where m: "FillMeta RPC_OK ''ok'' rpc_ctx (snd (rpc_DeadlineExceeded rpc_ctx w)) = (meta, w')" by fastforce
  have "later w (snd (rpc_DeadlineExceeded rpc_ctx w))" using later_context(4) by (metis prod.collapse)
  then have "later w w'" using later_FillMeta [OF m] later_trans by blast
  moreover have "meta_code meta = RPC_OK" using FillMeta_simps(1) [of RPC_OK] m by (metis fst_conv)
  ultimately show ?thesis
    using assms m by (simp add: in_process_def UserService_Login_def FillTimeoutIfCancelled_active)
qed

lemma login_on_time:
  assumes "in_process repo ops" "on_time ctx w" "fc_upstream ctx = ''UserService''" "fc_method ctx = ''POST''" "fc_upstream_path ctx = ''/login''"
    and "ParseFlatJsonObject (fc_body ctx) = Inr body" "GetString body ''username'' = n" "GetString body ''password'' = pw"
    and "n \<noteq> []" "pw \<noteq> []" "repo_FindByUsername repo n = Inr (Some user)" "ur_password user = pw"
  obtains k w' where "later w w'"
    "LocalRpc_Forward ops (Some cfg) ctx w st =
       (BuildJsonResponse 200 (ApiResponse_Success
          (json_object [(''user_id'', show_int (ur_user_id user), False), (''username'', ur_username user, True),
             (''role'', ur_role user, True),
             (''token'', IssueToken cfg (ns_to_s (system_ns w k)) (ur_user_id user) (ur_username user) (ur_role user)
                           (fc_request_id ctx), True),
             (''token_type'', ''Bearer'', True)])) (fc_request_id ctx), ctx, w', st)"
proof -
  obtain rpc_ctx w1 where w1: "later w w1" "on_time ctx w1" "rpc_deadline rpc_ctx = fc_deadline ctx"
    and d: "local_dispatch ops (Some cfg) ctx w st =
      forward_login ops (Some cfg) rpc_ctx ctx w1 st"
    using dispatch_on_time [OF assms(2), of ops "Some cfg" st] assms(3-5) by metis
  let ?k = "\<lambda>w2. or_throw (Inr body) ctx w2 st"
  let ?req = "\<lparr>lrq_username = n, lrq_password = pw\<rparr>"
  have w2: "later w1 (snd (DeadlineExceeded ctx w1))" using later_context(1) by (metis prod.collapse)
  note t2 = on_time_later [OF w1(2) w2]
  let ?w2 = "snd (DeadlineExceeded ctx w1)"
  have w3: "later ?w2 (snd (DeadlineExceeded ctx ?w2))" using later_context(1) by (metis prod.collapse)
  note t3 = on_time_later [OF t2 w3]
  let ?w3 = "snd (DeadlineExceeded ctx ?w2)"
  obtain meta w4 where l: "later ?w3 w4" "meta_code meta = RPC_OK"
    "us_Login ops rpc_ctx ?req ?w3 (lr_users st) =
       (Inr \<lparr>lrs_meta = meta, lrs_user_id = ur_user_id user, lrs_username = ur_username user,
             lrs_token = ''mock-token-'' @ rpc_request_id rpc_ctx, lrs_role = ur_role user\<rparr>, rpc_ctx, w4, lr_users st)"
    using Login_succeeds [OF assms(1) on_time_rpc_active [OF t3 w1(3)], of ?req user "lr_users st"] assms(9-12)
    unfolding LoginRequest.simps by blast
  have w4: "later w w4" using w1(1) w2 w3 l(1) later_trans by blast
  have "shared_deadline ctx rpc_ctx = ctx" using w1(3) by (simp add: shared_deadline_def)
  then have "LocalRpc_Forward ops (Some cfg) ctx w st =
       (BuildJsonResponse 200 (ApiResponse_Success
          (json_object [(''user_id'', show_int (ur_user_id user), False), (''username'', ur_username user, True),
             (''role'', ur_role user, True),
             (''token'', IssueToken cfg (ns_to_s (system_ns w (system_reads w4))) (ur_user_id user) (ur_username user)
                (ur_role user) (fc_request_id ctx), True),
             (''token_type'', ''Bearer'', True)])) (fc_request_id ctx), ctx, snd (system_now w4), st)"
    using on_time_not_exceeded [OF w1(2)] on_time_not_exceeded [OF t2] assms(6-8) l w4
    by (simp add: LocalRpc_Forward_def d forward_login_def unless_exceeded_if or_throw_def login_token_def
        svc_NowUnixSeconds_def BuildRpcResponse_def later_def system_now_def)
  moreover have "later w (snd (system_now w4))" using w4 later_system_now later_trans by (metis prod.collapse)
  ultimately show ?thesis using that by blast
qed

text \<open>Whose profile a request is answered with: the query's user, or else the authenticated one.\<close>

definition requested_user :: "ForwardContext \<Rightarrow> int result" where
  "requested_user ctx =
     bind_result (GetInt64 (ParseQuery (fc_query ctx)) ''user_id'') (\<lambda>user_id.
       case om_get (fc_headers ctx) ''X-User-Id'' of
         Some v \<Rightarrow> if user_id = 0 \<and> v \<noteq> [] then stoll v else Inr user_id
       | None \<Rightarrow> Inr user_id)"

definition profile_fields :: "UserRecord \<Rightarrow> (string \<times> string \<times> bool) list" where
  "profile_fields user =
     [(''user_id'', show_int (ur_user_id user), False), (''username'', ur_username user, True),
      (''email'', ur_email user, True), (''role'', ur_role user, True)]"

lemma requested_user_field:
  "BuildRpcContext ctx w = (rpc_ctx, w') \<Longrightarrow>
     user_id_field (ParseQuery (fc_query ctx)) ''user_id'' rpc_ctx = requested_user ctx"
  by (cases "om_get (fc_headers ctx) ''X-Trace-Id''"; cases "om_get (fc_headers ctx) ''X-User-Id''")
    (auto simp: BuildRpcContext_def RpcContext_default_def user_id_field_def requested_user_def Let_def
      intro!: arg_cong [where f = "bind_result _"] split: prod.splits)

lemma GetProfile_succeeds:
  assumes "in_process repo ops" "rpc_active rpc_ctx w" "repo_FindById repo i = Inr (Some user)"
  shows "\<exists>meta w'. later w w' \<and> meta_code meta = RPC_OK \<and>
    us_GetProfile ops rpc_ctx \<lparr>prq_user_id = i\<rparr> w u =
       (Inr \<lparr>prs_meta = meta, prs_profile = \<lparr>up_user_id = ur_user_id user, up_username = ur_username user,
               up_email = ur_email user, up_role = ur_role user\<rparr>\<rparr>, rpc_ctx, w', u)"
proof -
  obtain meta w' where m: "FillMeta RPC_OK ''ok'' rpc_ctx (snd (rpc_DeadlineExceeded rpc_ctx w)) = (meta, w')" by fastforce
  have "later w (snd (rpc_DeadlineExceeded rpc_ctx w))" using later_context(4) by (metis prod.collapse)
  then have "later w w'" using later_FillMeta [OF m] later_trans by blast
  moreover have "meta_code meta = RPC_OK" using FillMeta_simps(1) [of RPC_OK] m by (metis fst_conv)
  ultimately show ?thesis
    using assms m by (simp add: in_process_def UserService_GetProfile_def FillTimeoutIfCancelled_active)
qed

lemma profile_on_time:
  assumes "in_process repo ops" "on_time ctx w" "fc_upstream ctx = ''UserService''" "fc_method ctx = ''GET''"
    and "fc_upstream_path ctx = ''/profile''" "requested_user ctx = Inr i" "repo_FindById repo i = Inr (Some user)"
  obtains w' where "later w w'" "LocalRpc_Forward ops ts ctx w st =
      (BuildJsonResponse 200 (ApiResponse_Success (json_object (profile_fields user))) (fc_request_id ctx), ctx, w', st)"
proof -
  let ?x = "\<lambda>v. snd (DeadlineExceeded ctx v)"
  have x: "later v (?x v)" for v using later_context(1) by (metis prod.collapse)
  obtain rpc_ctx w0 where b: "BuildRpcContext ctx (?x w) = (rpc_ctx, w0)" by fastforce
  note f = BuildRpcContext_frame [OF b]
  have l0: "later w w0" using x f later_trans by blast
  have l1: "later w (?x w0)" and l2: "later w (?x (?x w0))" using l0 x later_trans by blast+
  note t = on_time_later [OF assms(2) l0] on_time_later [OF assms(2) l1] on_time_later [OF assms(2) l2]
  obtain meta w' where p: "later (?x (?x w0)) w'" "meta_code meta = RPC_OK"
    "us_GetProfile ops rpc_ctx \<lparr>prq_user_id = i\<rparr> (?x (?x w0)) (lr_users st) =
       (Inr \<lparr>prs_meta = meta, prs_profile = \<lparr>up_user_id = ur_user_id user, up_username = ur_username user,
               up_email = ur_email user, up_role = ur_role user\<rparr>\<rparr>, rpc_ctx, w', lr_users st)"
    using GetProfile_succeeds [OF assms(1) on_time_rpc_active [OF t(3)] assms(7), of rpc_ctx "lr_users st"] f by blast
  have "local_dispatch ops ts ctx w st = forward_profile ops rpc_ctx ctx w0 st"
    using on_time_not_exceeded [OF assms(2)] assms(3-5) b
    by (simp add: local_dispatch_def unless_exceeded_if ForwardUserService_def)
  moreover have "shared_deadline ctx rpc_ctx = ctx" using f by (simp add: shared_deadline_def)
  ultimately have "LocalRpc_Forward ops ts ctx w st =
      (BuildJsonResponse 200 (ApiResponse_Success (json_object (profile_fields user))) (fc_request_id ctx), ctx, w', st)"
    using on_time_not_exceeded [OF t(1)] on_time_not_exceeded [OF t(2)] requested_user_field [OF b] assms(6) p
    by (simp add: LocalRpc_Forward_def forward_profile_def unless_exceeded_if or_throw_def BuildRpcResponse_def
        profile_fields_def)
  with that p(1) l2 later_trans show ?thesis by blast
qed

section \<open>Properties\<close>

text \<open>
  C25: Logging in through the local client with a stored name and password answers 200; the
  token in the answer's JSON data validates, until its time to live after the moment of
  issue is over, as the stored user with the stored role.
\<close>

theorem login_answers_valid_token:
  assumes "on_time ctx w" "fc_upstream ctx = ''UserService''" "fc_method ctx = ''POST''" "fc_upstream_path ctx = ''/login''"
    and "fc_body ctx = json_object [(''username'', n, True), (''password'', pw, True)]"
    and "n \<noteq> []" "pw \<noteq> []" "repo_FindByUsername repo n = Inr (Some user)" "ur_password user = pw"
    and "in_int64 (ur_user_id user)"
    and "\<forall>k. in_int64 (ns_to_s (system_ns w k)) \<and> in_int64 (ns_to_s (system_ns w k) + auth_token_ttl_seconds cfg)"
  shows "\<exists>data m token iat.
    fst (LocalRpc_Forward (UserServiceImpl repo) (Some cfg) ctx w st) =
      BuildJsonResponse 200 (ApiResponse_Success data) (fc_request_id ctx) \<and>
    ParseFlatJsonObject data = Inr m \<and> GetString m ''token'' = token \<and>
    (\<exists>k. iat = ns_to_s (system_ns w k)) \<and>
    (\<forall>now. ValidateToken cfg now token =
      (if iat + auth_token_ttl_seconds cfg \<le> now then None
       else Some \<lparr>tok_user_id = ur_user_id user, tok_username = claim_text (ur_username user),
                  tok_role = claim_text (ur_role user), tok_issued_at = iat,
                  tok_expires_at = iat + auth_token_ttl_seconds cfg\<rparr>))"
proof -
  obtain body where b: "ParseFlatJsonObject (fc_body ctx) = Inr body"
    "\<And>key. om_get body key = map_of (rev (map (\<lambda>(k, v, b). (k, v)) [(''username'', n, True), (''password'', pw, True)])) key"
    using object_fields [of "[(''username'', n, True), (''password'', pw, True)]"] assms(5) by auto
  have "GetString body ''username'' = n" "GetString body ''password'' = pw"
    by (simp_all add: GetString_def b(2))
  then obtain k w' where f: "fst (LocalRpc_Forward (UserServiceImpl repo) (Some cfg) ctx w st) =
       BuildJsonResponse 200 (ApiResponse_Success
          (json_object [(''user_id'', show_int (ur_user_id user), False), (''username'', ur_username user, True),
             (''role'', ur_role user, True),
             (''token'', IssueToken cfg (ns_to_s (system_ns w k)) (ur_user_id user) (ur_username user) (ur_role user)
                           (fc_request_id ctx), True),
             (''token_type'', ''Bearer'', True)])) (fc_request_id ctx)"
    using login_on_time [OF in_process_impl assms(1-4) b(1) _ _ assms(6-9)] by (metis fst_conv)
  let ?kvs = "[(''user_id'', show_int (ur_user_id user), False), (''username'', ur_username user, True),
             (''role'', ur_role user, True),
             (''token'', IssueToken cfg (ns_to_s (system_ns w k)) (ur_user_id user) (ur_username user) (ur_role user)
                           (fc_request_id ctx), True),
             (''token_type'', ''Bearer'', True)]"
  obtain m where m: "ParseFlatJsonObject (json_object ?kvs) = Inr m"
    "\<And>key. om_get m key = map_of (rev (map (\<lambda>(k, v, b). (k, v)) ?kvs)) key"
    using object_fields [of ?kvs] scalar_text_show_int by auto
  have "GetString m ''token'' = IssueToken cfg (ns_to_s (system_ns w k)) (ur_user_id user) (ur_username user) (ur_role user)
                           (fc_request_id ctx)"
    by (simp add: GetString_def m(2))
  then show ?thesis
    using f m(1) ValidateToken_IssueToken [OF assms(10), of "ns_to_s (system_ns w k)" cfg] assms(11) by blast
qed

definition demo_login :: ForwardContext where
  "demo_login = \<lparr>fc_request_id = ''req-1'', fc_upstream = ''UserService'', fc_upstream_path = ''/login'',
     fc_method = ''POST'', fc_query = [],
     fc_body = json_object [(''username'', ''admin'', True), (''password'', ''123456'', True)],
     fc_timeout_ms = 1000, fc_deadline = None, fc_headers = []\<rparr>"

definition demo_still :: World where
  "demo_still = \<lparr>steady_ns = (\<lambda>n. 0), steady_reads = 0, system_ns = (\<lambda>n. 1000000000000), system_reads = 0\<rparr>"

definition demo_state :: "unit LocalRpcState" where
  "demo_state = \<lparr>lr_users = (), lr_files = FileMetaServiceImpl_default, lr_tasks = TaskServiceImpl_default\<rparr>"

lemma demo_still_seconds: "ns_to_s (system_ns demo_still k) = 1000"
  by (simp add: demo_still_def ns_to_s_def trunc_div_def)

theorem login_answers_valid_token_witness:
  "\<exists>data m token.
    fst (LocalRpc_Forward (UserServiceImpl InMemoryUserRepository) (Some AuthConfig_default) demo_login demo_still demo_state) =
      BuildJsonResponse 200 (ApiResponse_Success data) ''req-1'' \<and>
    ParseFlatJsonObject data = Inr m \<and> GetString m ''token'' = token \<and>
    ValidateToken AuthConfig_default 8199 token =
      Some \<lparr>tok_user_id = 10001, tok_username = claim_text ''admin'', tok_role = claim_text ''admin'', tok_issued_at = 1000,
            tok_expires_at = 8200\<rparr>"
proof -
  have t: "on_time demo_login demo_still" by (simp add: on_time_def demo_login_def)
  have r: "in_int64 (ur_user_id AdminUser)"
    "\<forall>k. in_int64 (ns_to_s (system_ns demo_still k)) \<and>
       in_int64 (ns_to_s (system_ns demo_still k) + auth_token_ttl_seconds AuthConfig_default)"
    by (simp_all add: demo_still_seconds in_int64_def INT64_MIN_def INT64_MAX_def AuthConfig_default_def AdminUser_def)
  have u: "repo_FindByUsername InMemoryUserRepository ''admin'' = Inr (Some AdminUser)" "ur_password AdminUser = ''123456''"
    "ur_user_id AdminUser = 10001" "ur_username AdminUser = ''admin''" "ur_role AdminUser = ''admin''"
    by (simp_all add: InMemoryUserRepository_def InMemory_FindByUsername_def AdminUser_def)
  have l: "auth_token_ttl_seconds AuthConfig_default = 7200" by (simp add: AuthConfig_default_def)
  have f: "fc_upstream demo_login = ''UserService''" "fc_method demo_login = ''POST''" "fc_upstream_path demo_login = ''/login''"
    "fc_body demo_login = json_object [(''username'', ''admin'', True), (''password'', ''123456'', True)]"
    "fc_request_id demo_login = ''req-1''" by (simp_all add: demo_login_def)
  have ne: "''admin'' \<noteq> []" "''123456'' \<noteq> []" by simp_all
  obtain data m token iat where a:
    "fst (LocalRpc_Forward (UserServiceImpl InMemoryUserRepository) (Some AuthConfig_default) demo_login demo_still demo_state) =
       BuildJsonResponse 200 (ApiResponse_Success data) (fc_request_id demo_login)"
    "ParseFlatJsonObject data = Inr m" "GetString m ''token'' = token" "\<exists>k. iat = ns_to_s (system_ns demo_still k)"
    "\<forall>now. ValidateToken AuthConfig_default now token =
      (if iat + auth_token_ttl_seconds AuthConfig_default \<le> now then None
       else Some \<lparr>tok_user_id = ur_user_id AdminUser, tok_username = claim_text (ur_username AdminUser),
                  tok_role = claim_text (ur_role AdminUser), tok_issued_at = iat,
                  tok_expires_at = iat + auth_token_ttl_seconds AuthConfig_default\<rparr>)"
    using login_answers_valid_token [OF t f(1-4) ne u(1,2) r, of demo_state] by blast
  from a(4) have "iat = 1000" by (simp add: demo_still_seconds)
  with a show ?thesis by (auto simp: f(5) l u)
qed

text \<open>
  A POST request whose body is not a JSON object changes nothing in the services; it is
  answered by a 500 that carries the parser's message, or by a timeout if its deadline was
  over.
\<close>

theorem malformed_body_is_500:
  assumes "json_endpoint ctx" "ParseFlatJsonObject (fc_body ctx) = Inl e"
  shows "\<exists>w'. LocalRpc_Forward ops ts ctx w st = (InternalError (what e) (fc_request_id ctx), ctx, w', st) \<or>
    \<not> on_time ctx w \<and> LocalRpc_Forward ops ts ctx w st =
      (DeadlineExceeded_response ctx, CancelDeadline ''deadline exceeded'' ctx, w', st)"
proof -
  obtain m where e: "e = Runtime_error m" using ParseFlatJsonObject_error [OF assms(2)] by blast
  show ?thesis
    by (rule malformed_dispatch [OF assms, of ops ts w st])
       (use e in \<open>auto simp: LocalRpc_Forward_def catch_exn_def\<close>)
qed

theorem malformed_body_is_500_witness:
  "rsp_status (fst (LocalRpc_Forward (UserServiceImpl InMemoryUserRepository) None (demo_login\<lparr>fc_body := ''[1]''\<rparr>) demo_still demo_state)) = 500"
proof -
  let ?ctx = "demo_login\<lparr>fc_body := ''[1]''\<rparr>"
  have j: "json_endpoint ?ctx" and t: "on_time ?ctx demo_still"
    by (simp_all add: json_endpoint_def demo_login_def on_time_def)
  have "ParseFlatJsonObject ''[1]'' = Inl (Runtime_error ''json body must be an object'')"
    by (simp add: ParseFlatJsonObject_def SkipWhitespace_def isspace_def)
  then have "ParseFlatJsonObject (fc_body ?ctx) = Inl (Runtime_error ''json body must be an object'')" by simp
  from malformed_body_is_500 [OF j this, of "UserServiceImpl InMemoryUserRepository" None demo_still demo_state] t show ?thesis
    by (auto simp: InternalError_def BuildJsonResponse_def)
qed

text \<open>
  C39: Clients can open the circuit breaker: as many malformed POST bodies as the failure
  threshold, sent to one of the local services through the governance decorator, turn its
  closed circuit into an open one, so that requests of other clients are refused.
\<close>

theorem malformed_bodies_open_circuit:
  assumes "gov_enabled cfg" "cb_enabled (gov_circuit_breaker cfg)" "cb_ok (gov_circuit_breaker cfg)"
    and "\<not> retry_non_idempotent (gov_retry cfg)"
    and "cbs_state (circuit cs u) = CLOSED" "cbs_consecutive_failures (circuit cs u) = 0"
    and "int (length reqs) = cb_failure_threshold (gov_circuit_breaker cfg)"
    and "\<forall>(ctx, w) \<in> set reqs. json_endpoint ctx \<and> fc_upstream ctx = u \<and> on_time ctx w \<and>
           (\<exists>e. ParseFlatJsonObject (fc_body ctx) = Inl e)"
  shows "cbs_state (circuit (fst (forward_all
      (Governance_Forward cfg (LocalRpc_Forward (UserServiceImpl repo) ts)) reqs (cs, st))) u) = OPEN"
proof -
  have r: "always_fails (LocalRpc_Forward (UserServiceImpl repo) ts) ctx \<and> \<not> CanRetryMethod cfg ctx \<and>
      fc_upstream ctx = u \<and> \<not> fst (DeadlineExceeded ctx (snd (steady_now w)))"
    if "(ctx, w) \<in> set reqs" for ctx w
  proof -
    have req: "json_endpoint ctx" "fc_upstream ctx = u" "on_time ctx w" "\<exists>e. ParseFlatJsonObject (fc_body ctx) = Inl e"
      using assms(8) that by auto
    moreover have "on_time ctx (snd (steady_now w))"
      using req(3) later_steady_now by (metis on_time_later prod.collapse)
    moreover have "\<not> CanRetryMethod cfg ctx"
      using req(1) assms(4) by (simp add: CanRetryMethod_def IsIdempotentMethod_def json_endpoint_def)
    ultimately show ?thesis using malformed_always_fails on_time_not_exceeded by blast
  qed
  have "reqs \<noteq> []" using assms(3,7) by (auto simp: cb_ok_def)
  obtain ts' where ts': "length ts' = length reqs" "circuit (fst (forward_all
      (Governance_Forward cfg (LocalRpc_Forward (UserServiceImpl repo) ts)) reqs (cs, st))) u =
      foldl (\<lambda>st t. record_state (gov_circuit_breaker cfg) t False st) (circuit cs u) ts'"
    using local_client.failing_requests_recorded [OF assms(1-3,5) _ r, of reqs st] assms(6,7) by auto
  then obtain ts0 t where ts0: "ts' = ts0 @ [t]" using \<open>reqs \<noteq> []\<close> by (cases ts' rule: rev_cases) auto
  with ts' assms(5-7) show ?thesis
    using failures_closed [OF assms(5), of ts0 "gov_circuit_breaker cfg"]
    by (simp add: record_state_def Let_def)
qed

theorem malformed_bodies_open_circuit_witness:
  "cbs_state (circuit (fst (forward_all
      (Governance_Forward GovernanceConfig_default (LocalRpc_Forward (UserServiceImpl InMemoryUserRepository) None))
      (replicate 5 (demo_login\<lparr>fc_body := ''[1]''\<rparr>, demo_still)) (Map.empty, demo_state))) ''UserService'') = OPEN"
proof -
  let ?ctx = "demo_login\<lparr>fc_body := ''[1]''\<rparr>"
  have "json_endpoint ?ctx" "fc_upstream ?ctx = ''UserService''" "on_time ?ctx demo_still"
    by (simp_all add: json_endpoint_def demo_login_def on_time_def)
  moreover have "ParseFlatJsonObject (fc_body ?ctx) = Inl (Runtime_error ''json body must be an object'')"
    by (simp add: ParseFlatJsonObject_def SkipWhitespace_def isspace_def)
  ultimately have r: "\<forall>(ctx, w) \<in> set (replicate 5 (?ctx, demo_still)). json_endpoint ctx \<and> fc_upstream ctx = ''UserService'' \<and>
      on_time ctx w \<and> (\<exists>e. ParseFlatJsonObject (fc_body ctx) = Inl e)"
    by (auto simp del: ForwardContext.simps)
  have c: "cbs_state (circuit Map.empty ''UserService'') = CLOSED" "cbs_consecutive_failures (circuit Map.empty ''UserService'') = 0"
    by (simp_all add: circuit_def CircuitBreakerRuntimeState_default_def)
  have g: "gov_enabled GovernanceConfig_default" "cb_enabled (gov_circuit_breaker GovernanceConfig_default)"
    "cb_ok (gov_circuit_breaker GovernanceConfig_default)" "\<not> retry_non_idempotent (gov_retry GovernanceConfig_default)"
    "int (length (replicate 5 (?ctx, demo_still))) = cb_failure_threshold (gov_circuit_breaker GovernanceConfig_default)"
    by (simp_all add: cb_ok_def GovernanceConfig_default_def CircuitBreakerConfig_default_def RetryConfig_default_def)
  show ?thesis by (rule malformed_bodies_open_circuit [OF g(1-4) c g(5) r])
qed

section \<open>Storing and reading over HTTP\<close>

lemma CreateFileMeta_on_time:
  assumes "rpc_active rpc_ctx w" "cfq_filename req \<noteq> []" "0 \<le> cfq_size req"
  shows "\<exists>meta w' now. later w w' \<and> meta_code meta = RPC_OK \<and> CreateFileMeta rpc_ctx req w s =
       (\<lparr>cfs_meta = meta, cfs_file_id = file_key (fms_file_seq s + 1)\<rparr>, rpc_ctx, w',
        file_add (file_of req (file_key (fms_file_seq s + 1)) now) s)"
  using CreateFileMeta_adds [OF assms, of s] CreateFileMeta_frame by metis

lemma create_on_time:
  assumes "on_time ctx w" "fc_upstream ctx = ''FileMetaService''" "fc_method ctx = ''POST''"
    and "fc_upstream_path ctx = ''/meta/create''"
    and "ParseFlatJsonObject (fc_body ctx) = Inr body" "GetString body ''filename'' = n" "n \<noteq> []"
    and "GetInt64 body ''size'' = Inr sz" "0 \<le> sz" "GetString body ''content_type'' = t"
    and "GetInt64 body ''owner_user_id'' = Inr u" "u \<noteq> 0"
  shows "\<exists>w' now. LocalRpc_Forward ops ts ctx w st =
    (BuildJsonResponse 200 (ApiResponse_Success
       (json_object [(''file_id'', file_key (fms_file_seq (lr_files st) + 1), True)])) (fc_request_id ctx), ctx, w',
     st\<lparr>lr_files := file_add \<lparr>fm_file_id = file_key (fms_file_seq (lr_files st) + 1), fm_filename = n, fm_size = sz,
        fm_content_type = t, fm_owner_user_id = u, fm_created_at = now\<rparr> (lr_files st)\<rparr>)"
proof -
  obtain rpc_ctx w1 where w1: "on_time ctx w1" "rpc_deadline rpc_ctx = fc_deadline ctx"
    and d: "local_dispatch ops ts ctx w st = forward_file_create rpc_ctx ctx w1 st"
    using dispatch_on_time [OF assms(1), of ops ts st] assms(2-4) by metis
  let ?w2 = "snd (DeadlineExceeded ctx w1)"
  have t2: "on_time ctx ?w2" by (metis on_time_later w1(1) later_context(1) prod.collapse)
  let ?w3 = "snd (DeadlineExceeded ctx ?w2)"
  have t3: "on_time ctx ?w3" by (metis on_time_later t2 later_context(1) prod.collapse)
  let ?req = "\<lparr>cfq_filename = n, cfq_size = sz, cfq_content_type = t, cfq_owner_user_id = u\<rparr>"
  obtain meta w4 now where c: "meta_code meta = RPC_OK" "CreateFileMeta rpc_ctx ?req ?w3 (lr_files st) =
       (\<lparr>cfs_meta = meta, cfs_file_id = file_key (fms_file_seq (lr_files st) + 1)\<rparr>, rpc_ctx, w4,
        file_add (file_of ?req (file_key (fms_file_seq (lr_files st) + 1)) now) (lr_files st))"
    using CreateFileMeta_on_time [OF on_time_rpc_active [OF t3 w1(2)], of ?req "lr_files st"] assms(7,9)
    unfolding CreateFileMetaRequest.simps by blast
  have "shared_deadline ctx rpc_ctx = ctx" using w1(2) by (simp add: shared_deadline_def)
  then show ?thesis
    using on_time_not_exceeded [OF w1(1)] on_time_not_exceeded [OF t2] assms(5-12) c
    by (auto simp: LocalRpc_Forward_def d forward_file_create_def unless_exceeded_if or_throw_def user_id_field_def
        BuildRpcResponse_def file_of_def)
qed

lemma get_on_time:
  assumes "on_time ctx w" "fc_upstream ctx = ''FileMetaService''" "fc_method ctx = ''GET''"
    and "fc_upstream_path ctx = ''/meta''" "GetString (ParseQuery (fc_query ctx)) ''file_id'' = i"
    and "fms_files (lr_files st) i = Some f"
  shows "\<exists>w'. LocalRpc_Forward ops ts ctx w st =
    (BuildJsonResponse 200 (ApiResponse_Success
       (json_object [(''file_id'', fm_file_id f, True), (''filename'', fm_filename f, True),
          (''size'', show_int (fm_size f), False), (''content_type'', fm_content_type f, True),
          (''owner_user_id'', show_int (fm_owner_user_id f), False), (''created_at'', show_int (fm_created_at f), False)]))
       (fc_request_id ctx), ctx, w', st)"
proof -
  obtain rpc_ctx w1 where w1: "on_time ctx w1" "rpc_deadline rpc_ctx = fc_deadline ctx"
    and d: "local_dispatch ops ts ctx w st = forward_file_get rpc_ctx ctx w1 st"
    using dispatch_on_time [OF assms(1), of ops ts st] assms(2-4) by metis
  let ?w2 = "snd (DeadlineExceeded ctx w1)"
  have t2: "on_time ctx ?w2" by (metis on_time_later w1(1) later_context(1) prod.collapse)
  let ?w3 = "snd (DeadlineExceeded ctx ?w2)"
  have t3: "on_time ctx ?w3" by (metis on_time_later t2 later_context(1) prod.collapse)
  have a: "rpc_active rpc_ctx ?w3" by (rule on_time_rpc_active [OF t3 w1(2)])
  obtain rsp rpc_ctx' w4 where g: "GetFileMeta rpc_ctx \<lparr>gfq_file_id = i\<rparr> ?w3 (lr_files st) = (rsp, rpc_ctx', w4)"
    by (metis prod.exhaust)
  have "gfs_file rsp = f" "meta_code (gfs_meta rsp) = RPC_OK"
    using GetFileMeta_reads [OF a assms(6)] g by simp_all
  moreover have "rpc_ctx' = rpc_ctx"
    using g assms(6) by (auto simp: GetFileMeta_def FillTimeoutIfCancelled_active [OF a] split: prod.splits)
  moreover have "shared_deadline ctx rpc_ctx = ctx" using w1(2) by (simp add: shared_deadline_def)
  ultimately show ?thesis
    using on_time_not_exceeded [OF w1(1)] on_time_not_exceeded [OF t2] assms(5) g
    by (simp add: LocalRpc_Forward_def d forward_file_get_def unless_exceeded_if BuildRpcResponse_def)
qed

lemma GetInt64_show:
  assumes "om_get m k = Some (show_int i)" "in_int64 i"
  shows "GetInt64 m k = Inr i"
proof -
  have "show_int i \<noteq> ''null''" using show_int_chars [of i] by (auto simp: isdigit_def)
  then show ?thesis using assms by (simp add: GetInt64_def stoll_show_int)
qed

text \<open>
  C26: File metadata posted as JSON is found again: the creation answers 200 with a fresh id,
  and from then on a query for this id, URL-encoded in any way, answers 200 with a JSON
  object from which the same name, size, type and owner are read back.
\<close>

theorem http_file_roundtrip:
  assumes "on_time ctx w" "fc_upstream ctx = ''FileMetaService''" "fc_method ctx = ''POST''"
    and "fc_upstream_path ctx = ''/meta/create''"
    and "fc_body ctx = json_object [(''filename'', n, True), (''size'', show_int sz, False),
           (''content_type'', t, True), (''owner_user_id'', show_int u, False)]"
    and "n \<noteq> []" "0 \<le> sz" "in_int64 sz" "in_int64 u" "u \<noteq> 0"
    and "files.issued (lr_files st)" "unat (fms_file_seq (lr_files st)) + 1 < 2 ^ 64"
  shows "\<exists>fid w1 st1. LocalRpc_Forward ops ts ctx w st =
      (BuildJsonResponse 200 (ApiResponse_Success (json_object [(''file_id'', fid, True)])) (fc_request_id ctx), ctx, w1, st1) \<and>
    fms_files (lr_files st) fid = None \<and>
    (\<forall>ctx2 w2 qs. on_time ctx2 w2 \<and> fc_upstream ctx2 = ''FileMetaService'' \<and> fc_method ctx2 = ''GET'' \<and>
       fc_upstream_path ctx2 = ''/meta'' \<and> list_all2 pair_encodes [(''file_id'', fid)] qs \<and> fc_query ctx2 = query_text qs \<longrightarrow>
       (\<exists>data m w3. LocalRpc_Forward ops ts ctx2 w2 st1 =
          (BuildJsonResponse 200 (ApiResponse_Success data) (fc_request_id ctx2), ctx2, w3, st1) \<and>
        ParseFlatJsonObject data = Inr m \<and> GetString m ''filename'' = n \<and> GetInt64 m ''size'' = Inr sz \<and>
        GetString m ''content_type'' = t \<and> GetInt64 m ''owner_user_id'' = Inr u))"
proof -
  obtain body where b: "ParseFlatJsonObject (fc_body ctx) = Inr body" and
    g: "\<And>key. om_get body key = map_of (rev (map (\<lambda>(k, v, b). (k, v)) [(''filename'', n, True), (''size'', show_int sz, False),
           (''content_type'', t, True), (''owner_user_id'', show_int u, False)])) key"
    using object_fields [of "[(''filename'', n, True), (''size'', show_int sz, False),
           (''content_type'', t, True), (''owner_user_id'', show_int u, False)]"] assms(5) scalar_text_show_int by auto
  have flds: "GetString body ''filename'' = n" "GetString body ''content_type'' = t"
    "GetInt64 body ''size'' = Inr sz" "GetInt64 body ''owner_user_id'' = Inr u"
    using assms(8,9) by (simp_all add: GetString_def g GetInt64_show)
  define fid where "fid = file_key (fms_file_seq (lr_files st) + 1)"
  obtain w1 now where c: "LocalRpc_Forward ops ts ctx w st =
    (BuildJsonResponse 200 (ApiResponse_Success (json_object [(''file_id'', fid, True)])) (fc_request_id ctx), ctx, w1,
     st\<lparr>lr_files := file_add \<lparr>fm_file_id = fid, fm_filename = n, fm_size = sz, fm_content_type = t,
       fm_owner_user_id = u, fm_created_at = now\<rparr> (lr_files st)\<rparr>)"
    using create_on_time [OF assms(1-4) b flds(1) assms(6) flds(3) assms(7) flds(2,4) assms(10), of ops ts st]
    unfolding fid_def by blast
  let ?f = "\<lparr>fm_file_id = fid, fm_filename = n, fm_size = sz, fm_content_type = t, fm_owner_user_id = u, fm_created_at = now\<rparr>"
  let ?st = "st\<lparr>lr_files := file_add ?f (lr_files st)\<rparr>"
  have fresh: "fms_files (lr_files st) fid = None"
    using files.issued_fresh [OF assms(11)] assms(12) by (simp add: fid_def)
  have st: "fms_files (lr_files ?st) fid = Some ?f" by (simp add: file_add_def fid_def)
  let ?kvs = "[(''file_id'', fid, True), (''filename'', n, True), (''size'', show_int sz, False), (''content_type'', t, True),
    (''owner_user_id'', show_int u, False), (''created_at'', show_int now, False)]"
  obtain m where m: "ParseFlatJsonObject (json_object ?kvs) = Inr m"
    "\<And>key. om_get m key = map_of (rev (map (\<lambda>(k, v, b). (k, v)) ?kvs)) key"
    using object_fields [of ?kvs] scalar_text_show_int by auto
  have mf: "GetString m ''filename'' = n \<and> GetInt64 m ''size'' = Inr sz \<and> GetString m ''content_type'' = t \<and>
      GetInt64 m ''owner_user_id'' = Inr u"
    using assms(8,9) by (simp add: GetString_def m(2) GetInt64_show)
  have "\<exists>data m w3. LocalRpc_Forward ops ts ctx2 w2 ?st =
          (BuildJsonResponse 200 (ApiResponse_Success data) (fc_request_id ctx2), ctx2, w3, ?st) \<and>
        ParseFlatJsonObject data = Inr m \<and> GetString m ''filename'' = n \<and> GetInt64 m ''size'' = Inr sz \<and>
        GetString m ''content_type'' = t \<and> GetInt64 m ''owner_user_id'' = Inr u"
    if q: "on_time ctx2 w2 \<and> fc_upstream ctx2 = ''FileMetaService'' \<and> fc_method ctx2 = ''GET'' \<and>
       fc_upstream_path ctx2 = ''/meta'' \<and> list_all2 pair_encodes [(''file_id'', fid)] qs \<and> fc_query ctx2 = query_text qs"
    for ctx2 w2 qs
  proof -
    have "GetString (ParseQuery (fc_query ctx2)) ''file_id'' = fid"
      using query_fields [of "[(''file_id'', fid)]" qs "''file_id''"] q by (simp add: GetString_def)
    from get_on_time [OF _ _ _ _ this st] q m(1) mf show ?thesis by fastforce
  qed
  with c fresh show ?thesis by blast
qed

definition demo_upload :: ForwardContext where
  "demo_upload = \<lparr>fc_request_id = ''req-2'', fc_upstream = ''FileMetaService'', fc_upstream_path = ''/meta/create'',
     fc_method = ''POST'', fc_query = [],
     fc_body = json_object [(''filename'', ''a.txt'', True), (''size'', show_int 3, False),
       (''content_type'', ''text/plain'', True), (''owner_user_id'', show_int 7, False)],
     fc_timeout_ms = 1000, fc_deadline = None, fc_headers = []\<rparr>"

theorem http_file_roundtrip_witness:
  "\<exists>fid w1 st1. LocalRpc_Forward (UserServiceImpl InMemoryUserRepository) None demo_upload demo_still demo_state =
     (BuildJsonResponse 200 (ApiResponse_Success (json_object [(''file_id'', fid, True)])) ''req-2'', demo_upload, w1, st1) \<and>
   fms_files (lr_files demo_state) fid = None"
proof -
  have f: "on_time demo_upload demo_still" "fc_upstream demo_upload = ''FileMetaService''" "fc_method demo_upload = ''POST''"
    "fc_upstream_path demo_upload = ''/meta/create''"
    "fc_body demo_upload = json_object [(''filename'', ''a.txt'', True), (''size'', show_int 3, False),
       (''content_type'', ''text/plain'', True), (''owner_user_id'', show_int 7, False)]"
    by (simp_all add: demo_upload_def on_time_def)
  have v: "''a.txt'' \<noteq> []" "(0::int) \<le> 3" "in_int64 3" "in_int64 7" "(7::int) \<noteq> 0"
    "files.issued (lr_files demo_state)" "unat (fms_file_seq (lr_files demo_state)) + 1 < 2 ^ 64"
    by (simp_all add: in_int64_def INT64_MIN_def INT64_MAX_def files.issued_def demo_state_def FileMetaServiceImpl_default_def)
  have "fc_request_id demo_upload = ''req-2''" by (simp add: demo_upload_def)
  then show ?thesis
    using http_file_roundtrip [OF f v, of "UserServiceImpl InMemoryUserRepository" None] by auto
qed

text \<open>
  C27: The local client meets the contract of upstream clients: whatever the request, the
  services and the time, it answers under the request's id, changes nothing of the context
  but cancelling its deadline, and turns every exception into an answer (an invalid number
  into a 400, all others into a 500).
\<close>

theorem local_client_contract:
  assumes "user_service ops"
  shows "upstream_client (LocalRpc_Forward ops ts) \<and>
    (\<forall>ctx w st e ctx' w' st'. local_dispatch ops ts ctx w st = (Inl e, ctx', w', st') \<longrightarrow>
       rsp_status (fst (LocalRpc_Forward ops ts ctx w st)) =
         (case e of Invalid_argument m \<Rightarrow> 400 | Out_of_range m \<Rightarrow> 500 | Runtime_error m \<Rightarrow> 500))"
  using user_service.local_upstream_client [OF assms]
  by (simp add: LocalRpc_Forward_def catch_exn_def BadRequest_def InternalError_def BuildJsonResponse_def split: exn.split)

theorem local_client_contract_witness:
  "header (fst (LocalRpc_Forward (UserServiceImpl InMemoryUserRepository) None demo_upload demo_still demo_state))
     ''X-Request-Id'' = Some ''req-2''"
proof -
  have c: "upstream_client (LocalRpc_Forward (UserServiceImpl InMemoryUserRepository) None)"
    using local_client_contract [OF impl.user_service_axioms] by blast
  have "fc_request_id demo_upload = ''req-2''" by (simp add: demo_upload_def)
  with upstream_client.answers_id [OF c] show ?thesis by (metis prod.collapse)
qed

end
