(* ===== verification/Gateway.thy ===== *)
theory Gateway
  imports AuthFilter RateLimit Metrics Tracing LocalRpc
begin

text \<open>
  The request path of the gateway: the exact routes and the fallback of
  \<^verbatim>\<open>src/gateway/router.cc\<close>, and the handler of
  \<^verbatim>\<open>src/gateway/gateway_handler.cc\<close>, which composes route matching,
  authentication, rate limiting, forwarding, metrics and tracing. Logging is left out. The
  token check reads the system clock only for a signed token; the model reads it for every
  request, which makes no difference as the readings are arbitrary.
\<close>

section \<open>The router\<close>

text \<open>
  A handler is a function of the request over the server's state \<^typ>\<open>'s\<close>. The
  \<^verbatim>\<open>unordered_map\<close> of exact routes is a function from keys to handlers; the order
  in which it is iterated is unspecified, so the listing is a relation on lists.
\<close>

type_synonym 's handler = "HttpRequest \<Rightarrow> World \<Rightarrow> 's \<Rightarrow> HttpResponse \<times> World \<times> 's"

record 's Router =
  rt_routes :: "string \<Rightarrow> 's handler option"
  rt_fallback :: "'s handler option"

definition Router_default :: "'s Router" where
  "Router_default = \<lparr>rt_routes = Map.empty, rt_fallback = None\<rparr>"

definition MakeRouteKey :: "string \<Rightarrow> string \<Rightarrow> string" where
  "MakeRouteKey m path = m @ '' '' @ path"

definition AddRoute :: "string \<Rightarrow> string \<Rightarrow> 's handler \<Rightarrow> 's Router \<Rightarrow> 's Router" where
  "AddRoute m path h r = r\<lparr>rt_routes := (rt_routes r)(MakeRouteKey m path \<mapsto> h)\<rparr>"

definition SetFallback :: "'s handler \<Rightarrow> 's Router \<Rightarrow> 's Router" where
  "SetFallback h r = r\<lparr>rt_fallback := Some h\<rparr>"

definition Dispatch :: "'s Router \<Rightarrow> 's handler" where
  "Dispatch r request w s =
     (case rt_routes r (MakeRouteKey (req_method request) (req_path request)) of
        Some h \<Rightarrow> h request w s
      | None \<Rightarrow>
          (case rt_fallback r of
             Some h \<Rightarrow> h request w s
           | None \<Rightarrow>
               (set_header ''X-Request-Id'' (req_request_id request)
                  (HttpResponse_default\<lparr>rsp_status := 404, rsp_content_type := ''application/json'',
                     rsp_body := ToJson (ApiResponse_Error NOT_FOUND ''route not found'')\<rparr>), w, s)))"

definition ListRoutes :: "'s Router \<Rightarrow> string list \<Rightarrow> bool" where
  "ListRoutes r result \<longleftrightarrow>
     (\<exists>keys. distinct keys \<and> set keys = dom (rt_routes r) \<and>
        result = keys @ (if rt_fallback r = None then [] else [''FALLBACK /api/*'']))"

section \<open>The gateway handler\<close>

text \<open>
  The fixed parts of the handler: the sorted route table, the upstream client, the
  authorization filter (or none), the Redis connection of the rate limiter and the strings
  that a moved-from span holds. The rest is its state.
\<close>

record ('s, 'r) GatewayHandler =
  gh_routes :: "RouteConfig list"
  gh_upstream :: "'s upstream"
  gh_auth :: "AuthFilter option"
  gh_redis :: "'r redis_io"
  gh_moved_from :: "FinishedSpan \<Rightarrow> FinishedSpan"

record ('s, 'r) GatewayState =
  gw_limiter :: "RateLimitFilter option"
  gw_redis :: 'r
  gw_metrics :: "MetricsRegistry option"
  gw_tracer :: "Tracer option"
  gw_upstream :: 's

text \<open>The lambda \<^verbatim>\<open>finish\<close>: metrics, the end of the server span, debug headers.\<close>

definition expose_headers :: "Tracer option \<Rightarrow> TraceSpan \<Rightarrow> HttpResponse \<Rightarrow> HttpResponse" where
  "expose_headers tracer sp rsp =
     (case tracer of
        None \<Rightarrow> rsp
      | Some tr \<Rightarrow>
          let rsp1 = (if ExposeDebugHeaders tr \<and> sp_trace_id sp \<noteq> []
                      then set_header ''X-Trace-Id'' (sp_trace_id sp) rsp else rsp)
          in if ExposeDebugHeaders tr \<and> sp_span_id sp \<noteq> []
             then set_header ''X-Span-Id'' (sp_span_id sp) rsp1 else rsp1)"

definition gateway_finish ::
  "('s, 'r) GatewayHandler \<Rightarrow> HttpRequest \<Rightarrow> TraceSpan \<Rightarrow> int \<Rightarrow> HttpResponse \<Rightarrow> string \<Rightarrow>
   World \<Rightarrow> ('s, 'r) GatewayState \<Rightarrow> HttpResponse \<times> World \<times> ('s, 'r) GatewayState" where
  "gateway_finish h request sp started_at rsp upstream w st =
     (let up = (if upstream = [] then ''none'' else upstream) in
      case (case gw_metrics st of
              None \<Rightarrow> (w, st)
            | Some m \<Rightarrow>
                (case steady_now w of (now, w1) \<Rightarrow>
                   (w1, st\<lparr>gw_metrics := Some (RecordRequest (req_path request) up (rsp_status rsp)
                             (word_of_int (ns_to_ms (now - started_at))) m)\<rparr>))) of (w1, st1) \<Rightarrow>
      case (case gw_tracer st1 of
              None \<Rightarrow> (w1, st1)
            | Some tr \<Rightarrow>
                (case FinishSpan (gh_moved_from h) sp ''server'' (req_path request) up (rsp_status rsp)
                        (om_put ''request.id'' (req_request_id request)
                          (om_put ''http.method'' (req_method request) om_empty)) w1 tr of (w2, tr') \<Rightarrow>
                   (w2, st1\<lparr>gw_tracer := Some tr'\<rparr>))) of (w2, st2) \<Rightarrow>
        (expose_headers (gw_tracer st2) sp rsp, w2, st2))"

text \<open>The trace headers and the identity that are put on the forwarded request.\<close>

definition put_req_header :: "string \<Rightarrow> string \<Rightarrow> HttpRequest \<Rightarrow> HttpRequest" where
  "put_req_header k v request = request\<lparr>req_headers := om_put k v (req_headers request)\<rparr>"

definition with_trace :: "TraceSpan \<Rightarrow> HttpRequest \<Rightarrow> HttpRequest" where
  "with_trace sp request =
     (let r1 = (if sp_trace_id sp \<noteq> [] then put_req_header ''X-Trace-Id'' (sp_trace_id sp) request else request)
      in if sp_span_id sp \<noteq> [] then put_req_header ''X-Parent-Span-Id'' (sp_span_id sp) r1 else r1)"

definition with_identity :: "AuthResult \<Rightarrow> HttpRequest \<Rightarrow> HttpRequest" where
  "with_identity a request =
     (if ar_user_id a > 0
      then put_req_header ''X-Role'' (ar_role a)
           (put_req_header ''X-Username'' (ar_username a)
           (put_req_header ''X-User-Id'' (show_int (ar_user_id a)) request))
      else request)"

definition with_client_span :: "TraceSpan \<Rightarrow> ForwardContext \<Rightarrow> ForwardContext" where
  "with_client_span sp ctx =
     (let hs1 = (if sp_trace_id sp \<noteq> [] then om_put ''X-Trace-Id'' (sp_trace_id sp) (fc_headers ctx) else fc_headers ctx);
          hs2 = (if sp_span_id sp \<noteq> [] then om_put ''X-Span-Id'' (sp_span_id sp) hs1 else hs1);
          hs3 = (if sp_parent_span_id sp \<noteq> [] then om_put ''X-Parent-Span-Id'' (sp_parent_span_id sp) hs2 else hs2)
      in ctx\<lparr>fc_headers := hs3\<rparr>)"

text \<open>The checks before forwarding: a response that ends the request, or the request to forward.\<close>

definition gateway_auth :: "('s, 'r) GatewayHandler \<Rightarrow> HttpRequest \<Rightarrow> HttpRequest \<Rightarrow> World \<Rightarrow> (HttpResponse + HttpRequest) \<times> World" where
  "gateway_auth h request forward_request w =
     (case gh_auth h of
        None \<Rightarrow> (Inr forward_request, w)
      | Some f \<Rightarrow>
          (case svc_NowUnixSeconds w of (now, w') \<Rightarrow>
             let a = AuthFilter_Check f now request in
             (if \<not> ar_allowed a then Inl (ar_response a) else Inr (with_identity a forward_request), w')))"

definition gateway_limit ::
  "('s, 'r) GatewayHandler \<Rightarrow> HttpRequest \<Rightarrow> RouteMatchResult \<Rightarrow> World \<Rightarrow> ('s, 'r) GatewayState \<Rightarrow>
   RateLimitDecision \<times> World \<times> ('s, 'r) GatewayState" where
  "gateway_limit h forward_request match w st =
     (case gw_limiter st of
        None \<Rightarrow> (RateLimitDecision_default, w, st)
      | Some f \<Rightarrow>
          (case RateLimitFilter_Check (gh_redis h) f w (gw_redis st) forward_request match of (d, f', w', r') \<Rightarrow>
             (d, w', st\<lparr>gw_limiter := Some f', gw_redis := r'\<rparr>)))"

text \<open>Forwarding, from the building of the context to the rate limit headers.\<close>

definition gateway_forward ::
  "('s, 'r) GatewayHandler \<Rightarrow> HttpRequest \<Rightarrow> HttpRequest \<Rightarrow> RouteMatchResult \<Rightarrow> TraceSpan \<Rightarrow> RateLimitDecision \<Rightarrow>
   World \<Rightarrow> ('s, 'r) GatewayState \<Rightarrow> HttpResponse \<times> World \<times> ('s, 'r) GatewayState" where
  "gateway_forward h request forward_request match gateway_span decision w st =
     (case ForwardContext_Build forward_request match w of (ctx, w1) \<Rightarrow>
      case (case gw_tracer st of
              None \<Rightarrow> (ctx, TraceSpan_default, w1, st)
            | Some tr \<Rightarrow>
                (case StartClientSpan gateway_span (''upstream.'' @ fc_upstream ctx) w1 tr of (sp, w2, tr') \<Rightarrow>
                   (with_client_span sp ctx, sp, w2, st\<lparr>gw_tracer := Some tr'\<rparr>))) of (ctx1, sp, w2, st1) \<Rightarrow>
      case gh_upstream h ctx1 w2 (gw_upstream st1) of (rsp, ctx2, w3, s') \<Rightarrow>
      let st2 = st1\<lparr>gw_upstream := s'\<rparr> in
      case (case gw_tracer st2 of
              None \<Rightarrow> (w3, st2)
            | Some tr \<Rightarrow>
                (case FinishSpan (gh_moved_from h) sp ''client'' (fc_upstream_path ctx2) (fc_upstream ctx2) (rsp_status rsp)
                        (om_put ''route.path'' (req_path request) (om_put ''request.id'' (fc_request_id ctx2)
                          (om_put ''http.method'' (fc_method ctx2) om_empty))) w3 tr of (w4, tr') \<Rightarrow>
                   (w4, st2\<lparr>gw_tracer := Some tr'\<rparr>))) of (w4, st3) \<Rightarrow>
      let rsp1 = (if gw_limiter st \<noteq> None \<and> rd_limit decision > 0
                  then set_header ''X-RateLimit-Reset'' (show_int (rd_reset_seconds decision))
                       (set_header ''X-RateLimit-Remaining'' (show_int (rd_remaining decision))
                       (set_header ''X-RateLimit-Limit'' (show_int (rd_limit decision)) rsp))
                  else rsp)
      in (rsp1, w4, st3))"

text \<open>
  The clients take the context by constant reference, so the upstream that is recorded at the
  end is still the one of the matched route.
\<close>

text \<open>The start of a request: the clock and the span.\<close>

definition gateway_begin :: "HttpRequest \<Rightarrow> World \<Rightarrow> ('s, 'r) GatewayState \<Rightarrow> TraceSpan \<times> int \<times> World \<times> ('s, 'r) GatewayState" where
  "gateway_begin request w st =
     (case steady_now w of (started_at, w1) \<Rightarrow>
      case gw_tracer st of
        None \<Rightarrow> (TraceSpan_default, started_at, w1, st)
      | Some tr \<Rightarrow>
          (case StartServerSpan request ''gateway.handle'' w1 tr of (sp, w2, tr') \<Rightarrow>
             (sp, started_at, w2, st\<lparr>gw_tracer := Some tr'\<rparr>)))"

definition Gateway_Handle :: "('s, 'r) GatewayHandler \<Rightarrow> ('s, 'r) GatewayState handler" where
  "Gateway_Handle h request w st =
     (case gateway_begin request w st of (sp, started_at, w2, st1) \<Rightarrow>
      case RouteRuleManager_Match (gh_routes h) (req_path request) of
        None \<Rightarrow>
          gateway_finish h request sp started_at
            (set_header ''X-Request-Id'' (req_request_id request)
              (HttpResponse_default\<lparr>rsp_status := 404, rsp_content_type := ''application/json'',
                 rsp_body := ToJson (ApiResponse_Error NOT_FOUND ''gateway route not found'')\<rparr>)) ''none'' w2 st1
      | Some match \<Rightarrow>
          (case gateway_auth h request (with_trace sp request) w2 of
             (Inl rsp, w3) \<Rightarrow> gateway_finish h request sp started_at rsp (rc_upstream (rmr_route match)) w3 st1
           | (Inr forward_request, w3) \<Rightarrow>
               (case gateway_limit h forward_request match w3 st1 of (decision, w4, st2) \<Rightarrow>
                  if \<not> rd_allowed decision
                  then gateway_finish h request sp started_at (rd_response decision) (rc_upstream (rmr_route match)) w4 st2
                  else case gateway_forward h request forward_request match sp decision w4 st2 of (rsp, w5, st3) \<Rightarrow>
                         gateway_finish h request sp started_at rsp (rc_upstream (rmr_route match)) w5 st3)))"

section \<open>Headers on the way\<close>

lemma copy_headers:
  "om_get (fold (copy_header request) ks hs) k =
     (if k \<in> set ks \<and> om_get (req_headers request) k \<noteq> None then om_get (req_headers request) k else om_get hs k)"
proof (induction ks arbitrary: hs)
  case (Cons k' ks)
  then show ?case by (cases "k' = k") (auto simp: copy_header_def split: option.splits)
qed simp

lemma ForwardContext_Build_spec:
  assumes "ForwardContext_Build request match w = (ctx, w')"
  shows "fc_request_id ctx = req_request_id request" "fc_upstream ctx = rc_upstream (rmr_route match)"
    "fc_upstream_path ctx = rmr_upstream_path match" "fc_method ctx = req_method request"
    "fc_query ctx = req_query request" "fc_body ctx = req_body request" "later w w'"
    "k \<noteq> ''X-Request-Id'' \<Longrightarrow> om_get (fc_headers ctx) k =
       (if k \<in> set forwarded_headers then om_get (req_headers request) k else None)"
proof -
  obtain d v where d: "DeadlineContext_Start (rc_timeout_ms (rmr_route match)) w = (d, v)" by fastforce
  note b = assms [unfolded ForwardContext_Build_def d, simplified]
  show "fc_request_id ctx = req_request_id request" "fc_upstream ctx = rc_upstream (rmr_route match)"
    "fc_upstream_path ctx = rmr_upstream_path match" "fc_method ctx = req_method request"
    "fc_query ctx = req_query request" "fc_body ctx = req_body request"
    using b by auto
  show "later w w'" using b later_deadline(6) [OF d] by auto
  show "k \<noteq> ''X-Request-Id'' \<Longrightarrow> om_get (fc_headers ctx) k =
       (if k \<in> set forwarded_headers then om_get (req_headers request) k else None)"
    using b copy_headers [of request forwarded_headers "[]" k] by auto
qed

text \<open>The deadline that a forwarded request starts with.\<close>

definition fresh_deadline :: "int \<Rightarrow> World \<Rightarrow> ForwardContext \<Rightarrow> bool" where
  "fresh_deadline timeout_ms w ctx \<longleftrightarrow>
     fc_timeout_ms ctx = timeout_ms \<and>
     (\<exists>d n. fc_deadline ctx = Some d \<and> \<not> dl_cancelled d \<and> dl_start d = steady_ns w n \<and>
        dl_deadline d = dl_start d + (if timeout_ms \<le> 0 then 1 else timeout_ms) * 1000000)"

lemma ForwardContext_Build_deadline:
  "ForwardContext_Build request match w = (ctx, w') \<Longrightarrow> fresh_deadline (rc_timeout_ms (rmr_route match)) w ctx"
  by (auto simp: ForwardContext_Build_def DeadlineContext_Start_def steady_now_def fresh_deadline_def Let_def)

definition trace_keys :: "string set" where
  "trace_keys = {''X-Trace-Id'', ''X-Span-Id'', ''X-Parent-Span-Id''}"

lemma with_trace_other: "k \<notin> trace_keys \<Longrightarrow> om_get (req_headers (with_trace sp request)) k = om_get (req_headers request) k"
  by (auto simp: with_trace_def put_req_header_def trace_keys_def Let_def)

lemma with_client_span_other: "k \<notin> trace_keys \<Longrightarrow> om_get (fc_headers (with_client_span sp ctx)) k = om_get (fc_headers ctx) k"
  by (auto simp: with_client_span_def trace_keys_def Let_def)

lemma with_trace_fields [simp]:
  "req_method (with_trace sp request) = req_method request" "req_path (with_trace sp request) = req_path request"
  "req_query (with_trace sp request) = req_query request" "req_body (with_trace sp request) = req_body request"
  "req_client_ip (with_trace sp request) = req_client_ip request"
  "req_request_id (with_trace sp request) = req_request_id request"
  by (simp_all add: with_trace_def put_req_header_def Let_def)

lemma with_identity_fields [simp]:
  "req_method (with_identity a request) = req_method request" "req_path (with_identity a request) = req_path request"
  "req_query (with_identity a request) = req_query request" "req_body (with_identity a request) = req_body request"
  "req_client_ip (with_identity a request) = req_client_ip request"
  "req_request_id (with_identity a request) = req_request_id request"
  by (simp_all add: with_identity_def put_req_header_def)

lemma with_client_span_fields [simp]:
  "fc_request_id (with_client_span sp ctx) = fc_request_id ctx" "fc_upstream (with_client_span sp ctx) = fc_upstream ctx"
  "fc_upstream_path (with_client_span sp ctx) = fc_upstream_path ctx" "fc_method (with_client_span sp ctx) = fc_method ctx"
  "fc_query (with_client_span sp ctx) = fc_query ctx" "fc_body (with_client_span sp ctx) = fc_body ctx"
  "fc_timeout_ms (with_client_span sp ctx) = fc_timeout_ms ctx" "fc_deadline (with_client_span sp ctx) = fc_deadline ctx"
  by (simp_all add: with_client_span_def Let_def)

lemma with_identity_headers:
  "0 < ar_user_id a \<Longrightarrow> om_get (req_headers (with_identity a request)) ''X-User-Id'' = Some (show_int (ar_user_id a))"
  "0 < ar_user_id a \<Longrightarrow> om_get (req_headers (with_identity a request)) ''X-Username'' = Some (ar_username a)"
  "0 < ar_user_id a \<Longrightarrow> om_get (req_headers (with_identity a request)) ''X-Role'' = Some (ar_role a)"
  by (simp_all add: with_identity_def put_req_header_def)

section \<open>Time passes during a request\<close>

lemma later_frames [later_intros]:
  "StartServerSpan request name w tr = (sp, w', tr') \<Longrightarrow> later w w'"
  "StartClientSpan parent name w tr = (sp, w', tr') \<Longrightarrow> later w w'"
  "FinishSpan mv sp kind path up status attrs w tr = (w', tr') \<Longrightarrow> later w w'"
  "rl_NowUnixSeconds w = (i, w') \<Longrightarrow> later w w'"
  by (auto simp: StartServerSpan_def StartClientSpan_def FinishSpan_def NowUnixMs_def steady_now_def system_now_def
      rl_NowUnixSeconds_def later_def Let_def split: prod.splits if_splits)

lemma later_Check [later_intros]: "RateLimitFilter_Check io f w r request match = (d, f', w', r') \<Longrightarrow> later w w'"
  by (auto simp: RateLimitFilter_Check_def rl_NowUnixSeconds_def steady_now_def later_def Let_def
      split: prod.splits if_splits sum.splits)

section \<open>What one request does\<close>

text \<open>
  The outcome of a request in terms of its parts: no route, refused by the authorization
  filter, refused by the rate limiter, or forwarded exactly once.
\<close>

definition not_found_response :: "HttpRequest \<Rightarrow> HttpResponse" where
  "not_found_response request =
     set_header ''X-Request-Id'' (req_request_id request)
       (HttpResponse_default\<lparr>rsp_status := 404, rsp_content_type := ''application/json'',
          rsp_body := ToJson (ApiResponse_Error NOT_FOUND ''gateway route not found'')\<rparr>)"

definition traced :: "('s, 'r) GatewayState \<Rightarrow> ('s, 'r) GatewayState \<Rightarrow> bool" where
  "traced st st' \<longleftrightarrow> gw_limiter st' = gw_limiter st \<and> gw_redis st' = gw_redis st \<and> gw_metrics st' = gw_metrics st \<and>
     gw_upstream st' = gw_upstream st"

lemma traced_refl [simp]: "traced st st"
  by (simp add: traced_def)

lemma gateway_begin_frame:
  assumes "gateway_begin request w st = (sp, started, w2, st1)"
  shows "traced st st1" "later w w2"
proof -
  obtain now w1 where n: "steady_now w = (now, w1)" by fastforce
  then have "later w w1" by (rule later_steady_now)
  moreover have "traced st st1 \<and> later w1 w2"
    using assms n by (auto simp: gateway_begin_def traced_def intro: later_intros split: option.splits prod.splits)
  ultimately show "traced st st1" "later w w2" using later_trans by blast+
qed

lemma Handle_cases:
  assumes "Gateway_Handle h request w st = (rsp, w', st')"
  obtains (no_route) sp started w2 st1 where "gateway_begin request w st = (sp, started, w2, st1)"
      "RouteRuleManager_Match (gh_routes h) (req_path request) = None"
      "gateway_finish h request sp started (not_found_response request) ''none'' w2 st1 = (rsp, w', st')"
  | (forbidden) sp started w2 st1 match refusal w3 where "gateway_begin request w st = (sp, started, w2, st1)"
      "RouteRuleManager_Match (gh_routes h) (req_path request) = Some match"
      "gateway_auth h request (with_trace sp request) w2 = (Inl refusal, w3)"
      "gateway_finish h request sp started refusal (rc_upstream (rmr_route match)) w3 st1 = (rsp, w', st')"
  | (limited) sp started w2 st1 match fwd w3 d w4 st2 where "gateway_begin request w st = (sp, started, w2, st1)"
      "RouteRuleManager_Match (gh_routes h) (req_path request) = Some match"
      "gateway_auth h request (with_trace sp request) w2 = (Inr fwd, w3)"
      "gateway_limit h fwd match w3 st1 = (d, w4, st2)" "\<not> rd_allowed d"
      "gateway_finish h request sp started (rd_response d) (rc_upstream (rmr_route match)) w4 st2 = (rsp, w', st')"
  | (forwarded) sp started w2 st1 match fwd w3 d w4 st2 r w5 st3 where "gateway_begin request w st = (sp, started, w2, st1)"
      "RouteRuleManager_Match (gh_routes h) (req_path request) = Some match"
      "gateway_auth h request (with_trace sp request) w2 = (Inr fwd, w3)"
      "gateway_limit h fwd match w3 st1 = (d, w4, st2)" "rd_allowed d"
      "gateway_forward h request fwd match sp d w4 st2 = (r, w5, st3)"
      "gateway_finish h request sp started r (rc_upstream (rmr_route match)) w5 st3 = (rsp, w', st')"
proof -
  obtain sp started w2 st1 where tr: "gateway_begin request w st = (sp, started, w2, st1)" by (rule prod_cases4)
  note h = assms [unfolded Gateway_Handle_def tr prod.case, folded not_found_response_def]
  show ?thesis
  proof (cases "RouteRuleManager_Match (gh_routes h) (req_path request)")
    case None
    from no_route [OF tr None h [unfolded None option.case]] show ?thesis .
  next
    case (Some match)
    obtain res w3 where a: "gateway_auth h request (with_trace sp request) w2 = (res, w3)" by fastforce
    show ?thesis
    proof (cases res)
      case (Inl refusal)
      from forbidden [OF tr Some a [unfolded Inl] h [unfolded Some option.case a prod.case Inl sum.case]] show ?thesis .
    next
      case (Inr fwd)
      obtain d w4 st2 where l: "gateway_limit h fwd match w3 st1 = (d, w4, st2)" by (rule prod_cases3)
      obtain r w5 st3 where f: "gateway_forward h request fwd match sp d w4 st2 = (r, w5, st3)" by (rule prod_cases3)
      note h' = h [unfolded Some option.case a prod.case Inr sum.case l f]
      show ?thesis
      proof (cases "rd_allowed d")
        case True
        from forwarded [OF tr Some a [unfolded Inr] l True f] h' True show ?thesis by simp
      next
        case False
        from limited [OF tr Some a [unfolded Inr] l False] h' False show ?thesis by simp
      qed
    qed
  qed
qed

text \<open>Finishing changes the metrics and the tracer, and adds debug headers.\<close>

lemma gateway_finish_spec:
  assumes "gateway_finish h request sp started rsp up w st = (rsp', w', st')"
  shows "gw_upstream st' = gw_upstream st \<and> gw_limiter st' = gw_limiter st \<and> gw_redis st' = gw_redis st \<and>
    rsp_status rsp' = rsp_status rsp \<and> rsp_body rsp' = rsp_body rsp \<and>
    (\<forall>k. k \<notin> trace_keys \<longrightarrow> header rsp' k = header rsp k) \<and>
    (\<exists>d. gw_metrics st' = map_option (RecordRequest (req_path request) (if up = [] then ''none'' else up) (rsp_status rsp) d)
       (gw_metrics st))"
proof -
  let ?up = "if up = [] then ''none'' else up"
  obtain w1 st1 where m: "(case gw_metrics st of
              None \<Rightarrow> (w, st)
            | Some m \<Rightarrow>
                (case steady_now w of (now, w1) \<Rightarrow>
                   (w1, st\<lparr>gw_metrics := Some (RecordRequest (req_path request) ?up (rsp_status rsp)
                             (word_of_int (ns_to_ms (now - started))) m)\<rparr>))) = (w1, st1)" by fastforce
  obtain w2 st2 where t: "(case gw_tracer st1 of
              None \<Rightarrow> (w1, st1)
            | Some tr \<Rightarrow>
                (case FinishSpan (gh_moved_from h) sp ''server'' (req_path request) ?up (rsp_status rsp)
                        (om_put ''request.id'' (req_request_id request)
                          (om_put ''http.method'' (req_method request) om_empty)) w1 tr of (w2, tr') \<Rightarrow>
                   (w2, st1\<lparr>gw_tracer := Some tr'\<rparr>))) = (w2, st2)" by fastforce
  have f: "rsp' = expose_headers (gw_tracer st2) sp rsp" "st' = st2"
    using assms [unfolded gateway_finish_def Let_def m prod.case t] by auto
  have e: "rsp_status rsp' = rsp_status rsp \<and> rsp_body rsp' = rsp_body rsp \<and>
      (\<forall>k. k \<notin> trace_keys \<longrightarrow> header rsp' k = header rsp k)"
    by (simp add: f(1) expose_headers_def set_header_def trace_keys_def Let_def split: option.split)
  have "gw_upstream st1 = gw_upstream st \<and> gw_limiter st1 = gw_limiter st \<and> gw_redis st1 = gw_redis st \<and>
      (\<exists>d. gw_metrics st1 = map_option (RecordRequest (req_path request) ?up (rsp_status rsp) d) (gw_metrics st))"
    using m by (auto split: option.splits prod.splits)
  moreover have "gw_upstream st2 = gw_upstream st1 \<and> gw_limiter st2 = gw_limiter st1 \<and> gw_redis st2 = gw_redis st1 \<and>
      gw_metrics st2 = gw_metrics st1"
    using t by (auto split: option.splits prod.splits)
  ultimately show ?thesis using e f(2) by simp
qed

lemma gateway_limit_spec:
  assumes "gateway_limit h fwd match w st = (d, w', st')"
  shows "gw_upstream st' = gw_upstream st" "gw_metrics st' = gw_metrics st" "gw_limiter st = None \<longleftrightarrow> gw_limiter st' = None"
  using assms by (auto simp: gateway_limit_def split: option.splits prod.splits)

text \<open>Forwarding calls the upstream client once, with the context that was built.\<close>

lemma gateway_forward_spec:
  assumes "gateway_forward h request fwd match gsp d w st = (rsp, w', st')"
  obtains ctx w1 r ctx' w2 s' where "gh_upstream h ctx w1 (gw_upstream st) = (r, ctx', w2, s')"
    "gw_upstream st' = s'" "gw_metrics st' = gw_metrics st" "rsp_status rsp = rsp_status r" "rsp_body rsp = rsp_body r"
    "header rsp ''X-Request-Id'' = header r ''X-Request-Id''"
    "fc_request_id ctx = req_request_id fwd" "fc_upstream ctx = rc_upstream (rmr_route match)"
    "fc_upstream_path ctx = rmr_upstream_path match" "fc_method ctx = req_method fwd" "fc_query ctx = req_query fwd"
    "fc_body ctx = req_body fwd"
    "\<And>k. k \<notin> trace_keys \<Longrightarrow> k \<noteq> ''X-Request-Id'' \<Longrightarrow>
       om_get (fc_headers ctx) k = (if k \<in> set forwarded_headers then om_get (req_headers fwd) k else None)"
    "fresh_deadline (rc_timeout_ms (rmr_route match)) w ctx" "later w w1"
proof -
  obtain ctx0 w1 where b: "ForwardContext_Build fwd match w = (ctx0, w1)" by fastforce
  obtain ctx sp w2 st1 where t: "(case gw_tracer st of
              None \<Rightarrow> (ctx0, TraceSpan_default, w1, st)
            | Some tr \<Rightarrow>
                (case StartClientSpan gsp (''upstream.'' @ fc_upstream ctx0) w1 tr of (sp, w2, tr') \<Rightarrow>
                   (with_client_span sp ctx0, sp, w2, st\<lparr>gw_tracer := Some tr'\<rparr>))) = (ctx, sp, w2, st1)"
    by (rule prod_cases4)
  have st1: "gw_upstream st1 = gw_upstream st" "gw_metrics st1 = gw_metrics st"
    using t by (auto split: option.splits prod.splits)
  have "ctx = ctx0 \<or> (\<exists>sp. ctx = with_client_span sp ctx0)" using t by (auto split: option.splits prod.splits)
  then have ctx: "fc_request_id ctx = fc_request_id ctx0" "fc_upstream ctx = fc_upstream ctx0"
    "fc_upstream_path ctx = fc_upstream_path ctx0" "fc_method ctx = fc_method ctx0" "fc_query ctx = fc_query ctx0"
    "fc_body ctx = fc_body ctx0" "\<And>k. k \<notin> trace_keys \<Longrightarrow> om_get (fc_headers ctx) k = om_get (fc_headers ctx0) k"
    "fresh_deadline (rc_timeout_ms (rmr_route match)) w ctx"
    using with_client_span_other ForwardContext_Build_deadline [OF b] by (auto simp: fresh_deadline_def)
  have "later w1 w2" using t by (auto intro: later_intros split: option.splits prod.splits)
  then have l: "later w w2" using ForwardContext_Build_spec(7) [OF b] later_trans by blast
  obtain r ctx' w3 s' where c: "gh_upstream h ctx w2 (gw_upstream st1) = (r, ctx', w3, s')" by (metis prod.exhaust)
  let ?st2 = "st1\<lparr>gw_upstream := s'\<rparr>"
  obtain w4 st3 where f: "(case gw_tracer ?st2 of
              None \<Rightarrow> (w3, ?st2)
            | Some tr \<Rightarrow>
                (case FinishSpan (gh_moved_from h) sp ''client'' (fc_upstream_path ctx') (fc_upstream ctx') (rsp_status r)
                        (om_put ''route.path'' (req_path request) (om_put ''request.id'' (fc_request_id ctx')
                          (om_put ''http.method'' (fc_method ctx') om_empty))) w3 tr of (w4, tr') \<Rightarrow>
                   (w4, ?st2\<lparr>gw_tracer := Some tr'\<rparr>))) = (w4, st3)" by fastforce
  have st3: "gw_upstream st3 = s'" "gw_metrics st3 = gw_metrics st1" using f by (auto split: option.splits prod.splits)
  have e: "st' = st3" "rsp = (if gw_limiter st \<noteq> None \<and> rd_limit d > 0
                  then set_header ''X-RateLimit-Reset'' (show_int (rd_reset_seconds d))
                       (set_header ''X-RateLimit-Remaining'' (show_int (rd_remaining d))
                       (set_header ''X-RateLimit-Limit'' (show_int (rd_limit d)) r))
                  else r)"
    using assms [unfolded gateway_forward_def Let_def b prod.case t c f] by auto
  have "gw_upstream st' = s' \<and> gw_metrics st' = gw_metrics st1 \<and> rsp_status rsp = rsp_status r \<and> rsp_body rsp = rsp_body r \<and>
      header rsp ''X-Request-Id'' = header r ''X-Request-Id''"
    using e st3 by simp
  with that [of ctx w2 r ctx' w3 s'] c st1 ctx l ForwardContext_Build_spec [OF b] show ?thesis by simp
qed

section \<open>Refusals carry the request's id\<close>

lemma TooManyRequests_id [simp]: "header (TooManyRequests i a b c) ''X-Request-Id'' = Some i"
  by (simp add: TooManyRequests_def)

lemma CheckLocal_id:
  "CheckLocal f now request win limit key = (d, f') \<Longrightarrow> \<not> rd_allowed d \<Longrightarrow>
   header (rd_response d) ''X-Request-Id'' = Some (req_request_id request)"
  by (auto simp: CheckLocal_def RateLimitDecision_default_def Let_def split: if_splits)

lemma CheckRedis_id:
  "CheckRedis io cfg now request win limit key r = (Inr d, r') \<Longrightarrow> \<not> rd_allowed d \<Longrightarrow>
   header (rd_response d) ''X-Request-Id'' = Some (req_request_id request)"
  by (auto simp: CheckRedis_def RateLimitDecision_default_def Let_def split: if_splits prod.splits sum.splits)

lemma RateLimit_refusal_id:
  assumes "RateLimitFilter_Check io f w r request match = (d, f', w', r')" "\<not> rd_allowed d"
  shows "header (rd_response d) ''X-Request-Id'' = Some (req_request_id request)"
  using assms
  by (auto simp: RateLimitFilter_Check_def RateLimitDecision_default_def Let_def
      dest: CheckLocal_id CheckRedis_id split: if_splits prod.splits sum.splits)

lemma gateway_limit_id:
  "gateway_limit h fwd match w st = (d, w', st') \<Longrightarrow> \<not> rd_allowed d \<Longrightarrow>
   header (rd_response d) ''X-Request-Id'' = Some (req_request_id fwd)"
  by (auto simp: gateway_limit_def RateLimitDecision_default_def dest: RateLimit_refusal_id
      split: option.splits prod.splits)

lemma gateway_auth_cases:
  assumes "gateway_auth h request fwd w = (res, w')"
  shows "(\<forall>rsp. res = Inl rsp \<longrightarrow> header rsp ''X-Request-Id'' = Some (req_request_id request)) \<and>
    (\<forall>fwd'. res = Inr fwd' \<longrightarrow> req_request_id fwd' = req_request_id fwd \<and> req_path fwd' = req_path fwd)"
  using assms AuthFilter_Check_rejects(2)
  by (auto simp: gateway_auth_def Let_def split: option.splits prod.splits if_splits)

lemma Handle_answers:
  assumes "upstream_client (gh_upstream h)" "Gateway_Handle h request w st = (rsp, w', st')"
  shows "header rsp ''X-Request-Id'' = Some (req_request_id request)"
    and "gw_metrics st = Some m \<Longrightarrow> \<exists>up d. gw_metrics st' = Some (RecordRequest (req_path request) up (rsp_status rsp) d m)"
proof -
  have id: "''X-Request-Id'' \<notin> trace_keys" by (simp add: trace_keys_def)
  have fin: "header rsp ''X-Request-Id'' = header r ''X-Request-Id'' \<and>
      (gw_metrics stx = Some m \<longrightarrow> (\<exists>up d. gw_metrics st' = Some (RecordRequest (req_path request) up (rsp_status rsp) d m)))"
    if "gateway_finish h request sp started r up v stx = (rsp, w', st')" for sp started r up v stx
    using gateway_finish_spec [OF that(1)] id by (auto 0 4)
  have "header rsp ''X-Request-Id'' = Some (req_request_id request) \<and>
    (gw_metrics st = Some m \<longrightarrow> (\<exists>up d. gw_metrics st' = Some (RecordRequest (req_path request) up (rsp_status rsp) d m)))"
    using assms(2)
  proof (cases rule: Handle_cases)
    case (no_route sp started w2 st1)
    with fin [OF no_route(3)] gateway_begin_frame(1) [OF no_route(1)] show ?thesis by (simp add: traced_def not_found_response_def)
  next
    case (forbidden sp started w2 st1 match refusal w3)
    with fin [OF forbidden(4)] gateway_auth_cases [OF forbidden(3)] gateway_begin_frame(1) [OF forbidden(1)] show ?thesis by (simp add: traced_def)
  next
    case (limited sp started w2 st1 match fwd w3 d w4 st2)
    with fin [OF limited(6)] gateway_auth_cases [OF limited(3)] gateway_limit_spec(2) [OF limited(4)]
      gateway_limit_id [OF limited(4,5)] gateway_begin_frame(1) [OF limited(1)] show ?thesis by (simp add: traced_def)
  next
    case (forwarded sp started w2 st1 match fwd w3 d w4 st2 r w5 st3)
    note fw = forwarded
    have "req_request_id fwd = req_request_id request" using gateway_auth_cases [OF fw(3)] by simp
    then have "header r ''X-Request-Id'' = Some (req_request_id request) \<and> gw_metrics st3 = gw_metrics st2"
      by (rule_tac gateway_forward_spec [OF fw(6)]) (metis upstream_client.answers_id [OF assms(1)])
    with fin [OF fw(7)] gateway_limit_spec(2) [OF fw(4)] gateway_begin_frame(1) [OF fw(1)] show ?thesis by (simp add: traced_def)
  qed
  then show "header rsp ''X-Request-Id'' = Some (req_request_id request)"
    "gw_metrics st = Some m \<Longrightarrow> \<exists>up d. gw_metrics st' = Some (RecordRequest (req_path request) up (rsp_status rsp) d m)"
    by simp_all
qed

section \<open>Properties\<close>

text \<open>An upstream client that keeps a log of the contexts it is called with.\<close>

definition logging :: "'s upstream \<Rightarrow> (ForwardContext list \<times> 's) upstream" where
  "logging inner ctx w ls =
     (case inner ctx w (snd ls) of (rsp, ctx', w', s') \<Rightarrow> (rsp, ctx', w', fst ls @ [ctx], s'))"

text \<open>
  The outcomes of a request whose upstream client keeps a log: nothing is forwarded, or the
  request has passed the checks and was forwarded once.
\<close>

lemma Handle_log:
  fixes h :: "(ForwardContext list \<times> 's, 'r) GatewayHandler"
  assumes "gh_upstream h = logging up" "gw_upstream st = ([], s)" "Gateway_Handle h request w st = (rsp, w', st')"
  obtains (kept) "gw_upstream st' = ([], s)"
  | (forwarded) match sp w2 fwd w3 st1 d w4 st2 ctx where
      "RouteRuleManager_Match (gh_routes h) (req_path request) = Some match"
      "gateway_auth h request (with_trace sp request) w2 = (Inr fwd, w3)" "traced st st1"
      "gateway_limit h fwd match w3 st1 = (d, w4, st2)" "rd_allowed d" "fst (gw_upstream st') = [ctx]"
      "fc_upstream ctx = rc_upstream (rmr_route match)" "fc_upstream_path ctx = rmr_upstream_path match"
      "fc_request_id ctx = req_request_id fwd" "fc_body ctx = req_body fwd"
      "\<And>k. k \<notin> trace_keys \<Longrightarrow> k \<noteq> ''X-Request-Id'' \<Longrightarrow>
         om_get (fc_headers ctx) k = (if k \<in> set forwarded_headers then om_get (req_headers fwd) k else None)"
  using assms(3)
proof (cases rule: Handle_cases)
  case (no_route sp started w2 st1)
  from gateway_finish_spec [OF no_route(3)] assms(2) gateway_begin_frame(1) [OF no_route(1)] kept show ?thesis by (simp add: traced_def)
next
  case (forbidden sp started w2 st1 match refusal w3)
  from gateway_finish_spec [OF forbidden(4)] assms(2) gateway_begin_frame(1) [OF forbidden(1)] kept show ?thesis by (simp add: traced_def)
next
  case (limited sp started w2 st1 match fwd w3 d w4 st2)
  from gateway_finish_spec [OF limited(6)] gateway_limit_spec(1) [OF limited(4)] assms(2) gateway_begin_frame(1) [OF limited(1)] kept
  show ?thesis by (simp add: traced_def)
next
  case (forwarded sp started w2 st1 match fwd w3 d w4 st2 r w5 st3)
  note fw = forwarded
  have u2: "gw_upstream st2 = ([], s)"
    using gateway_limit_spec(1) [OF fw(4)] assms(2) gateway_begin_frame(1) [OF fw(1)] by (simp add: traced_def)
  have u3: "gw_upstream st' = gw_upstream st3" using gateway_finish_spec [OF fw(7)] by simp
  show ?thesis
    by (rule gateway_forward_spec [OF fw(6)], rule that(2) [OF fw(2,3) gateway_begin_frame(1) [OF fw(1)] fw(4,5)])
       (auto simp: u3 u2 assms(1) logging_def split: prod.splits)
qed


definition demo_route :: RouteConfig where
  "demo_route = \<lparr>rc_name = ''admin'', rc_match_type = ''prefix'', rc_path = ''/admin'', rc_upstream = ''UserService'',
     rc_strip_prefix = True, rc_timeout_ms = 1000\<rparr>"

definition demo_gateway :: "(ForwardContext list \<times> unit, unit) GatewayHandler" where
  "demo_gateway = \<lparr>gh_routes = [demo_route], gh_upstream = logging MockUpstreamClient_Forward, gh_auth = Some demo_filter,
     gh_redis = \<lparr>rio_connect = (\<lambda>a b r. (Inr (), r)), rio_exchange = (\<lambda>c r. (Inr [], r))\<rparr>, gh_moved_from = id\<rparr>"

definition demo_gateway_state :: "(ForwardContext list \<times> unit, unit) GatewayState" where
  "demo_gateway_state = \<lparr>gw_limiter = Some \<lparr>rlf_config = RateLimitConfig_default, rlf_buckets = om_empty\<rparr>, gw_redis = (),
     gw_metrics = Some om_empty, gw_tracer = None, gw_upstream = ([], ())\<rparr>"

definition demo_gateway_world :: World where
  "demo_gateway_world = \<lparr>steady_ns = (\<lambda>n. 5000000000), steady_reads = 0, system_ns = (\<lambda>n. 2000000000000), system_reads = 0\<rparr>"

definition demo_admin_request :: HttpRequest where
  "demo_admin_request = demo_request ''/admin/runtime'' (IssueToken AuthConfig_default 1000 7 ''u'' ''admin'' ''r'')"

lemma demo_admin_check:
  "AuthFilter_Check demo_filter 2000 demo_admin_request =
     AuthResult_default\<lparr>ar_allowed := True, ar_user_id := 7, ar_username := ''u'', ar_role := ''admin'',
        ar_token := IssueToken AuthConfig_default 1000 7 ''u'' ''admin'' ''r''\<rparr>"
  using demo_check [of 7 "''admin''"]
  by (simp add: demo_admin_request_def in_int64_def INT64_MIN_def INT64_MAX_def claim_text_def claim_char_def)

lemma demo_gateway_forwards:
  "\<exists>ctx. fst (gw_upstream (snd (snd (Gateway_Handle demo_gateway demo_admin_request demo_gateway_world demo_gateway_state)))) = [ctx]"
proof -
  obtain rsp w' st' where h: "Gateway_Handle demo_gateway demo_admin_request demo_gateway_world demo_gateway_state = (rsp, w', st')"
    by (rule prod_cases3)
  have now: "svc_NowUnixSeconds (snd (steady_now demo_gateway_world)) = (2000, snd (system_now (snd (steady_now demo_gateway_world))))"
    by (simp add: svc_NowUnixSeconds_def system_now_def steady_now_def demo_gateway_world_def ns_to_s_def trunc_div_def)
  have path: "req_path demo_admin_request = ''/admin/runtime''" by (simp add: demo_admin_request_def demo_request_def)
  have match: "RouteRuleManager_Match (gh_routes demo_gateway) (req_path demo_admin_request) =
      Some \<lparr>rmr_route = demo_route, rmr_original_path = ''/admin/runtime'', rmr_upstream_path = BuildUpstreamPath (rc_path demo_route) ''/admin/runtime'' (rc_strip_prefix demo_route)\<rparr>"
    by (simp add: path demo_gateway_def demo_route_def IsPrefixMatch_def)
  let ?match = "\<lparr>rmr_route = demo_route, rmr_original_path = ''/admin/runtime'', rmr_upstream_path = BuildUpstreamPath (rc_path demo_route) ''/admin/runtime'' (rc_strip_prefix demo_route)\<rparr>"
  let ?a = "AuthFilter_Check demo_filter 2000 demo_admin_request"
  let ?w1 = "snd (steady_now demo_gateway_world)"
  have auth: "gateway_auth demo_gateway demo_admin_request (with_trace TraceSpan_default demo_admin_request) ?w1 =
      (Inr (with_identity ?a demo_admin_request), snd (system_now ?w1))"
    using now demo_admin_check
    by (simp add: gateway_auth_def demo_gateway_def with_trace_def TraceSpan_default_def AuthResult_default_def)
  obtain d w4 st2 where l: "gateway_limit demo_gateway (with_identity ?a demo_admin_request) ?match (snd (system_now ?w1)) demo_gateway_state = (d, w4, st2)"
    by (rule prod_cases3)
  have al: "rd_allowed d" and up: "gw_upstream st2 = ([], ())"
    using l by (auto simp: gateway_limit_def demo_gateway_state_def RateLimitFilter_Check_def RateLimitConfig_default_def
        RedisRateLimitConfig_default_def CheckLocal_def Bucket_default_def RateLimitDecision_default_def ResolveLimit_def Let_def
        split: prod.splits)
  obtain r w5 st3 where f: "gateway_forward demo_gateway demo_admin_request (with_identity ?a demo_admin_request) ?match TraceSpan_default d w4 st2 = (r, w5, st3)"
    by (rule prod_cases3)
  have "gateway_finish demo_gateway demo_admin_request TraceSpan_default (fst (steady_now demo_gateway_world)) r ''UserService'' w5 st3 = (rsp, w', st')"
    using h l al f auth match
    by (simp add: Gateway_Handle_def gateway_begin_def demo_gateway_state_def demo_route_def steady_now_def)
  then have u: "gw_upstream st' = gw_upstream st3" by (rule gateway_finish_spec [THEN conjunct1])
  obtain ctx where "fst (gw_upstream st3) = [ctx]"
    by (rule gateway_forward_spec [OF f]) (auto simp: demo_gateway_def logging_def up split: prod.splits)
  with u show ?thesis by (simp add: h)
qed


text \<open>
  C21: Every request gets an answer that carries its id, whatever the path it takes (no route,
  refused, limited or forwarded to any client that meets the upstream contract), and is
  counted exactly once in the metrics, under its path and the status it was answered with.
\<close>

theorem every_request_is_answered_and_counted:
  assumes "upstream_client (gh_upstream h)" "gw_metrics st = Some m" "Gateway_Handle h request w st = (rsp, w', st')"
  shows "header rsp ''X-Request-Id'' = Some (req_request_id request) \<and>
    (\<exists>up d. gw_metrics st' = Some (RecordRequest (req_path request) up (rsp_status rsp) d m))"
  by (intro conjI Handle_answers [OF assms(1,3)] assms(2))

theorem every_request_is_answered_and_counted_witness:
  "header (fst (Gateway_Handle (demo_gateway\<lparr>gh_upstream := logging MockUpstreamClient_Forward\<rparr>) demo_admin_request
     demo_gateway_world demo_gateway_state)) ''X-Request-Id'' = Some ''req-1''"
proof -
  let ?h = "demo_gateway\<lparr>gh_upstream := logging MockUpstreamClient_Forward\<rparr>"
  have "upstream_client (logging MockUpstreamClient_Forward)"
    by unfold_locales (auto simp: logging_def MockUpstreamClient_Forward_def)
  then have u: "upstream_client (gh_upstream ?h)" by simp
  obtain rsp w' st' where h: "Gateway_Handle ?h demo_admin_request demo_gateway_world demo_gateway_state = (rsp, w', st')"
    by (rule prod_cases3)
  have m: "gw_metrics demo_gateway_state = Some om_empty" by (simp add: demo_gateway_state_def)
  have "req_request_id demo_admin_request = ''req-1''" by (simp add: demo_admin_request_def demo_request_def)
  with every_request_is_answered_and_counted [OF u m h] show ?thesis using h by simp
qed

text \<open>A user without a bucket passes the local limiter; a path without authentication changes nothing.\<close>

lemma new_user_admitted:
  assumes "gw_limiter st = Some lf" "\<not> redis_enabled (rl_redis (rlf_config lf))"
    and "om_get (req_headers fwd) ''X-User-Id'' = Some u" "u \<noteq> []"
    and "om_get (rlf_buckets lf) (''user:'' @ u @ ''|route:'' @ rc_path (rmr_route match)) = None"
    and "gateway_limit h fwd match v st = (d, v', st2)"
  shows "rd_allowed d"
proof -
  have "BuildKey fwd match = ''user:'' @ u @ ''|route:'' @ rc_path (rmr_route match)"
    using assms(3,4) by (simp add: BuildKey_def HeaderValue_def Let_def)
  then show ?thesis
    using assms(1,2,5,6)
    by (auto simp: gateway_limit_def RateLimitFilter_Check_def CheckLocal_def Bucket_default_def
        RateLimitDecision_default_def Let_def split: prod.splits if_splits)
qed

lemma open_path_passes:
  assumes "\<forall>f. gh_auth h = Some f \<longrightarrow> \<not> auth_enabled (af_config f) \<or> req_path request \<in> set (auth_public_paths (af_config f))"
    and "gateway_auth h request fwd v = (res, v')"
  shows "res = Inr fwd"
  using assms by (auto simp: gateway_auth_def AuthFilter_Check_def IsPublicPath_def list_ex_iff AuthResult_default_def
      with_identity_def Let_def split: option.splits prod.splits)

text \<open>
  C40: On paths that need no authentication the client chooses its own rate limit bucket: a
  request with an \<^verbatim>\<open>X-User-Id\<close> header that has no bucket yet passes the local
  limiter, however many requests the same client has made, and is forwarded with that header
  as the user's identity.
\<close>

theorem client_user_id_evades_limit:
  assumes "RouteRuleManager_Match (gh_routes h) (req_path request) = Some match"
    and "\<forall>f. gh_auth h = Some f \<longrightarrow> \<not> auth_enabled (af_config f) \<or> req_path request \<in> set (auth_public_paths (af_config f))"
    and "gw_limiter st = Some lf" "\<not> redis_enabled (rl_redis (rlf_config lf))"
    and "om_get (req_headers request) ''X-User-Id'' = Some u" "u \<noteq> []"
    and "om_get (rlf_buckets lf) (''user:'' @ u @ ''|route:'' @ rc_path (rmr_route match)) = None"
    and "gh_upstream h = logging up" "gw_upstream st = ([], s)" "Gateway_Handle h request w st = (rsp, w', st')"
  shows "\<exists>ctx. fst (gw_upstream st') = [ctx] \<and> om_get (fc_headers ctx) ''X-User-Id'' = Some u"
proof -
  have uid: "om_get (req_headers (with_trace sp request)) ''X-User-Id'' = Some u" for sp
    using assms(5) with_trace_other [of "''X-User-Id''"] by (simp add: trace_keys_def)
  have lim: "rd_allowed d" if "gateway_limit h (with_trace sp request) match v st1 = (d, v', st2)" "traced st st1" for sp v st1 d v' st2
    by (rule new_user_admitted [OF _ assms(4) uid assms(6,7) that(1)]) (use assms(3) that(2) in \<open>simp add: traced_def\<close>)
  have hd: "''X-User-Id'' \<in> set forwarded_headers \<and> ''X-User-Id'' \<notin> trace_keys \<and> ''X-User-Id'' \<noteq> ''X-Request-Id''"
    by (simp add: forwarded_headers_def trace_keys_def)
  from assms(10) show ?thesis
  proof (cases rule: Handle_cases)
    case (forwarded sp started w2 st1 match' fwd w3 d w4 st2 r w5 st3)
    note fw = forwarded
    have fwd: "fwd = with_trace sp request" using open_path_passes [OF assms(2) fw(3)] by simp
    have u2: "gw_upstream st2 = ([], s)"
      using gateway_limit_spec(1) [OF fw(4)] assms(9) gateway_begin_frame(1) [OF fw(1)] by (simp add: traced_def)
    have u3: "gw_upstream st' = gw_upstream st3" using gateway_finish_spec [OF fw(7)] by simp
    show ?thesis
    proof (rule gateway_forward_spec [OF fw(6)])
      fix ctx w1 r' ctx' w2' s'
      assume c: "gh_upstream h ctx w1 (gw_upstream st2) = (r', ctx', w2', s')" "gw_upstream st3 = s'"
        and hs: "\<And>k. k \<notin> trace_keys \<Longrightarrow> k \<noteq> ''X-Request-Id'' \<Longrightarrow>
           om_get (fc_headers ctx) k = (if k \<in> set forwarded_headers then om_get (req_headers fwd) k else None)"
      have "fst (gw_upstream st') = [ctx]" using c u2 u3 assms(8) by (cases "gw_upstream st3") (auto simp: logging_def split: prod.splits)
      moreover have "om_get (fc_headers ctx) ''X-User-Id'' = Some u" using hs [of "''X-User-Id''"] hd uid fwd by simp
      ultimately show ?thesis by blast
    qed
  next
    case (no_route sp started w2 st1)
    then show ?thesis using assms(1) by simp
  next
    case (forbidden sp started w2 st1 match' refusal w3)
    then show ?thesis using open_path_passes [OF assms(2) forbidden(3)] by simp
  next
    case (limited sp started w2 st1 match' fwd w3 d w4 st2)
    then have "fwd = with_trace sp request" "match' = match" using open_path_passes [OF assms(2) limited(3)] assms(1) by simp_all
    then show ?thesis using lim gateway_begin_frame(1) [OF limited(1)] limited(4,5) by blast
  qed
qed

theorem client_user_id_evades_limit_witness:
  "\<exists>ctx. fst (gw_upstream (snd (snd (Gateway_Handle (demo_gateway\<lparr>gh_auth := None\<rparr>)
      (demo_admin_request\<lparr>req_headers := [(''X-User-Id'', ''1'')]\<rparr>) demo_gateway_world demo_gateway_state)))) = [ctx] \<and>
     om_get (fc_headers ctx) ''X-User-Id'' = Some ''1''"
proof -
  let ?h = "demo_gateway\<lparr>gh_auth := None\<rparr>" and ?r = "demo_admin_request\<lparr>req_headers := [(''X-User-Id'', ''1'')]\<rparr>"
  let ?m = "\<lparr>rmr_route = demo_route, rmr_original_path = ''/admin/runtime'', rmr_upstream_path = BuildUpstreamPath (rc_path demo_route) ''/admin/runtime'' (rc_strip_prefix demo_route)\<rparr>"
  have f: "RouteRuleManager_Match (gh_routes ?h) (req_path ?r) = Some ?m"
    by (simp add: demo_gateway_def demo_route_def IsPrefixMatch_def demo_admin_request_def demo_request_def)
  obtain rsp w' st' where h: "Gateway_Handle ?h ?r demo_gateway_world demo_gateway_state = (rsp, w', st')"
    by (rule prod_cases3)
  have "gw_limiter demo_gateway_state = Some \<lparr>rlf_config = RateLimitConfig_default\<lparr>rl_enabled := True\<rparr>, rlf_buckets = om_empty\<rparr>"
    "gh_upstream ?h = logging MockUpstreamClient_Forward" "gw_upstream demo_gateway_state = ([], ())" "gh_auth ?h = None"
    "\<not> redis_enabled (rl_redis RateLimitConfig_default)"
    by (simp_all add: demo_gateway_def demo_gateway_state_def RateLimitConfig_default_def RedisRateLimitConfig_default_def)
  with client_user_id_evades_limit [OF f _ _ _ _ _ _ _ _ h, of _ "''1''" MockUpstreamClient_Forward "()"]
  have "\<exists>ctx. fst (gw_upstream st') = [ctx] \<and> om_get (fc_headers ctx) ''X-User-Id'' = Some ''1''" by simp
  then show ?thesis using h by simp
qed

end
