(* ===== verification/HttpServer.thy ===== *)
theory HttpServer
  imports Gateway Config
begin

text \<open>
  The asynchronous HTTP server of \<^verbatim>\<open>src/gateway/http_server.cc\<close>: the conversion of
  requests, the ids it generates, the life of one connection as a state machine whose steps
  are the completion handlers of the session, and the server that accepts connections. A
  handler is one step: the server runs handlers of one session on several threads without a
  strand, and races between two of them are outside the model. Boost.Beast's messages are an
  argument, its parser and its socket decide which completion arrives; logging is left out.
\<close>

section \<open>Requests\<close>

text \<open>What the server uses of a message of Boost.Beast.\<close>

record 'q beast =
  bs_method_string :: "'q \<Rightarrow> string"
  bs_target :: "'q \<Rightarrow> string"
  bs_body :: "'q \<Rightarrow> string"
  bs_fields :: "'q \<Rightarrow> (string \<times> string) list"
  bs_find :: "'q \<Rightarrow> string \<Rightarrow> string option"
  bs_version :: "'q \<Rightarrow> nat"
  bs_keep_alive :: "'q \<Rightarrow> bool"
  bs_empty :: 'q

definition ParseTarget :: "string \<Rightarrow> string \<times> string" where
  "ParseTarget target =
     (case char_find (CHR ''?'') target of
        None \<Rightarrow> (target, [])
      | Some pos \<Rightarrow> (take pos target, drop (pos + 1) target))"

definition ConvertBeastRequest :: "'q beast \<Rightarrow> 'q \<Rightarrow> string \<Rightarrow> string \<Rightarrow> HttpRequest" where
  "ConvertBeastRequest B q client_ip request_id =
     (case ParseTarget (bs_target B q) of (path, query) \<Rightarrow>
        \<lparr>req_method = bs_method_string B q, req_path = path, req_query = query, req_body = bs_body B q,
         req_headers = fold (\<lambda>(name, v) hs. om_put name v hs) (bs_fields B q) om_empty,
         req_client_ip = client_ip, req_request_id = request_id\<rparr>)"

definition ns_to_us :: "int \<Rightarrow> int" where
  "ns_to_us n = trunc_div n 1000"

definition GenerateRequestId :: "World \<Rightarrow> 64 word \<Rightarrow> string \<times> World \<times> 64 word" where
  "GenerateRequestId w seq =
     (case steady_now w of (now, w') \<Rightarrow>
        (''tgw-'' @ show_int (ns_to_us now) @ ''-'' @ show_nat (unat seq), w', seq + 1))"

section \<open>The session\<close>

text \<open>
  A timer: whether a wait is pending, and how many expired waits have a handler queued that
  has not run. Cancelling or rearming stops the pending wait, not a queued handler.
\<close>

record Timer =
  tm_waiting :: bool
  tm_queued :: nat

definition timer_cancel :: "Timer \<Rightarrow> Timer" where
  "timer_cancel t = t\<lparr>tm_waiting := False\<rparr>"

definition timer_start :: "Timer \<Rightarrow> Timer" where
  "timer_start t = (timer_cancel t)\<lparr>tm_waiting := True\<rparr>"

text \<open>A response: the calls of \<^verbatim>\<open>set\<close> on it in order, and its keep-alive flag.\<close>

record BeastResponse =
  br_status :: int
  br_version :: nat
  br_fields :: "(string \<times> string) list"
  br_keep_alive :: bool
  br_body :: string

text \<open>
  What the session waits for: the read, the worker pool, the executor with the response to
  write, or the write, with the flag whether the socket was open when it was started.
\<close>

datatype pending = Ended | Reading | Queued | Answering HttpResponse | Writing bool

record 'q Session =
  ss_open :: bool
  ss_pending :: pending
  ss_read_timer :: Timer
  ss_write_timer :: Timer
  ss_parser :: "nat option"
  ss_request :: 'q
  ss_response :: "BeastResponse option"
  ss_request_id :: string

definition Session_new :: "'q beast \<Rightarrow> 'q Session" where
  "Session_new B =
     \<lparr>ss_open = True, ss_pending = Ended, ss_read_timer = \<lparr>tm_waiting = False, tm_queued = 0\<rparr>,
      ss_write_timer = \<lparr>tm_waiting = False, tm_queued = 0\<rparr>, ss_parser = None, ss_request = bs_empty B,
      ss_response = None, ss_request_id = []\<rparr>"

definition ReadRequest :: "ServerConfig \<Rightarrow> 'q Session \<Rightarrow> 'q Session" where
  "ReadRequest cfg s =
     s\<lparr>ss_parser := Some (srv_body_limit_bytes cfg), ss_read_timer := timer_start (ss_read_timer s),
       ss_pending := Reading\<rparr>"

definition Close :: "'q Session \<Rightarrow> 'q Session" where
  "Close s =
     s\<lparr>ss_read_timer := timer_cancel (ss_read_timer s), ss_write_timer := timer_cancel (ss_write_timer s),
       ss_open := False\<rparr>"

text \<open>The completion of the read; \<open>None\<close> is the use of a null parser.\<close>

definition on_read :: "'q \<Rightarrow> 'q Session \<Rightarrow> 'q Session option" where
  "on_read q s =
     (case ss_parser s of
        None \<Rightarrow> None
      | Some limit \<Rightarrow>
          Some (s\<lparr>ss_read_timer := timer_cancel (ss_read_timer s), ss_request := q, ss_parser := None,
                  ss_pending := Queued\<rparr>))"

definition on_read_failed :: "'q Session \<Rightarrow> 'q Session" where
  "on_read_failed s = Close (s\<lparr>ss_read_timer := timer_cancel (ss_read_timer s), ss_pending := Ended\<rparr>)"

text \<open>The task in the worker pool: it answers the request with the router.\<close>

definition DispatchRequest ::
  "'q beast \<Rightarrow> 's Router \<Rightarrow> string option \<Rightarrow> 'q Session \<Rightarrow> World \<times> 's \<times> 64 word \<Rightarrow>
   'q Session \<times> World \<times> 's \<times> 64 word" where
  "DispatchRequest B router remote s g =
     (case g of (w, st, seq) \<Rightarrow>
      case GenerateRequestId w seq of (generated, w1, seq') \<Rightarrow>
      let request_id = (case bs_find B (ss_request s) ''X-Request-Id'' of None \<Rightarrow> generated | Some v \<Rightarrow> v);
          client_ip = (case remote of None \<Rightarrow> ''unknown'' | Some address \<Rightarrow> address)
      in case Dispatch router (ConvertBeastRequest B (ss_request s) client_ip request_id) w1 st of
           (rsp, w2, st') \<Rightarrow> (s\<lparr>ss_request_id := request_id, ss_pending := Answering rsp\<rparr>, w2, st', seq'))"

definition WriteResponse :: "'q beast \<Rightarrow> ServerConfig \<Rightarrow> HttpResponse \<Rightarrow> 'q Session \<Rightarrow> 'q Session" where
  "WriteResponse B cfg rsp s =
     s\<lparr>ss_response := Some
         \<lparr>br_status = rsp_status rsp, br_version = bs_version B (ss_request s),
          br_fields = [(''Server'', ''tgw-gateway''), (''Content-Type'', rsp_content_type rsp),
                       (''X-Request-Id'', ss_request_id s)] @ rsp_headers rsp,
          br_keep_alive = (srv_keep_alive cfg \<and> bs_keep_alive B (ss_request s)),
          br_body = rsp_body rsp\<rparr>,
       ss_write_timer := timer_start (ss_write_timer s),
       ss_pending := Writing (ss_open s)\<rparr>"

text \<open>The completion of the write; \<open>None\<close> is the use of a null response.\<close>

definition on_written :: "'q beast \<Rightarrow> ServerConfig \<Rightarrow> 'q Session \<Rightarrow> 'q Session option" where
  "on_written B cfg s =
     (case ss_response s of
        None \<Rightarrow> None
      | Some r \<Rightarrow>
          let s1 = s\<lparr>ss_write_timer := timer_cancel (ss_write_timer s), ss_response := None,
                     ss_request := bs_empty B, ss_request_id := [], ss_pending := Ended\<rparr>
          in Some (if br_keep_alive r then ReadRequest cfg s1 else Close s1))"

definition on_write_failed :: "'q Session \<Rightarrow> 'q Session" where
  "on_write_failed s = Close (s\<lparr>ss_write_timer := timer_cancel (ss_write_timer s), ss_pending := Ended\<rparr>)"

definition timer_expires :: "Timer \<Rightarrow> Timer" where
  "timer_expires t = \<lparr>tm_waiting = False, tm_queued = tm_queued t + 1\<rparr>"

definition timer_handled :: "Timer \<Rightarrow> Timer" where
  "timer_handled t = t\<lparr>tm_queued := tm_queued t - 1\<rparr>"

definition on_read_timeout :: "'q Session \<Rightarrow> 'q Session" where
  "on_read_timeout s = Close (s\<lparr>ss_read_timer := timer_handled (ss_read_timer s)\<rparr>)"

definition on_write_timeout :: "'q Session \<Rightarrow> 'q Session" where
  "on_write_timeout s = Close (s\<lparr>ss_write_timer := timer_handled (ss_write_timer s)\<rparr>)"

text \<open>
  The steps of a session, named by what happened. A read may succeed on a closed socket, from
  the bytes that are buffered; a write that is started on a closed socket fails.
\<close>

datatype 'q happened =
    ReadDone 'q | ReadFailed | Worked "string option" | Answered | Written | WriteFailed
  | ReadExpires | WriteExpires | ReadTimeout | WriteTimeout

inductive session_step ::
  "'q beast \<Rightarrow> ServerConfig \<Rightarrow> 's Router \<Rightarrow> 'q Session \<times> World \<times> 's \<times> 64 word \<Rightarrow> 'q happened \<Rightarrow>
   'q Session \<times> World \<times> 's \<times> 64 word \<Rightarrow> bool" for B cfg router where
  read_done: "ss_pending s = Reading \<Longrightarrow> on_read q s = Some s' \<Longrightarrow> session_step B cfg router (s, g) (ReadDone q) (s', g)"
| read_failed: "ss_pending s = Reading \<Longrightarrow> session_step B cfg router (s, g) ReadFailed (on_read_failed s, g)"
| worked: "ss_pending s = Queued \<Longrightarrow> DispatchRequest B router remote s g = c \<Longrightarrow>
    session_step B cfg router (s, g) (Worked remote) c"
| answered: "ss_pending s = Answering rsp \<Longrightarrow> session_step B cfg router (s, g) Answered (WriteResponse B cfg rsp s, g)"
| written: "ss_pending s = Writing True \<Longrightarrow> on_written B cfg s = Some s' \<Longrightarrow> session_step B cfg router (s, g) Written (s', g)"
| write_failed: "ss_pending s = Writing started_open \<Longrightarrow> session_step B cfg router (s, g) WriteFailed (on_write_failed s, g)"
| read_expires: "tm_waiting (ss_read_timer s) \<Longrightarrow>
    session_step B cfg router (s, g) ReadExpires (s\<lparr>ss_read_timer := timer_expires (ss_read_timer s)\<rparr>, g)"
| write_expires: "tm_waiting (ss_write_timer s) \<Longrightarrow>
    session_step B cfg router (s, g) WriteExpires (s\<lparr>ss_write_timer := timer_expires (ss_write_timer s)\<rparr>, g)"
| read_timeout: "tm_queued (ss_read_timer s) > 0 \<Longrightarrow> session_step B cfg router (s, g) ReadTimeout (on_read_timeout s, g)"
| write_timeout: "tm_queued (ss_write_timer s) > 0 \<Longrightarrow> session_step B cfg router (s, g) WriteTimeout (on_write_timeout s, g)"

text \<open>The session's own steps, whatever the rest of the server is at each of them.\<close>

definition session_moves :: "'q beast \<Rightarrow> ServerConfig \<Rightarrow> 's Router \<Rightarrow> 'q Session \<Rightarrow> 'q happened \<Rightarrow> 'q Session \<Rightarrow> bool" where
  "session_moves B cfg router s e s' \<longleftrightarrow> (\<exists>g g'. session_step B cfg router (s, g) e (s', g'))"

definition Session_Start :: "'q beast \<Rightarrow> ServerConfig \<Rightarrow> 'q Session" where
  "Session_Start B cfg = ReadRequest cfg (Session_new B)"

section \<open>The server\<close>

record ('q, 's) HttpServer =
  hs_server_config :: ServerConfig
  hs_io_threads :: int
  hs_worker_threads :: int
  hs_shared :: "World \<times> 's \<times> 64 word"
  hs_acceptor_open :: bool
  hs_accepting :: bool
  hs_stopped :: bool
  hs_sessions :: "'q Session list"

definition HttpServer_new :: "ServerConfig \<Rightarrow> RuntimeConfig \<Rightarrow> World \<Rightarrow> 's \<Rightarrow> ('q, 's) HttpServer" where
  "HttpServer_new cfg rt w st =
     \<lparr>hs_server_config = cfg, hs_io_threads = max (rt_io_threads rt) 1, hs_worker_threads = max (rt_worker_threads rt) 1,
      hs_shared = (w, st, 0), hs_acceptor_open = False, hs_accepting = False, hs_stopped = False, hs_sessions = []\<rparr>"

text \<open>Opening, binding and listening is the argument; an error of it ends the start.\<close>

definition DoAccept :: "('q, 's) HttpServer \<Rightarrow> ('q, 's) HttpServer" where
  "DoAccept srv = srv\<lparr>hs_accepting := True\<rparr>"

definition HttpServer_Start ::
  "(string \<Rightarrow> nat \<Rightarrow> unit result) \<Rightarrow> ('q, 's) HttpServer \<Rightarrow> ('q, 's) HttpServer result" where
  "HttpServer_Start listen srv =
     (case listen (srv_host (hs_server_config srv)) (srv_port (hs_server_config srv)) of
        Inl e \<Rightarrow> Inl e
      | Inr _ \<Rightarrow> Inr (DoAccept (srv\<lparr>hs_acceptor_open := True\<rparr>)))"

text \<open>The handler of an accept: a new session unless it failed, and the next accept.\<close>

definition on_accept :: "'q beast \<Rightarrow> bool \<Rightarrow> ('q, 's) HttpServer \<Rightarrow> ('q, 's) HttpServer" where
  "on_accept B failed srv =
     (let srv1 = srv\<lparr>hs_accepting := False\<rparr>;
          srv2 = (if failed then srv1
                  else srv1\<lparr>hs_sessions := hs_sessions srv1 @ [Session_Start B (hs_server_config srv1)]\<rparr>)
      in if hs_acceptor_open srv2 then DoAccept srv2 else srv2)"

definition on_signal :: "('q, 's) HttpServer \<Rightarrow> ('q, 's) HttpServer" where
  "on_signal srv = srv\<lparr>hs_acceptor_open := False, hs_stopped := True\<rparr>"

text \<open>Once the I/O context is stopped only tasks of the worker pool still run.\<close>

inductive server_step :: "'q beast \<Rightarrow> 's Router \<Rightarrow> ('q, 's) HttpServer \<Rightarrow> ('q, 's) HttpServer \<Rightarrow> bool" for B router where
  accept: "\<not> hs_stopped srv \<Longrightarrow> hs_accepting srv \<Longrightarrow> server_step B router srv (on_accept B failed srv)"
| signal: "\<not> hs_stopped srv \<Longrightarrow> server_step B router srv (on_signal srv)"
| time: "hs_shared srv = (w, st, seq) \<Longrightarrow> later w w' \<Longrightarrow> server_step B router srv (srv\<lparr>hs_shared := (w', st, seq)\<rparr>)"
| session: "i < length (hs_sessions srv) \<Longrightarrow>
    session_step B (hs_server_config srv) router (hs_sessions srv ! i, hs_shared srv) e (s', g') \<Longrightarrow>
    (hs_stopped srv \<longrightarrow> (\<exists>remote. e = Worked remote)) \<Longrightarrow>
    server_step B router srv (srv\<lparr>hs_sessions := (hs_sessions srv)[i := s'], hs_shared := g'\<rparr>)"


section \<open>Runs\<close>

text \<open>The runs of a transition relation, with what happened in them.\<close>

inductive runs :: "('a \<Rightarrow> 'e \<Rightarrow> 'a \<Rightarrow> bool) \<Rightarrow> 'a \<Rightarrow> 'e list \<Rightarrow> 'a \<Rightarrow> bool" for step where
  rest: "runs step a [] a"
| move: "step a e b \<Longrightarrow> runs step b es c \<Longrightarrow> runs step a (e # es) c"

inductive_cases runs_ConsE: "runs step a (e # es) c"
inductive_simps runs_Nil [simp]: "runs step a [] c"

lemma runs_keep:
  assumes "runs step a es b" "P a" "\<And>x e y. step x e y \<Longrightarrow> P x \<Longrightarrow> P y"
  shows "P b"
  using assms(1,2) by induction (blast intro: assms(3))+

text \<open>
  Steps that stay within a region and use up a measure there. Every run within the region is
  as long as the measure allows at most.
\<close>

locale progress =
  fixes step :: "'a \<Rightarrow> 'e \<Rightarrow> 'a \<Rightarrow> bool" and region :: "'a \<Rightarrow> bool" and budget :: "'a \<Rightarrow> nat"
  assumes stays: "region a \<Longrightarrow> step a e b \<Longrightarrow> region b"
    and uses: "region a \<Longrightarrow> step a e b \<Longrightarrow> budget b < budget a"
begin

lemma run_bounded: "runs step a es b \<Longrightarrow> region a \<Longrightarrow> region b \<and> length es + budget b \<le> budget a"
proof (induction rule: runs.induct)
  case (move a e b es c)
  then show ?case using stays [OF move.prems move.hyps(1)] uses [OF move.prems move.hyps(1)] by simp
qed simp

end

lemma runs_without: "runs step a es b \<Longrightarrow> e \<notin> set es \<Longrightarrow> runs (\<lambda>x e' y. step x e' y \<and> e' \<noteq> e) a es b"
  by (induction rule: runs.induct) (auto intro: runs.intros)

text \<open>What the timers of a session can still do.\<close>

definition timer_budget :: "Timer \<Rightarrow> nat" where
  "timer_budget t = (if tm_waiting t then 2 else 0) + tm_queued t"

definition session_timers :: "'q Session \<Rightarrow> nat" where
  "session_timers s = timer_budget (ss_read_timer s) + timer_budget (ss_write_timer s)"

fun pending_rank :: "pending \<Rightarrow> nat" where
  "pending_rank Ended = 0"
| "pending_rank (Writing False) = 1"
| "pending_rank (Answering rsp) = 2"
| "pending_rank Queued = 3"
| "pending_rank Reading = 4"
| "pending_rank (Writing True) = 5"

lemma pending_rank_Writing [simp]: "pending_rank (Writing b) = (if b then 5 else 1)"
  by (cases b) simp_all

definition closed_budget :: "'q Session \<Rightarrow> nat" where
  "closed_budget s = 3 * pending_rank (ss_pending s) + session_timers s"

lemma timer_budget_simps:
  "timer_budget (timer_cancel t) \<le> timer_budget t" "timer_budget (timer_start t) \<le> timer_budget t + 2"
  "tm_waiting t \<Longrightarrow> timer_budget (timer_expires t) < timer_budget t"
  "tm_queued t > 0 \<Longrightarrow> timer_budget (timer_cancel (timer_handled t)) < timer_budget t"
  by (simp_all add: timer_budget_def timer_cancel_def timer_start_def timer_expires_def timer_handled_def)

lemmas session_defs = ReadRequest_def Close_def on_read_def on_read_failed_def DispatchRequest_def WriteResponse_def
  on_written_def on_write_failed_def on_read_timeout_def on_write_timeout_def Let_def

lemmas timer_defs = timer_budget_def timer_cancel_def timer_start_def timer_expires_def timer_handled_def

inductive_cases SessionStepE: "session_step B cfg router (s, g) e (s', g')"

lemma session_moves_cases [consumes 1, case_names
    read_done read_failed worked answered written write_failed read_expires write_expires read_timeout write_timeout]:
  assumes "session_moves B cfg router s e s'"
  obtains q where "e = ReadDone q" "ss_pending s = Reading" "on_read q s = Some s'"
  | "e = ReadFailed" "ss_pending s = Reading" "s' = on_read_failed s"
  | remote id rsp where "e = Worked remote" "ss_pending s = Queued" "s' = s\<lparr>ss_request_id := id, ss_pending := Answering rsp\<rparr>"
  | rsp where "e = Answered" "ss_pending s = Answering rsp" "s' = WriteResponse B cfg rsp s"
  | "e = Written" "ss_pending s = Writing True" "on_written B cfg s = Some s'"
  | b where "e = WriteFailed" "ss_pending s = Writing b" "s' = on_write_failed s"
  | "e = ReadExpires" "tm_waiting (ss_read_timer s)" "s' = s\<lparr>ss_read_timer := timer_expires (ss_read_timer s)\<rparr>"
  | "e = WriteExpires" "tm_waiting (ss_write_timer s)" "s' = s\<lparr>ss_write_timer := timer_expires (ss_write_timer s)\<rparr>"
  | "e = ReadTimeout" "tm_queued (ss_read_timer s) > 0" "s' = on_read_timeout s"
  | "e = WriteTimeout" "tm_queued (ss_write_timer s) > 0" "s' = on_write_timeout s"
proof -
  obtain g g' where "session_step B cfg router (s, g) e (s', g')" using assms by (auto simp: session_moves_def)
  then show thesis
    by (cases rule: SessionStepE)
      (use that in \<open>auto simp: DispatchRequest_def Let_def split: prod.splits\<close>)
qed

lemma closed_step:
  assumes "session_moves B cfg router s e s'" "\<not> ss_open s"
  shows "\<not> ss_open s' \<and> closed_budget s' < closed_budget s"
  using assms
  by (cases rule: session_moves_cases)
    (auto simp: session_defs closed_budget_def session_timers_def timer_defs split: option.splits if_splits)

interpretation closing: progress "session_moves B cfg router" "\<lambda>s. \<not> ss_open s" closed_budget
  by unfold_locales (use closed_step in blast)+

text \<open>From the reading of a request to the start of its response.\<close>

definition unanswered :: "'q Session \<Rightarrow> bool" where
  "unanswered s \<longleftrightarrow> ss_pending s = Queued \<or> (\<exists>rsp. ss_pending s = Answering rsp)"

definition answer_budget :: "'q Session \<Rightarrow> nat" where
  "answer_budget s = pending_rank (ss_pending s) + session_timers s"

lemma unanswered_step:
  assumes "session_moves B cfg router s e s' \<and> e \<noteq> Answered" "unanswered s"
  shows "unanswered s' \<and> answer_budget s' < answer_budget s"
proof -
  have "session_moves B cfg router s e s'" "e \<noteq> Answered" using assms(1) by simp_all
  then show ?thesis
    using assms(2)
    by (cases rule: session_moves_cases)
      (auto simp: session_defs unanswered_def answer_budget_def session_timers_def timer_defs split: option.splits if_splits)
qed

interpretation answering: progress "\<lambda>s e s'. session_moves B cfg router s e s' \<and> e \<noteq> Answered" unanswered answer_budget
  by unfold_locales (use unanswered_step in blast)+

section \<open>The invariant of a session\<close>

definition session_inv :: "'q Session \<Rightarrow> bool" where
  "session_inv s \<longleftrightarrow>
     (ss_pending s = Ended \<longrightarrow> \<not> ss_open s) \<and>
     (ss_pending s = Reading \<longrightarrow> ss_parser s \<noteq> None) \<and>
     (\<forall>b. ss_pending s = Writing b \<longrightarrow> ss_response s \<noteq> None) \<and>
     (ss_open s \<longrightarrow> ss_pending s \<noteq> Writing False) \<and>
     (tm_waiting (ss_read_timer s) \<longrightarrow> ss_pending s = Reading) \<and>
     (tm_waiting (ss_write_timer s) \<longrightarrow> (\<exists>b. ss_pending s = Writing b))"

lemma session_inv_start: "session_inv (Session_Start B cfg)"
  by (simp add: session_inv_def Session_Start_def Session_new_def ReadRequest_def timer_start_def)

lemma session_inv_step:
  assumes "session_moves B cfg router s e s'" "session_inv s"
  shows "session_inv s'"
  using assms
  by (cases rule: session_moves_cases)
    (auto simp: session_defs session_inv_def timer_defs split: option.splits if_splits)

lemma session_inv_runs: "runs (session_moves B cfg router) s es s' \<Longrightarrow> session_inv s \<Longrightarrow> session_inv s'"
  by (erule runs_keep) (auto intro: session_inv_step)

section \<open>Request ids\<close>

lemma GenerateRequestId_inj:
  assumes "fst (GenerateRequestId v a) = fst (GenerateRequestId w b)"
  shows "a = b"
proof -
  have number: "takeWhile (\<lambda>c. c \<noteq> CHR ''-'') (rev (xs @ ''-'' @ show_nat n)) = rev (show_nat n)" for xs n
  proof -
    have "\<forall>c \<in> set (rev (show_nat n)). c \<noteq> CHR ''-''" using show_nat_digits [of n] by (auto simp: isdigit_def)
    then have "takeWhile (\<lambda>c. c \<noteq> CHR ''-'') (rev (show_nat n) @ CHR ''-'' # rev xs) = rev (show_nat n)"
      by (subst takeWhile_append2) auto
    then show ?thesis by simp
  qed
  obtain x y where "(''tgw-'' @ x) @ ''-'' @ show_nat (unat a) = (''tgw-'' @ y) @ ''-'' @ show_nat (unat b)"
    using assms by (auto simp: GenerateRequestId_def split: prod.splits)
  then have "show_nat (unat a) = show_nat (unat b)" using number by (metis rev_rev_ident)
  then show ?thesis by (simp add: show_nat_inj word_unat_eq_iff)
qed

text \<open>The ids that calls at the given moments return, one after the other.\<close>

fun request_ids :: "World list \<Rightarrow> 64 word \<Rightarrow> string list" where
  "request_ids [] seq = []"
| "request_ids (w # ws) seq = (case GenerateRequestId w seq of (i, w', seq') \<Rightarrow> i # request_ids ws seq')"

lemma length_request_ids [simp]: "length (request_ids ws seq) = length ws"
  by (induction ws arbitrary: seq) (auto split: prod.splits)

lemma request_ids_nth:
  "i < length ws \<Longrightarrow> request_ids ws seq ! i = fst (GenerateRequestId (ws ! i) (seq + word_of_nat i))"
proof (induction ws arbitrary: i seq)
  case (Cons w ws)
  have "snd (snd (GenerateRequestId w seq)) = seq + 1" by (simp add: GenerateRequestId_def split: prod.split)
  then obtain r v where g: "GenerateRequestId w seq = (r, v, seq + 1)" by (cases "GenerateRequestId w seq") auto
  show ?case
  proof (cases i)
    case (Suc k)
    then show ?thesis using Cons.IH [of k "seq + 1"] Cons.prems by (simp add: g add.assoc)
  qed (simp add: g)
qed simp

lemma request_ids_distinct: "length ws \<le> 2 ^ 64 \<Longrightarrow> distinct (request_ids ws seq)"
proof (rule distinct_conv_nth [THEN iffD2], intro allI impI)
  fix i j
  assume l: "length ws \<le> 2 ^ 64" and ij: "i < length (request_ids ws seq)" "j < length (request_ids ws seq)" "i \<noteq> j"
  show "request_ids ws seq ! i \<noteq> request_ids ws seq ! j"
  proof
    assume "request_ids ws seq ! i = request_ids ws seq ! j"
    then have "(word_of_nat i :: 64 word) = word_of_nat j"
      using GenerateRequestId_inj [of _ "seq + word_of_nat i" _ "seq + word_of_nat j"] ij by (simp add: request_ids_nth)
    moreover have "unat (word_of_nat i :: 64 word) = i" "unat (word_of_nat j :: 64 word) = j"
      using l ij(1,2) by (simp_all add: unat_of_nat)
    ultimately show False using ij(3) by metis
  qed
qed

section \<open>The requests and responses of a run\<close>

fun is_read :: "'q happened \<Rightarrow> bool" where
  "is_read (ReadDone q) = True"
| "is_read e = False"

lemma answers_match_reads:
  assumes "runs (session_moves B cfg router) s es s'"
  shows "of_bool (unanswered s) + length (filter is_read es) =
    length (filter (\<lambda>e. e = Answered) es) + of_bool (unanswered s')"
  using assms
proof (induction rule: runs.induct)
  case (move a e b es c)
  from move.hyps(1) have "of_bool (unanswered a) + (if is_read e then 1 else 0) =
      (if e = Answered then 1 else 0) + (of_bool (unanswered b) :: nat)"
    by (cases rule: session_moves_cases) (auto simp: session_defs unanswered_def split: option.splits if_splits)
  moreover have "length (filter is_read (e # es)) = (if is_read e then 1 else 0) + length (filter is_read es)"
    "length (filter (\<lambda>e. e = Answered) (e # es)) =
      (if e = Answered then 1 else 0) + length (filter (\<lambda>e. e = Answered) es)" by simp_all
  ultimately show ?case using move.IH by linarith
qed simp

lemma working_enabled:
  assumes "unanswered s"
  shows "\<exists>e s'. (e = Answered \<or> (\<exists>remote. e = Worked remote)) \<and> session_moves B cfg router s e s'"
proof (cases "ss_pending s = Queued")
  case True
  obtain s' g' where "DispatchRequest B router None s undefined = (s', g')" by (cases "DispatchRequest B router None s undefined")
  then have "session_moves B cfg router s (Worked None) s'"
    unfolding session_moves_def by (blast intro: session_step.worked [OF True])
  then show ?thesis by blast
next
  case False
  then obtain rsp where "ss_pending s = Answering rsp" using assms by (auto simp: unanswered_def)
  then show ?thesis unfolding session_moves_def by (blast intro: session_step.answered)
qed

section \<open>What is written\<close>

text \<open>The id of a request: the client's, or one that the server generated.\<close>

definition request_id_for :: "'q beast \<Rightarrow> 'q \<Rightarrow> string \<Rightarrow> bool" where
  "request_id_for B q request_id \<longleftrightarrow>
     (case bs_find B q ''X-Request-Id'' of
        Some v \<Rightarrow> request_id = v
      | None \<Rightarrow> \<exists>w seq. request_id = fst (GenerateRequestId w seq))"

text \<open>A response that names the request it answers, and no other.\<close>

definition identified :: "'q beast \<Rightarrow> 'q \<Rightarrow> BeastResponse \<Rightarrow> bool" where
  "identified B q r \<longleftrightarrow>
     (\<exists>request_id content_type hs. request_id_for B q request_id \<and>
        br_fields r = [(''Server'', ''tgw-gateway''), (''Content-Type'', content_type), (''X-Request-Id'', request_id)] @ hs \<and>
        om_get hs ''X-Request-Id'' \<in> {None, Some request_id})"

definition written_inv :: "'q beast \<Rightarrow> 'q Session \<Rightarrow> bool" where
  "written_inv B s \<longleftrightarrow>
     (\<forall>rsp. ss_pending s = Answering rsp \<longrightarrow>
        header rsp ''X-Request-Id'' \<in> {None, Some (ss_request_id s)} \<and>
        request_id_for B (ss_request s) (ss_request_id s)) \<and>
     (\<forall>r. ss_response s = Some r \<longrightarrow>
        ss_pending s \<in> {Ended, Writing True, Writing False} \<and> identified B (ss_request s) r)"

lemma written_inv_start: "written_inv B (Session_Start B cfg)"
  by (simp add: written_inv_def Session_Start_def Session_new_def ReadRequest_def)

text \<open>
  What a session needs of the router: a response names no other request than the one it
  answers.
\<close>

locale answering_router =
  fixes router :: "'s Router"
  assumes keeps_id: "Dispatch router request w st = (rsp, w', st') \<Longrightarrow>
    header rsp ''X-Request-Id'' \<in> {None, Some (req_request_id request)}"
begin

lemma dispatched:
  assumes "DispatchRequest B router remote s g = (s', g')"
  shows "\<exists>rsp request_id. s' = s\<lparr>ss_request_id := request_id, ss_pending := Answering rsp\<rparr> \<and>
    header rsp ''X-Request-Id'' \<in> {None, Some request_id} \<and> request_id_for B (ss_request s) request_id"
proof -
  obtain w st seq where g: "g = (w, st, seq)" by (cases g) auto
  obtain generated w1 seq' where i: "GenerateRequestId w seq = (generated, w1, seq')" by (rule prod_cases3)
  let ?id = "case bs_find B (ss_request s) ''X-Request-Id'' of None \<Rightarrow> generated | Some v \<Rightarrow> v"
  let ?q = "ConvertBeastRequest B (ss_request s) (case remote of None \<Rightarrow> ''unknown'' | Some address \<Rightarrow> address) ?id"
  obtain rsp w2 st' where d: "Dispatch router ?q w1 st = (rsp, w2, st')" by (rule prod_cases3)
  have "req_request_id ?q = ?id" by (simp add: ConvertBeastRequest_def split: prod.split)
  with keeps_id [OF d] have "header rsp ''X-Request-Id'' \<in> {None, Some ?id}" by simp
  moreover have "\<exists>w seq. generated = fst (GenerateRequestId w seq)" using i by (metis fst_conv)
  then have "request_id_for B (ss_request s) ?id" by (auto simp: request_id_for_def split: option.split)
  ultimately show ?thesis using assms by (auto simp: DispatchRequest_def g i d Let_def)
qed

lemma written_inv_step:
  assumes "session_step B cfg router (s, g) e (s', g')" "session_inv s" "written_inv B s"
  shows "written_inv B s'"
  using assms(1)
proof (cases rule: session_step.cases)
  case (worked remote)
  then show ?thesis using dispatched [of B remote s g s' g'] assms(3) by (auto simp: written_inv_def)
next
  case (answered rsp)
  then have "identified B (ss_request s) (the (ss_response s'))"
    using assms(3) by (auto simp: written_inv_def identified_def WriteResponse_def)
  with answered show ?thesis by (auto simp: written_inv_def WriteResponse_def)
qed (use assms(2,3) in \<open>auto simp: written_inv_def session_inv_def session_defs split: option.splits if_splits\<close>)

end

text \<open>A router without routes answers every request with 404 and its id.\<close>

interpretation no_routes: answering_router "Router_default :: 's Router"
  by unfold_locales (auto simp: Dispatch_def Router_default_def)

text \<open>A router whose handlers keep an invariant of the state the sessions share.\<close>

locale serving_router = answering_router router for router :: "'s Router" +
  fixes inv :: "World \<Rightarrow> 's \<Rightarrow> bool"
  assumes inv_time: "inv w st \<Longrightarrow> later w w' \<Longrightarrow> inv w' st"
    and inv_dispatch: "inv w st \<Longrightarrow> Dispatch router request w st = (rsp, w', st') \<Longrightarrow> inv w' st'"

section \<open>The running server\<close>

definition server_inv :: "('q, 's) HttpServer \<Rightarrow> bool" where
  "server_inv srv \<longleftrightarrow>
     (hs_acceptor_open srv \<longrightarrow> hs_accepting srv) \<and> hs_acceptor_open srv = (\<not> hs_stopped srv) \<and>
     1 \<le> hs_io_threads srv \<and> 1 \<le> hs_worker_threads srv \<and> (\<forall>s \<in> set (hs_sessions srv). session_inv s)"

lemma server_inv_start:
  "HttpServer_Start listen (HttpServer_new cfg rt w st) = Inr srv \<Longrightarrow> server_inv srv"
  by (auto simp: HttpServer_Start_def HttpServer_new_def DoAccept_def server_inv_def split: sum.splits)

lemma server_inv_step:
  assumes "server_step B router srv srv'" "server_inv srv"
  shows "server_inv srv'"
  using assms
proof (cases rule: server_step.cases)
  case (session i e s' g')
  then have "session_step B (hs_server_config srv) router (hs_sessions srv ! i, hs_shared srv) e (s', g')" by simp
  then have "session_moves B (hs_server_config srv) router (hs_sessions srv ! i) e s'"
    unfolding session_moves_def by blast
  then have "session_inv s'" using session assms(2) session_inv_step by (fastforce simp: server_inv_def)
  then show ?thesis using session assms(2) set_update_subset_insert [of "hs_sessions srv" i s'] by (auto simp: server_inv_def)
qed (auto simp: server_inv_def on_accept_def on_signal_def DoAccept_def session_inv_start Let_def)

text \<open>What holds of a server whose router keeps an invariant of the shared state.\<close>

context serving_router
begin

lemma dispatch_keeps_shared:
  assumes "DispatchRequest B router remote s (w, st, seq) = (s', w', st', seq')" "inv w st"
  shows "inv w' st'"
proof -
  obtain generated w1 seq1 where i: "GenerateRequestId w seq = (generated, w1, seq1)" by (rule prod_cases3)
  have "later w w1" using i by (auto simp: GenerateRequestId_def intro: later_intros split: prod.splits)
  then have "inv w1 st" by (rule inv_time [OF assms(2)])
  with assms(1) inv_dispatch show ?thesis by (auto simp: DispatchRequest_def i Let_def split: prod.splits)
qed

lemma session_keeps_shared:
  assumes "session_step B cfg router (s, w, st, seq) e (s', w', st', seq')" "inv w st"
  shows "inv w' st'"
  using assms(1) by (cases rule: session_step.cases) (use assms(2) dispatch_keeps_shared in auto)

lemma server_keeps:
  assumes "(server_step B router)\<^sup>*\<^sup>* a b" "server_inv a" "\<forall>s \<in> set (hs_sessions a). written_inv B s"
    and "inv (fst (hs_shared a)) (fst (snd (hs_shared a)))"
  shows "server_inv b \<and> (\<forall>s \<in> set (hs_sessions b). written_inv B s) \<and> inv (fst (hs_shared b)) (fst (snd (hs_shared b)))"
  using assms
proof (induction rule: rtranclp_induct)
  case (step b c)
  then have h: "server_inv b" "\<forall>s \<in> set (hs_sessions b). written_inv B s" "inv (fst (hs_shared b)) (fst (snd (hs_shared b)))"
    by simp_all
  have "(\<forall>s \<in> set (hs_sessions c). written_inv B s) \<and> inv (fst (hs_shared c)) (fst (snd (hs_shared c)))"
    using step.hyps(2)
  proof (cases rule: server_step.cases)
    case (accept failed)
    then show ?thesis using h by (auto simp: on_accept_def DoAccept_def written_inv_start Let_def)
  next
    case signal
    then show ?thesis using h by (simp add: on_signal_def)
  next
    case (time w st seq w')
    then show ?thesis using h inv_time by simp
  next
    case (session i e s' g')
    let ?s = "hs_sessions b ! i"
    obtain w st seq w' st' seq' where g: "hs_shared b = (w, st, seq)" "g' = (w', st', seq')" by (metis prod_cases3)
    have m: "?s \<in> set (hs_sessions b)" using session by simp
    have e: "session_step B (hs_server_config b) router (?s, w, st, seq) e (s', w', st', seq')" using session g by simp
    have "session_inv ?s" "written_inv B ?s" using m h by (auto simp: server_inv_def)
    then have "written_inv B s'" by (rule written_inv_step [OF e])
    moreover have "inv w' st'" using session_keeps_shared [OF e] g h by simp
    ultimately show ?thesis
      using session h g set_update_subset_insert [of "hs_sessions b" i s'] by auto
  qed
  with server_inv_step [OF step.hyps(2) h(1)] show ?case by simp
qed simp

end

section \<open>A concrete session\<close>

definition demo_beast :: "HttpRequest beast" where
  "demo_beast =
     \<lparr>bs_method_string = req_method, bs_target = req_path, bs_body = req_body, bs_fields = req_headers,
      bs_find = (\<lambda>q. om_get (req_headers q)), bs_version = (\<lambda>q. 11), bs_keep_alive = (\<lambda>q. True),
      bs_empty = demo_request [] []\<rparr>"

definition demo_session :: "HttpRequest Session" where
  "demo_session = Session_Start demo_beast ServerConfig_default"

definition demo_queued :: "HttpRequest Session" where
  "demo_queued = the (on_read (demo_request ''/health'' ''t'') demo_session)"

lemma demo_read: "on_read (demo_request ''/health'' ''t'') demo_session = Some demo_queued" "ss_pending demo_queued = Queued"
  by (simp_all add: demo_queued_def demo_session_def Session_Start_def ReadRequest_def on_read_def)

lemma demo_session_reads:
  "runs (session_moves demo_beast ServerConfig_default (Router_default :: unit Router)) demo_session
     [ReadDone (demo_request ''/health'' ''t'')] demo_queued"
proof -
  have "ss_pending demo_session = Reading" by (simp add: demo_session_def Session_Start_def ReadRequest_def)
  then have "session_moves demo_beast ServerConfig_default (Router_default :: unit Router) demo_session
      (ReadDone (demo_request ''/health'' ''t'')) demo_queued"
    unfolding session_moves_def using demo_read(1) by (blast intro: session_step.read_done)
  then show ?thesis by (blast intro: runs.intros)
qed

section \<open>Properties\<close>

text \<open>
  C11: Every session keeps its invariant in every run from its start, whatever completes,
  fails or expires in whatever order: a session that waits for nothing has closed its
  connection; the completion handlers never find a null parser or a null response; a write
  started on a closed socket leaves no open session; a timer waits only while the operation
  it guards is outstanding. And every request that was read is answered exactly once, except
  the one that is being worked on.
\<close>

theorem session_invariant:
  assumes "runs (session_moves B cfg router) (Session_Start B cfg) es s"
  shows "session_inv s \<and>
    length (filter is_read es) = length (filter (\<lambda>e. e = Answered) es) + (if unanswered s then 1 else 0)"
proof -
  have "\<not> unanswered (Session_Start B cfg)" by (simp add: unanswered_def Session_Start_def ReadRequest_def)
  with answers_match_reads [OF assms] session_inv_runs [OF assms session_inv_start] show ?thesis by simp
qed

theorem session_invariant_witness: "session_inv demo_queued \<and> unanswered demo_queued"
  using session_invariant [OF demo_session_reads [unfolded demo_session_def]] by (simp split: if_splits)

text \<open>
  C12: Once its connection is closed, a session ends: each of its own steps uses up a budget
  that is at most 15 plus what its timers can still do, so no run goes on for ever, and a
  session that can make no further step waits for nothing. It never opens again.
\<close>

theorem closed_session_ends:
  assumes "\<not> ss_open s" "runs (session_moves B cfg router) s es s'"
  shows "\<not> ss_open s' \<and> length es \<le> 15 + session_timers s \<and>
    ((\<nexists>e s''. session_moves B cfg router s' e s'') \<longrightarrow> ss_pending s' = Ended \<and> session_timers s' = 0)"
proof -
  have b: "\<not> ss_open s'" "length es + closed_budget s' \<le> closed_budget s"
    using closing.run_bounded [OF assms(2,1)] by auto
  have "pending_rank (ss_pending s) \<le> 5" by (cases "ss_pending s") auto
  then have "length es \<le> 15 + session_timers s" using b(2) by (simp add: closed_budget_def)
  moreover have "ss_pending s' = Ended \<and> session_timers s' = 0" if stuck: "\<nexists>e s''. session_moves B cfg router s' e s''"
  proof -
    have n: "\<not> session_step B cfg router (s', g) e c" for g e c
      using stuck unfolding session_moves_def by (cases c) blast
    have "\<not> tm_waiting (ss_read_timer s')" using n session_step.read_expires by blast
    moreover have "\<not> tm_waiting (ss_write_timer s')" using n session_step.write_expires by blast
    moreover have "tm_queued (ss_read_timer s') = 0" using n session_step.read_timeout by blast
    moreover have "tm_queued (ss_write_timer s') = 0" using n session_step.write_timeout by blast
    ultimately have t: "session_timers s' = 0" by (simp add: session_timers_def timer_budget_def)
    have "ss_pending s' = Ended"
    proof (cases "ss_pending s'")
      case Reading
      then show ?thesis using n session_step.read_failed by blast
    next
      case (Writing b)
      then show ?thesis using n session_step.write_failed by blast
    next
      case Queued
      then show ?thesis using n session_step.worked by blast
    next
      case (Answering rsp)
      then show ?thesis using n session_step.answered by blast
    qed simp
    with t show ?thesis by simp
  qed
  ultimately show ?thesis using b(1) by blast
qed

theorem closed_session_ends_witness:
  "session_timers (Close demo_session) = 0 \<and> \<not> ss_open (on_read_failed (Close demo_session)) \<and>
   length [ReadFailed :: HttpRequest happened] \<le> 15 + session_timers (Close demo_session)"
proof -
  have c: "\<not> ss_open (Close demo_session)" "session_timers (Close demo_session) = 0" "ss_pending (Close demo_session) = Reading"
    by (simp_all add: Close_def session_timers_def timer_budget_def timer_cancel_def demo_session_def
        Session_Start_def Session_new_def ReadRequest_def timer_start_def)
  have "session_moves demo_beast ServerConfig_default (Router_default :: unit Router) (Close demo_session) ReadFailed
      (on_read_failed (Close demo_session))"
    unfolding session_moves_def by (blast intro: session_step.read_failed [OF c(3)])
  then have "runs (session_moves demo_beast ServerConfig_default (Router_default :: unit Router)) (Close demo_session)
      [ReadFailed] (on_read_failed (Close demo_session))" by (blast intro: runs.intros)
  from closed_session_ends [OF c(1) this] c(2) show ?thesis by simp
qed

text \<open>
  C13: A request that was read is answered: as long as it is not, the worker's task or the
  handler that writes the response is ready to run, and the session can make at most three
  steps besides those of its timers before the response is written, whether or not the
  connection is closed meanwhile.
\<close>

theorem read_request_is_answered:
  assumes "ss_pending s = Queued" "runs (session_moves B cfg router) s es s'" "Answered \<notin> set es"
  shows "length es \<le> 3 + session_timers s \<and>
    (\<exists>e s''. (e = Answered \<or> (\<exists>remote. e = Worked remote)) \<and> session_moves B cfg router s' e s'')"
proof -
  have u: "unanswered s" using assms(1) by (simp add: unanswered_def)
  from answering.run_bounded [OF runs_without [OF assms(2,3)] this]
  have "unanswered s'" "length es \<le> answer_budget s" by simp_all
  with working_enabled [OF this(1)] assms(1) show ?thesis by (simp add: answer_budget_def)
qed

theorem read_request_is_answered_witness:
  "\<exists>e s''. (e = Answered \<or> (\<exists>remote. e = Worked remote)) \<and>
     session_moves demo_beast ServerConfig_default (Router_default :: unit Router) demo_queued e s''"
  using read_request_is_answered [OF demo_read(2) runs.rest, of demo_beast ServerConfig_default "Router_default :: unit Router"]
  by simp

text \<open>
  C38: A read that completes just as its timer expires loses its answer: the handler of the
  expired timer still runs after the completion of the read has cancelled the timer, and
  closes the connection; the request is dispatched all the same, and its response is never
  written.
\<close>

theorem late_read_timeout_loses_response:
  assumes "runs (session_moves B cfg router) (Session_Start B cfg) ([ReadExpires, ReadDone q, ReadTimeout] @ es) s"
  shows "Written \<notin> set es \<and> (Answered \<in> set es \<longrightarrow> (\<exists>remote. Worked remote \<in> set es)) \<and>
    (ss_pending s = Ended \<longrightarrow> Answered \<in> set es \<and> WriteFailed \<in> set es)"
proof -
  let ?M = "session_moves B cfg router"
  obtain s1 where e1: "?M (Session_Start B cfg) ReadExpires s1" and r1: "runs ?M s1 (ReadDone q # ReadTimeout # es) s"
    using assms by (auto elim: runs_ConsE)
  obtain s2 where e2: "?M s1 (ReadDone q) s2" and r2: "runs ?M s2 (ReadTimeout # es) s"
    using r1 by (auto elim: runs_ConsE)
  obtain s3 where e3: "?M s2 ReadTimeout s3" and r3: "runs ?M s3 es s" using r2 by (auto elim: runs_ConsE)
  have "ss_pending s2 = Queued" using e2 by (cases rule: session_moves_cases) (auto simp: on_read_def split: option.splits)
  with e3 have s3: "ss_pending s3 = Queued \<and> \<not> ss_open s3"
    by (cases rule: session_moves_cases) (auto simp: on_read_timeout_def Close_def)
  have path: "Written \<notin> set es \<and>
      (case ss_pending x of
         Queued \<Rightarrow> (Answered \<in> set es \<longrightarrow> (\<exists>remote. Worked remote \<in> set es)) \<and>
           (ss_pending y = Ended \<longrightarrow> Answered \<in> set es \<and> WriteFailed \<in> set es)
       | Answering rsp \<Rightarrow> ss_pending y = Ended \<longrightarrow> Answered \<in> set es \<and> WriteFailed \<in> set es
       | Writing b \<Rightarrow> Answered \<notin> set es \<and> (ss_pending y = Ended \<longrightarrow> WriteFailed \<in> set es)
       | _ \<Rightarrow> Answered \<notin> set es)"
    if "runs ?M x es y" "\<not> ss_open x" "ss_pending x \<notin> {Reading, Writing True}" for x es y
    using that
  proof (induction rule: runs.induct)
    case (rest a)
    then show ?case by (auto split: pending.split)
  next
    case (move a e b es c)
    have "\<not> ss_open b" using closed_step [OF move.hyps(1) move.prems(1)] by simp
    note ih = move.IH [OF this]
    from move.hyps(1) show ?case
      by (cases rule: session_moves_cases)
        (use ih move.prems in \<open>auto simp: session_defs split: pending.splits\<close>)
  qed
  from path [OF r3] s3 show ?thesis by simp
qed

text \<open>The run of the theorem to its end: the task, the response, the failing write.\<close>

lemma late_timeout_run:
  "\<exists>s. runs (session_moves B cfg router) (Session_Start B cfg)
     ([ReadExpires, ReadDone q, ReadTimeout] @ [Worked None, Answered, WriteFailed]) s \<and> ss_pending s = Ended"
proof -
  let ?M = "session_moves B cfg router" and ?s0 = "Session_Start B cfg"
  let ?s1 = "?s0\<lparr>ss_read_timer := timer_expires (ss_read_timer ?s0)\<rparr>"
  have "tm_waiting (ss_read_timer ?s0)" by (simp add: Session_Start_def ReadRequest_def timer_start_def)
  then have 1: "?M ?s0 ReadExpires ?s1" unfolding session_moves_def by (blast intro: session_step.read_expires)
  have p: "ss_pending ?s1 = Reading" "ss_parser ?s1 = Some (srv_body_limit_bytes cfg)"
    "tm_queued (ss_read_timer ?s1) = 1"
    by (simp_all add: Session_Start_def Session_new_def ReadRequest_def timer_expires_def timer_start_def timer_cancel_def)
  obtain s2 where s2: "on_read q ?s1 = Some s2" using p(2) by (simp add: on_read_def)
  have 2: "?M ?s1 (ReadDone q) s2" unfolding session_moves_def using session_step.read_done [OF p(1) s2] by blast
  have q: "ss_pending s2 = Queued" "tm_queued (ss_read_timer s2) > 0"
    using s2 p(2,3) by (auto simp: on_read_def timer_cancel_def)
  have 3: "?M s2 ReadTimeout (on_read_timeout s2)" unfolding session_moves_def using session_step.read_timeout [OF q(2)] by blast
  have "ss_pending (on_read_timeout s2) = Queued" using q(1) by (simp add: on_read_timeout_def Close_def)
  moreover obtain s4 g where d: "DispatchRequest B router None (on_read_timeout s2) undefined = (s4, g)"
    by (cases "DispatchRequest B router None (on_read_timeout s2) undefined")
  ultimately have 4: "?M (on_read_timeout s2) (Worked None) s4" unfolding session_moves_def
    by (blast intro: session_step.worked)
  obtain rsp where "ss_pending s4 = Answering rsp" using d by (auto simp: DispatchRequest_def Let_def split: prod.splits)
  then have 5: "?M s4 Answered (WriteResponse B cfg rsp s4)" unfolding session_moves_def by (blast intro: session_step.answered)
  let ?s6 = "on_write_failed (WriteResponse B cfg rsp s4)"
  have "ss_pending (WriteResponse B cfg rsp s4) = Writing (ss_open s4)" by (simp add: WriteResponse_def)
  then have 6: "?M (WriteResponse B cfg rsp s4) WriteFailed ?s6"
    unfolding session_moves_def by (blast intro: session_step.write_failed)
  have "runs ?M ?s0 [ReadExpires, ReadDone q, ReadTimeout, Worked None, Answered, WriteFailed] ?s6"
    by (rule runs.move, rule 1, rule runs.move, rule 2, rule runs.move, rule 3, rule runs.move, rule 4,
        rule runs.move, rule 5, rule runs.move, rule 6, rule runs.rest)
  moreover have "ss_pending ?s6 = Ended" by (simp add: on_write_failed_def Close_def)
  ultimately show ?thesis by auto
qed

theorem late_read_timeout_loses_response_witness:
  "\<exists>es s. runs (session_moves demo_beast ServerConfig_default (Router_default :: unit Router))
       (Session_Start demo_beast ServerConfig_default) es s \<and>
     ReadDone (demo_request ''/health'' ''t'') \<in> set es \<and> Answered \<in> set es \<and> Written \<notin> set es \<and> ss_pending s = Ended"
proof -
  obtain s where r: "runs (session_moves demo_beast ServerConfig_default (Router_default :: unit Router))
      (Session_Start demo_beast ServerConfig_default)
      ([ReadExpires, ReadDone (demo_request ''/health'' ''t''), ReadTimeout] @ [Worked None, Answered, WriteFailed]) s"
    "ss_pending s = Ended"
    using late_timeout_run [where q = "demo_request ''/health'' ''t''"] by blast
  from late_read_timeout_loses_response [OF r(1)] r show ?thesis by (intro exI conjI) auto
qed

text \<open>
  C37: A server that started accepts connections until a signal stops it: in every state it
  can reach, whatever accepts failed, an accept is outstanding unless the server was stopped;
  it runs at least one thread of each kind whatever the configuration says, and every session
  it has accepted meets the session invariant.
\<close>

theorem server_accepts_until_stopped:
  assumes "HttpServer_Start listen (HttpServer_new cfg rt w st) = Inr started"
    and "(server_step B router)\<^sup>*\<^sup>* started srv"
  shows "(\<not> hs_stopped srv \<longrightarrow> hs_acceptor_open srv \<and> hs_accepting srv) \<and>
    1 \<le> hs_io_threads srv \<and> 1 \<le> hs_worker_threads srv \<and> (\<forall>s \<in> set (hs_sessions srv). session_inv s)"
proof -
  from assms(2) have "server_inv srv"
  proof (induction rule: rtranclp_induct)
    case base
    then show ?case by (rule server_inv_start [OF assms(1)])
  next
    case (step a b)
    then show ?case using server_inv_step by blast
  qed
  then show ?thesis by (auto simp: server_inv_def)
qed

theorem server_accepts_until_stopped_witness:
  "\<exists>srv srv'. HttpServer_Start (\<lambda>host port. Inr ())
       (HttpServer_new ServerConfig_default RuntimeConfig_default demo_gateway_world () :: (HttpRequest, unit) HttpServer) = Inr srv \<and>
     srv' = on_accept demo_beast True srv \<and> hs_accepting srv'"
proof -
  let ?new = "HttpServer_new ServerConfig_default RuntimeConfig_default demo_gateway_world () :: (HttpRequest, unit) HttpServer"
  obtain srv where s: "HttpServer_Start (\<lambda>host port. Inr ()) ?new = Inr srv" by (simp add: HttpServer_Start_def)
  then have r: "\<not> hs_stopped srv" "hs_accepting srv"
    by (auto simp: HttpServer_Start_def HttpServer_new_def DoAccept_def)
  have "(server_step demo_beast Router_default)\<^sup>*\<^sup>* srv (on_accept demo_beast True srv)"
    by (rule r_into_rtranclp, rule server_step.accept [OF r])
  from server_accepts_until_stopped [OF s this] r have "hs_accepting (on_accept demo_beast True srv)"
    by (simp add: on_accept_def DoAccept_def Let_def split: if_splits)
  with s show ?thesis by blast
qed

text \<open>
  No two of the first 2 to the power of 64 ids that the server generates are equal,
  whatever the clock shows when they are.
\<close>

theorem generated_ids_distinct:
  assumes "length ws \<le> 2 ^ 64"
  shows "distinct (request_ids ws 0)"
  using assms by (rule request_ids_distinct)

theorem generated_ids_distinct_witness: "distinct (request_ids [demo_gateway_world, demo_gateway_world] 0)"
  by (rule generated_ids_distinct) simp

end
