(* ===== verification/Admin.thy ===== *)
theory Admin
  imports Config RouteRules JsonShape
begin

text \<open>
  The admin pages of \<^verbatim>\<open>src/admin/admin_handler.cc\<close>. The listing of the router is
  an argument: it is what \<^verbatim>\<open>Router::ListRoutes\<close> returns, in the unspecified order of
  its hash map. The one \<^verbatim>\<open>double\<close> is printed as \<^verbatim>\<open>operator<<\<close>
  does by default: six significant digits, rounded half to even, in fixed or scientific form.
\<close>

section \<open>Printing a double\<close>

definition round_even :: "rat \<Rightarrow> int" where
  "round_even v =
     (let f = \<lfloor>v\<rfloor>; r = v - of_int f
      in if r < 1 / 2 then f else if r > 1 / 2 then f + 1 else if even f then f else f + 1)"

text \<open>The decimal exponent, searched in the range a \<^verbatim>\<open>double\<close> can have.\<close>

definition exponent10 :: "rat \<Rightarrow> int" where
  "exponent10 v = foldl (\<lambda>best x. if 10 powi x \<le> v then x else best) (- 324) [- 324..308]"

definition strip_zeros :: "string \<Rightarrow> string" where
  "strip_zeros s = rev (dropWhile (\<lambda>c. c = CHR ''0'') (rev s))"

definition point :: "string \<Rightarrow> string" where
  "point fraction = (if fraction = [] then [] else CHR ''.'' # fraction)"

definition two_digits :: "nat \<Rightarrow> string" where
  "two_digits n = (if n < 10 then ''0'' @ show_nat n else show_nat n)"

definition print_positive :: "rat \<Rightarrow> string" where
  "print_positive v =
     (let x0 = exponent10 v;
          m0 = round_even (v * 10 powi (5 - x0));
          (m, x) = (if m0 = 1000000 then (100000, x0 + 1) else (m0, x0));
          ds = show_nat (nat m)
      in if - 4 \<le> x \<and> x < 0 then ''0.'' @ replicate (nat (- x - 1)) (CHR ''0'') @ strip_zeros ds
         else if 0 \<le> x \<and> x < 6 then take (nat x + 1) ds @ point (strip_zeros (drop (nat x + 1) ds))
         else take 1 ds @ point (strip_zeros (drop 1 ds)) @ ''e'' @ (if x < 0 then ''-'' else ''+'') @
              two_digits (nat \<bar>x\<bar>))"

definition print_double :: "rat \<Rightarrow> string" where
  "print_double v =
     (if v = 0 then ''0'' else if v < 0 then ''-'' @ print_positive (- v) else print_positive v)"

section \<open>The pages\<close>

record AdminHandler =
  adm_config :: AppConfig
  adm_exact_routes :: "string list"
  adm_gateway_routes :: "RouteConfig list"

definition BoolToJson :: "bool \<Rightarrow> string" where
  "BoolToJson b = (if b then ''true'' else ''false'')"

definition JsonResponse :: "string \<Rightarrow> HttpResponse" where
  "JsonResponse raw_json =
     HttpResponse_default\<lparr>rsp_status := 200, rsp_content_type := ''application/json'',
       rsp_body := ToJson (ApiResponse_Success raw_json)\<rparr>"

text \<open>The groups of the runtime page.\<close>

definition runtime_service :: "ServerConfig \<Rightarrow> string" where
  "runtime_service c =
     json_key ''service'' @ ''{'' @
     json_key ''name'' @ quoted (JsonEscape (srv_name c)) @ '','' @
     json_key ''host'' @ quoted (JsonEscape (srv_host c)) @ '','' @
     json_key ''port'' @ show_nat (srv_port c) @ ''},''"

definition runtime_threads :: "RuntimeConfig \<Rightarrow> string" where
  "runtime_threads c =
     json_key ''runtime'' @ ''{'' @
     json_key ''io_threads'' @ show_int (rt_io_threads c) @ '','' @
     json_key ''worker_threads'' @ show_int (rt_worker_threads c) @ ''},''"

definition runtime_gateway :: "GatewayConfig \<Rightarrow> string" where
  "runtime_gateway c =
     json_key ''gateway'' @ ''{'' @
     json_key ''request_timeout_ms'' @ show_int (gw_request_timeout_ms c) @ '','' @
     json_key ''enable_tracing'' @ BoolToJson (gw_enable_tracing c) @ ''},''"

definition runtime_user_service :: "UserServiceRpcConfig \<Rightarrow> string" where
  "runtime_user_service c =
     json_key ''user_service_rpc'' @ ''{'' @
     json_key ''enabled'' @ BoolToJson (usr_enabled c) @ '','' @
     json_key ''host'' @ quoted (JsonEscape (usr_host c)) @ '','' @
     json_key ''port'' @ show_nat (usr_port c) @ '','' @
     json_key ''timeout_ms'' @ show_int (usr_timeout_ms c) @ ''},''"

definition runtime_auth :: "AuthConfig \<Rightarrow> nat \<Rightarrow> string" where
  "runtime_auth c rule_count =
     json_key ''auth'' @ ''{'' @
     json_key ''enabled'' @ BoolToJson (auth_enabled c) @ '','' @
     json_key ''token_ttl_seconds'' @ show_int (auth_token_ttl_seconds c) @ '','' @
     json_key ''rbac_enabled'' @ BoolToJson (auth_rbac_enabled c) @ '','' @
     json_key ''rbac_rule_count'' @ show_nat rule_count @ ''},''"

definition runtime_mysql :: "MysqlConfig \<Rightarrow> string" where
  "runtime_mysql c =
     json_key ''mysql'' @ ''{'' @
     json_key ''enabled'' @ BoolToJson (my_enabled c) @ '','' @
     json_key ''host'' @ quoted (JsonEscape (my_host c)) @ '','' @
     json_key ''port'' @ show_nat (my_port c) @ '','' @
     json_key ''database'' @ quoted (JsonEscape (my_database c)) @ ''},''"

definition runtime_redis :: "RedisRateLimitConfig \<Rightarrow> string" where
  "runtime_redis c =
     json_key ''redis'' @ ''{'' @
     json_key ''enabled'' @ BoolToJson (redis_enabled c) @ '','' @
     json_key ''host'' @ quoted (JsonEscape (redis_host c)) @ '','' @
     json_key ''port'' @ show_nat (redis_port c) @ '','' @
     json_key ''key_prefix'' @ quoted (JsonEscape (redis_key_prefix c)) @ '','' @
     json_key ''fail_open'' @ BoolToJson (redis_fail_open c) @ ''}''"

definition runtime_rate_limit :: "RateLimitConfig \<Rightarrow> string" where
  "runtime_rate_limit c =
     json_key ''rate_limit'' @ ''{'' @
     json_key ''enabled'' @ BoolToJson (rl_enabled c) @ '','' @
     json_key ''window_seconds'' @ show_int (rl_window_seconds c) @ '','' @
     json_key ''default_max_requests'' @ show_int (rl_default_max_requests c) @ '','' @
     runtime_redis (rl_redis c) @ ''},''"

definition runtime_retry :: "RetryConfig \<Rightarrow> string" where
  "runtime_retry c =
     json_key ''retry'' @ ''{'' @
     json_key ''enabled'' @ BoolToJson (retry_enabled c) @ '','' @
     json_key ''max_attempts'' @ show_int (retry_max_attempts c) @ '','' @
     json_key ''backoff_ms'' @ show_int (retry_backoff_ms c) @ '','' @
     json_key ''retry_non_idempotent'' @ BoolToJson (retry_non_idempotent c) @ ''},''"

definition runtime_circuit_breaker :: "CircuitBreakerConfig \<Rightarrow> string" where
  "runtime_circuit_breaker c =
     json_key ''circuit_breaker'' @ ''{'' @
     json_key ''enabled'' @ BoolToJson (cb_enabled c) @ '','' @
     json_key ''failure_threshold'' @ show_int (cb_failure_threshold c) @ '','' @
     json_key ''open_seconds'' @ show_int (cb_open_seconds c) @ '','' @
     json_key ''half_open_success_threshold'' @ show_int (cb_half_open_success_threshold c) @ ''},''"

definition runtime_governance :: "GovernanceConfig \<Rightarrow> string" where
  "runtime_governance c =
     json_key ''governance'' @ ''{'' @
     json_key ''enabled'' @ BoolToJson (gov_enabled c) @ '','' @
     runtime_retry (gov_retry c) @ runtime_circuit_breaker (gov_circuit_breaker c) @
     json_key ''fallback'' @ ''{'' @
     json_key ''enabled'' @ BoolToJson (fb_enabled (gov_fallback c)) @ '','' @
     json_key ''message'' @ quoted (JsonEscape (fb_message (gov_fallback c))) @ ''}'' @ ''},''"

definition runtime_tracing :: "TracingConfig \<Rightarrow> string" where
  "runtime_tracing c =
     json_key ''tracing'' @ ''{'' @
     json_key ''enabled'' @ BoolToJson (tr_enabled c) @ '','' @
     json_key ''service_name'' @ quoted (JsonEscape (tr_service_name c)) @ '','' @
     json_key ''sample_ratio'' @ print_double (tr_sample_ratio c) @ '','' @
     json_key ''max_finished_spans'' @ show_nat (tr_max_finished_spans c) @ '','' @
     json_key ''accept_traceparent'' @ BoolToJson (tr_accept_traceparent c) @ '','' @
     json_key ''otlp_exporter_enabled'' @ BoolToJson (tr_otlp_exporter_enabled c) @ '','' @
     json_key ''otlp_endpoint'' @
       quoted (JsonEscape (tr_otlp_host c @ '':'' @ show_nat (tr_otlp_http_port c) @ tr_otlp_path c)) @ ''}''"

definition Runtime :: "AdminHandler \<Rightarrow> HttpRequest \<Rightarrow> HttpResponse" where
  "Runtime h request =
     (let c = adm_config h
      in JsonResponse (''{'' @ runtime_service (app_server c) @ runtime_threads (app_runtime c) @
           runtime_gateway (app_gateway c) @ runtime_user_service (app_user_service_rpc c) @
           runtime_auth (app_auth c) (length (app_rbac_rules c)) @ runtime_mysql (app_mysql c) @
           runtime_rate_limit (app_rate_limit c) @ runtime_governance (app_governance c) @
           runtime_tracing (app_tracing c) @ ''}''))"

definition route_json :: "RouteConfig \<Rightarrow> string" where
  "route_json r =
     ''{'' @
     json_key ''name'' @ quoted (JsonEscape (rc_name r)) @ '','' @
     json_key ''match_type'' @ quoted (JsonEscape (rc_match_type r)) @ '','' @
     json_key ''path'' @ quoted (JsonEscape (rc_path r)) @ '','' @
     json_key ''upstream'' @ quoted (JsonEscape (rc_upstream r)) @ '','' @
     json_key ''strip_prefix'' @ BoolToJson (rc_strip_prefix r) @ '','' @
     json_key ''timeout_ms'' @ show_int (rc_timeout_ms r) @ ''}''"

definition Routes :: "AdminHandler \<Rightarrow> HttpRequest \<Rightarrow> HttpResponse" where
  "Routes h request =
     JsonResponse (''{'' @
       json_key ''exact_routes'' @ ''['' @
         comma_sep (map (\<lambda>r. quoted (JsonEscape r)) (adm_exact_routes h)) @ ''],'' @
       json_key ''gateway_routes'' @ ''['' @
         comma_sep (map route_json (RouteRuleManager_ListRoutes (adm_gateway_routes h))) @ '']'' @ ''}'')"

definition Features :: "AdminHandler \<Rightarrow> HttpRequest \<Rightarrow> HttpResponse" where
  "Features h request =
     (let c = adm_config h
      in JsonResponse (''{'' @
           json_key ''auth_enabled'' @ BoolToJson (auth_enabled (app_auth c)) @ '','' @
           json_key ''rbac_enabled'' @ BoolToJson (auth_rbac_enabled (app_auth c)) @ '','' @
           json_key ''mysql_enabled'' @ BoolToJson (my_enabled (app_mysql c)) @ '','' @
           json_key ''rate_limit_enabled'' @ BoolToJson (rl_enabled (app_rate_limit c)) @ '','' @
           json_key ''redis_rate_limit_enabled'' @ BoolToJson (redis_enabled (rl_redis (app_rate_limit c))) @ '','' @
           json_key ''governance_enabled'' @ BoolToJson (gov_enabled (app_governance c)) @ '','' @
           json_key ''retry_enabled'' @ BoolToJson (retry_enabled (gov_retry (app_governance c))) @ '','' @
           json_key ''circuit_breaker_enabled'' @ BoolToJson (cb_enabled (gov_circuit_breaker (app_governance c))) @ '','' @
           json_key ''fallback_enabled'' @ BoolToJson (fb_enabled (gov_fallback (app_governance c))) @ '','' @
           json_key ''remote_user_service_enabled'' @ BoolToJson (usr_enabled (app_user_service_rpc c)) @ '','' @
           json_key ''tracing_enabled'' @ BoolToJson (tr_enabled (app_tracing c)) @ '','' @
           json_key ''otlp_exporter_enabled'' @ BoolToJson (tr_otlp_exporter_enabled (app_tracing c)) @ '','' @
           json_key ''metrics_enabled'' @ ''true,'' @
           json_key ''admin_enabled'' @ ''true'' @ ''}''))"

section \<open>The pages are closed JSON objects\<close>

lemma set_dropWhile_subset: "set (dropWhile P xs) \<subseteq> set xs"
  by (induction xs) auto

lemma plain_append [simp]: "plain_text (s @ t) \<longleftrightarrow> plain_text s \<and> plain_text t"
  by (simp add: plain_text_def)

lemma plain_show_nat [simp]: "plain_text (show_nat n)"
  using show_int_chars [of "int n"] by (auto simp: plain_text_def list_all_iff isdigit_def show_int_def)

lemma plain_subset: "set s \<subseteq> set t \<Longrightarrow> plain_text t \<Longrightarrow> plain_text s"
  by (auto simp: plain_text_def list_all_iff)

lemma plain_strip_zeros [simp]: "plain_text s \<Longrightarrow> plain_text (strip_zeros s)"
  by (rule plain_subset [rotated]) (use set_dropWhile_subset in \<open>fastforce simp: strip_zeros_def\<close>)+

lemma plain_take_drop [simp]: "plain_text s \<Longrightarrow> plain_text (take n s)" "plain_text s \<Longrightarrow> plain_text (drop n s)"
  by (auto intro: plain_subset dest: in_set_takeD in_set_dropD)

lemma plain_point [simp]: "plain_text s \<Longrightarrow> plain_text (point s)"
  by (simp add: point_def plain_text_def)

lemma plain_replicate [simp]: "plain_text (replicate n (CHR ''0''))"
  by (simp add: plain_text_def list_all_iff)

lemma plain_literals [simp]: "plain_text ''0.''" "plain_text ''e''" "plain_text ''-''" "plain_text ''+''" "plain_text ''0''"
  by (simp_all add: plain_text_def)

lemma plain_positive_parts:
  "plain_text (''0.'' @ replicate n (CHR ''0'') @ strip_zeros (show_nat m))"
  "plain_text (take k (show_nat m) @ point (strip_zeros (drop k (show_nat m))))"
  "plain_text (take k (show_nat m) @ point (strip_zeros (drop k (show_nat m))) @ ''e'' @ (if b then ''-'' else ''+'') @ two_digits e)"
  by (simp_all only: plain_append plain_literals plain_replicate plain_strip_zeros plain_show_nat plain_take_drop
      plain_point two_digits_def split: if_split) simp_all

lemma plain_print_positive: "plain_text (print_positive v)"
proof -
  obtain m x where mx: "(if round_even (v * 10 powi (5 - exponent10 v)) = 1000000 then (100000, exponent10 v + 1)
      else (round_even (v * 10 powi (5 - exponent10 v)), exponent10 v)) = (m, x)"
    by (rule prod.exhaust)
  show ?thesis
    unfolding print_positive_def Let_def mx prod.case
    by (simp only: plain_positive_parts split: if_split) simp
qed

lemma fragment_print_double [simp]: "fragment (print_double v)"
  by (rule fragment_plain)
    (simp only: print_double_def plain_append plain_literals plain_print_positive split: if_split, simp)


lemma fragment_BoolToJson [simp]: "fragment (BoolToJson b)"
  by (rule fragment_plain) (simp add: BoolToJson_def plain_text_def)

text \<open>Scanning through a text of fragments and braces, piece by piece.\<close>

lemma scan:
  "0 < d \<Longrightarrow> list_all (\<lambda>c. c \<noteq> QUOTE \<and> c \<noteq> BACKSLASH) k \<Longrightarrow> json_run (json_key k @ t) Plain d = json_run t Plain d"
  "0 < d \<Longrightarrow> json_run (quoted (JsonEscape s) @ t) Plain d = json_run t Plain d"
  "0 < d \<Longrightarrow> json_run (show_int i @ t) Plain d = json_run t Plain d"
  "0 < d \<Longrightarrow> json_run (show_nat n @ t) Plain d = json_run t Plain d"
  "0 < d \<Longrightarrow> json_run (BoolToJson b @ t) Plain d = json_run t Plain d"
  "0 < d \<Longrightarrow> json_run (print_double v @ t) Plain d = json_run t Plain d"
  "0 < d \<Longrightarrow> json_run (CHR ''{'' # t) Plain d = json_run t Plain (d + 1)"
  "0 < d \<Longrightarrow> json_run (CHR '','' # t) Plain d = json_run t Plain d"
  "0 < d \<Longrightarrow> json_run (CHR ''}'' # t) Plain d = json_run t Plain (d - 1)"
  "0 < d \<Longrightarrow> json_run (CHR ''['' # t) Plain d = json_run t Plain (d + 1)"
  "0 < d \<Longrightarrow> json_run (CHR '']'' # t) Plain d = json_run t Plain (d - 1)"
  by (simp_all add: fragment_run json_step_def json_depth_def)

lemma scan_plain:
  "0 < d \<Longrightarrow> c \<notin> {QUOTE, CHR ''{'', CHR ''['', CHR ''}'', CHR '']''} \<Longrightarrow> json_run (c # t) Plain d = json_run t Plain d"
  by (simp add: json_step_def json_depth_def)

lemma fragment_groups [simp]:
  "fragment (runtime_service a)" "fragment (runtime_threads b)" "fragment (runtime_gateway c)"
  "fragment (runtime_user_service d)" "fragment (runtime_auth e n)" "fragment (runtime_mysql f)"
  "fragment (runtime_redis g)" "fragment (runtime_retry r)" "fragment (runtime_circuit_breaker s)"
  "fragment (runtime_tracing t)" "fragment (route_json u)"
  by (simp_all add: fragment_def scan runtime_service_def runtime_threads_def runtime_gateway_def
      runtime_user_service_def runtime_auth_def runtime_mysql_def runtime_redis_def runtime_retry_def
      runtime_circuit_breaker_def runtime_tracing_def route_json_def del: json_run.simps(2) JsonEscape_simps)

lemma fragment_nested [simp]: "fragment (runtime_rate_limit a)" "fragment (runtime_governance b)"
  by (simp_all add: fragment_def scan fragment_run [OF fragment_groups(7)] fragment_run [OF fragment_groups(8)]
      fragment_run [OF fragment_groups(9)] runtime_rate_limit_def runtime_governance_def del: json_run.simps(2))

lemma closed_JsonResponse:
  assumes "closed_object s"
  shows "closed_object (rsp_body (JsonResponse s))"
proof -
  have "s \<noteq> []" using assms by (auto simp: closed_object_def)
  then show ?thesis
    using closed_ToJson [of "ApiResponse_Success s"] fragment_closed [OF assms]
    by (simp add: JsonResponse_def ApiResponse_Success_def)
qed

lemma closed_scan: "s \<noteq> [] \<Longrightarrow> closed_object (CHR ''{'' # s) \<longleftrightarrow> json_run s Plain 1 = Some (Plain, 0)"
  by (simp add: closed_object_def)

lemma closed_Runtime: "closed_object (rsp_body (Runtime h request))"
  unfolding Runtime_def Let_def
  by (rule closed_JsonResponse)
    (simp add: closed_scan scan fragment_groups [THEN fragment_run] fragment_nested [THEN fragment_run] del: json_run.simps(2))

lemma closed_Routes: "closed_object (rsp_body (Routes h request))"
proof -
  have "fragment (comma_sep (map (\<lambda>r. quoted (JsonEscape r)) (adm_exact_routes h)))"
    "fragment (comma_sep (map route_json (RouteRuleManager_ListRoutes (adm_gateway_routes h))))"
    by (rule fragment_comma_sep, auto)+
  note this [THEN fragment_run]
  then show ?thesis
    unfolding Routes_def by (intro closed_JsonResponse) (simp add: closed_scan scan del: json_run.simps(2))
qed

lemma closed_Features: "closed_object (rsp_body (Features h request))"
  unfolding Features_def Let_def
  by (rule closed_JsonResponse) (simp add: closed_scan scan scan_plain del: json_run.simps(2))

section \<open>Properties\<close>

text \<open>The configuration with other secrets: token key, database user and password.\<close>

definition with_secrets :: "string \<Rightarrow> string \<Rightarrow> string \<Rightarrow> AdminHandler \<Rightarrow> AdminHandler" where
  "with_secrets jwt_secret user password h =
     h\<lparr>adm_config := (adm_config h)
        \<lparr>app_auth := (app_auth (adm_config h))\<lparr>auth_jwt_secret := jwt_secret\<rparr>,
         app_mysql := (app_mysql (adm_config h))\<lparr>my_user := user, my_password := password\<rparr>\<rparr>\<rparr>"

lemma with_secrets_pages:
  "Runtime (with_secrets k u p h) request = Runtime h request" "Routes (with_secrets k u p h) request = Routes h request"
  "Features (with_secrets k u p h) request = Features h request"
  by (simp_all add: with_secrets_def Runtime_def Routes_def Features_def runtime_auth_def runtime_mysql_def Let_def)


end
