(* ===== verification/ConfigLoader.thy ===== *)
theory ConfigLoader
  imports Config
begin

text \<open>
  \<^verbatim>\<open>ConfigLoader::LoadFromFile\<close> of \<^verbatim>\<open>src/common/config.cc\<close>: the
  defaults, the sections of the YAML document in their order, and the checks after each. The
  YAML library is a parameter: what loading a file, subscripting a node, iterating a sequence
  and converting a scalar give, or the text of the exception they throw. All exceptions of
  the loader, the library's included, are \<^verbatim>\<open>std::runtime_error\<close>s; the left
  values are their texts. Subscripting is a function of the node because a node that
  \<^verbatim>\<open>operator[]\<close> turns into a map has no key before and after.
\<close>

section \<open>The YAML library\<close>

record 'n yaml =
  y_LoadFile :: "string \<Rightarrow> string + 'n"
  y_at :: "'n \<Rightarrow> string \<Rightarrow> string + 'n option"
  y_sequence :: "'n \<Rightarrow> 'n list option"
  y_string :: "'n \<Rightarrow> string + string"
  y_bool :: "'n \<Rightarrow> string + bool"
  y_int :: "'n \<Rightarrow> string + int"
  y_uint16 :: "'n \<Rightarrow> string + nat"
  y_size :: "'n \<Rightarrow> string + nat"
  y_double :: "'n \<Rightarrow> string + rat"

section \<open>Steps that may throw\<close>

definition and_then :: "'e + 'a \<Rightarrow> ('a \<Rightarrow> 'e + 'b) \<Rightarrow> 'e + 'b" where
  "and_then r f = (case r of Inl e \<Rightarrow> Inl e | Inr x \<Rightarrow> f x)"

primrec in_order :: "('c \<Rightarrow> 'e + 'c) list \<Rightarrow> 'c \<Rightarrow> 'e + 'c" where
  "in_order [] c = Inr c"
| "in_order (f # fs) c = and_then (f c) (in_order fs)"

primrec for_each :: "('n \<Rightarrow> 'e + 'a) \<Rightarrow> 'n list \<Rightarrow> 'e + 'a list" where
  "for_each f [] = Inr []"
| "for_each f (n # ns) = and_then (f n) (\<lambda>x. and_then (for_each f ns) (\<lambda>xs. Inr (x # xs)))"

definition reject :: "('c \<Rightarrow> bool) \<Rightarrow> ('c \<Rightarrow> string) \<Rightarrow> 'c \<Rightarrow> string + 'c" where
  "reject bad message c = (if bad c then Inl (message c) else Inr c)"

text \<open>\<^verbatim>\<open>GetOrDefault\<close>, with the conversion of its type; and the assignment of
  its result to a field whose old value is the default.\<close>

definition GetOrDefault :: "'n yaml \<Rightarrow> ('n \<Rightarrow> string + 'a) \<Rightarrow> 'n \<Rightarrow> string \<Rightarrow> 'a \<Rightarrow> string + 'a" where
  "GetOrDefault y as_type node key default_value =
     and_then (y_at y node key) (\<lambda>v. case v of None \<Rightarrow> Inr default_value | Some n \<Rightarrow> as_type n)"

definition assign ::
  "'n yaml \<Rightarrow> ('n \<Rightarrow> string + 'a) \<Rightarrow> 'n \<Rightarrow> string \<Rightarrow> ('c \<Rightarrow> 'a) \<Rightarrow> (('a \<Rightarrow> 'a) \<Rightarrow> 'c \<Rightarrow> 'c) \<Rightarrow> 'c \<Rightarrow> string + 'c" where
  "assign y as_type node key get update c =
     and_then (GetOrDefault y as_type node key (get c)) (\<lambda>v. Inr (update (\<lambda>_. v) c))"

text \<open>A section that is read only when it is there, and one that must then be a sequence.\<close>

definition if_present :: "'n yaml \<Rightarrow> 'n \<Rightarrow> string \<Rightarrow> ('n \<Rightarrow> 'c \<Rightarrow> string + 'c) \<Rightarrow> 'c \<Rightarrow> string + 'c" where
  "if_present y node key f c =
     and_then (y_at y node key) (\<lambda>v. case v of None \<Rightarrow> Inr c | Some n \<Rightarrow> f n c)"

definition elements :: "'n yaml \<Rightarrow> 'n \<Rightarrow> string \<Rightarrow> string + 'n list" where
  "elements y node message = (case y_sequence y node of None \<Rightarrow> Inl message | Some ns \<Rightarrow> Inr ns)"

section \<open>The sections\<close>

definition load_server :: "'n yaml \<Rightarrow> 'n \<Rightarrow> ServerConfig \<Rightarrow> string + ServerConfig" where
  "load_server y server = in_order
     [assign y (y_string y) server ''name'' srv_name srv_name_update,
      assign y (y_string y) server ''host'' srv_host srv_host_update,
      assign y (y_uint16 y) server ''port'' srv_port srv_port_update,
      assign y (y_bool y) server ''keep_alive'' srv_keep_alive srv_keep_alive_update,
      assign y (y_int y) server ''read_timeout_ms'' srv_read_timeout_ms srv_read_timeout_ms_update,
      assign y (y_int y) server ''write_timeout_ms'' srv_write_timeout_ms srv_write_timeout_ms_update,
      assign y (y_size y) server ''body_limit_bytes'' srv_body_limit_bytes srv_body_limit_bytes_update,
      reject (\<lambda>c. srv_read_timeout_ms c \<le> 0) (\<lambda>_. ''server.read_timeout_ms must be positive''),
      reject (\<lambda>c. srv_write_timeout_ms c \<le> 0) (\<lambda>_. ''server.write_timeout_ms must be positive''),
      reject (\<lambda>c. srv_body_limit_bytes c = 0) (\<lambda>_. ''server.body_limit_bytes must be positive'')]"

definition load_runtime :: "'n yaml \<Rightarrow> 'n \<Rightarrow> RuntimeConfig \<Rightarrow> string + RuntimeConfig" where
  "load_runtime y runtime = in_order
     [assign y (y_int y) runtime ''io_threads'' rt_io_threads rt_io_threads_update,
      assign y (y_int y) runtime ''worker_threads'' rt_worker_threads rt_worker_threads_update]"

definition load_log :: "'n yaml \<Rightarrow> 'n \<Rightarrow> LogConfig \<Rightarrow> string + LogConfig" where
  "load_log y log_node = in_order
     [assign y (y_string y) log_node ''level'' log_level log_level_update,
      assign y (y_string y) log_node ''path'' log_path log_path_update,
      assign y (y_bool y) log_node ''async'' log_async log_async_update]"

definition load_gateway :: "'n yaml \<Rightarrow> 'n \<Rightarrow> GatewayConfig \<Rightarrow> string + GatewayConfig" where
  "load_gateway y gateway = in_order
     [assign y (y_bool y) gateway ''enable_auth'' gw_enable_auth gw_enable_auth_update,
      assign y (y_bool y) gateway ''enable_rate_limit'' gw_enable_rate_limit gw_enable_rate_limit_update,
      assign y (y_bool y) gateway ''enable_tracing'' gw_enable_tracing gw_enable_tracing_update,
      assign y (y_int y) gateway ''request_timeout_ms'' gw_request_timeout_ms gw_request_timeout_ms_update]"

definition load_user_service_rpc :: "'n yaml \<Rightarrow> 'n \<Rightarrow> UserServiceRpcConfig \<Rightarrow> string + UserServiceRpcConfig" where
  "load_user_service_rpc y rpc = in_order
     [assign y (y_bool y) rpc ''enabled'' usr_enabled usr_enabled_update,
      assign y (y_string y) rpc ''host'' usr_host usr_host_update,
      assign y (y_uint16 y) rpc ''port'' usr_port usr_port_update,
      assign y (y_int y) rpc ''timeout_ms'' usr_timeout_ms usr_timeout_ms_update,
      reject (\<lambda>c. usr_timeout_ms c \<le> 0) (\<lambda>_. ''user_service_rpc.timeout_ms must be positive'')]"

definition load_mysql :: "'n yaml \<Rightarrow> 'n \<Rightarrow> MysqlConfig \<Rightarrow> string + MysqlConfig" where
  "load_mysql y mysql = in_order
     [assign y (y_bool y) mysql ''enabled'' my_enabled my_enabled_update,
      assign y (y_string y) mysql ''host'' my_host my_host_update,
      assign y (y_uint16 y) mysql ''port'' my_port my_port_update,
      assign y (y_string y) mysql ''user'' my_user my_user_update,
      assign y (y_string y) mysql ''password'' my_password my_password_update,
      assign y (y_string y) mysql ''database'' my_database my_database_update]"

definition load_public_path :: "'n yaml \<Rightarrow> 'n \<Rightarrow> string + string" where
  "load_public_path y item =
     and_then (y_string y item) (reject (\<lambda>p. p = []) (\<lambda>_. ''auth.public_paths cannot contain empty path''))"

definition load_auth :: "'n yaml \<Rightarrow> 'n \<Rightarrow> AuthConfig \<Rightarrow> string + AuthConfig" where
  "load_auth y auth = in_order
     [assign y (y_bool y) auth ''enabled'' auth_enabled auth_enabled_update,
      assign y (y_string y) auth ''jwt_secret'' auth_jwt_secret auth_jwt_secret_update,
      assign y (y_bool y) auth ''rbac_enabled'' auth_rbac_enabled auth_rbac_enabled_update,
      assign y (y_int y) auth ''token_ttl_seconds'' auth_token_ttl_seconds auth_token_ttl_seconds_update,
      if_present y auth ''public_paths'' (\<lambda>public_paths c.
        and_then (elements y public_paths ''auth.public_paths must be a yaml sequence'') (\<lambda>items.
        and_then (for_each (load_public_path y) items) (\<lambda>ps. Inr (c\<lparr>auth_public_paths := ps\<rparr>))))]"

definition load_rbac_rule :: "'n yaml \<Rightarrow> 'n \<Rightarrow> string + RbacRuleConfig" where
  "load_rbac_rule y item =
     and_then (GetOrDefault y (y_string y) item ''path'' []) (\<lambda>path.
     if path = [] then Inl ''rbac rule path cannot be empty''
     else and_then (y_at y item ''roles'') (\<lambda>roles.
     case roles of
       None \<Rightarrow> Inl ''rbac rule roles must be a yaml sequence''
     | Some node \<Rightarrow>
         and_then (elements y node ''rbac rule roles must be a yaml sequence'') (\<lambda>items.
         and_then (for_each (y_string y) items) (\<lambda>names.
         let rule = \<lparr>rbac_path = path, rbac_roles = filter (\<lambda>r. r \<noteq> []) names\<rparr> in
         if rbac_roles rule = [] then Inl (''rbac rule roles cannot be empty, path='' @ path) else Inr rule))))"

definition load_rbac :: "'n yaml \<Rightarrow> 'n \<Rightarrow> string + RbacRuleConfig list" where
  "load_rbac y rules = and_then (elements y rules ''rbac must be a yaml sequence'') (for_each (load_rbac_rule y))"

definition load_redis :: "'n yaml \<Rightarrow> 'n \<Rightarrow> RedisRateLimitConfig \<Rightarrow> string + RedisRateLimitConfig" where
  "load_redis y redis = in_order
     [assign y (y_bool y) redis ''enabled'' redis_enabled redis_enabled_update,
      assign y (y_string y) redis ''host'' redis_host redis_host_update,
      assign y (y_uint16 y) redis ''port'' redis_port redis_port_update,
      assign y (y_string y) redis ''key_prefix'' redis_key_prefix redis_key_prefix_update,
      assign y (y_bool y) redis ''fail_open'' redis_fail_open redis_fail_open_update]"

definition load_limit_rule :: "'n yaml \<Rightarrow> int \<Rightarrow> 'n \<Rightarrow> string + RateLimitRuleConfig" where
  "load_limit_rule y default_max item =
     and_then (GetOrDefault y (y_string y) item ''path'' []) (\<lambda>path.
     and_then (GetOrDefault y (y_int y) item ''max_requests'' default_max) (\<lambda>n.
     if path = [] then Inl ''rate_limit rule path cannot be empty''
     else if n \<le> 0 then Inl (''rate_limit max_requests must be positive, path='' @ path)
     else Inr \<lparr>rl_rule_path = path, rl_rule_max_requests = n\<rparr>))"

definition load_rate_limit :: "'n yaml \<Rightarrow> 'n \<Rightarrow> RateLimitConfig \<Rightarrow> string + RateLimitConfig" where
  "load_rate_limit y rate_limit = in_order
     [assign y (y_bool y) rate_limit ''enabled'' rl_enabled rl_enabled_update,
      assign y (y_int y) rate_limit ''window_seconds'' rl_window_seconds rl_window_seconds_update,
      assign y (y_int y) rate_limit ''default_max_requests'' rl_default_max_requests rl_default_max_requests_update,
      if_present y rate_limit ''redis'' (\<lambda>redis c.
        and_then (load_redis y redis (rl_redis c)) (\<lambda>r. Inr (c\<lparr>rl_redis := r\<rparr>))),
      if_present y rate_limit ''rules'' (\<lambda>rules c.
        and_then (elements y rules ''rate_limit.rules must be a yaml sequence'') (\<lambda>items.
        and_then (for_each (load_limit_rule y (rl_default_max_requests c)) items) (\<lambda>rs. Inr (c\<lparr>rl_rules := rs\<rparr>))))]"

definition load_retry :: "'n yaml \<Rightarrow> 'n \<Rightarrow> RetryConfig \<Rightarrow> string + RetryConfig" where
  "load_retry y retry = in_order
     [assign y (y_bool y) retry ''enabled'' retry_enabled retry_enabled_update,
      assign y (y_int y) retry ''max_attempts'' retry_max_attempts retry_max_attempts_update,
      assign y (y_int y) retry ''backoff_ms'' retry_backoff_ms retry_backoff_ms_update,
      assign y (y_bool y) retry ''retry_non_idempotent'' retry_non_idempotent retry_non_idempotent_update,
      reject (\<lambda>c. retry_max_attempts c \<le> 0) (\<lambda>_. ''governance.retry.max_attempts must be positive''),
      reject (\<lambda>c. retry_backoff_ms c < 0) (\<lambda>_. ''governance.retry.backoff_ms cannot be negative'')]"

definition load_circuit_breaker :: "'n yaml \<Rightarrow> 'n \<Rightarrow> CircuitBreakerConfig \<Rightarrow> string + CircuitBreakerConfig" where
  "load_circuit_breaker y cb = in_order
     [assign y (y_bool y) cb ''enabled'' cb_enabled cb_enabled_update,
      assign y (y_int y) cb ''failure_threshold'' cb_failure_threshold cb_failure_threshold_update,
      assign y (y_int y) cb ''open_seconds'' cb_open_seconds cb_open_seconds_update,
      assign y (y_int y) cb ''half_open_success_threshold'' cb_half_open_success_threshold
        cb_half_open_success_threshold_update,
      reject (\<lambda>c. cb_failure_threshold c \<le> 0) (\<lambda>_. ''governance.circuit_breaker.failure_threshold must be positive''),
      reject (\<lambda>c. cb_open_seconds c \<le> 0) (\<lambda>_. ''governance.circuit_breaker.open_seconds must be positive''),
      reject (\<lambda>c. cb_half_open_success_threshold c \<le> 0)
        (\<lambda>_. ''governance.circuit_breaker.half_open_success_threshold must be positive'')]"

definition load_fallback :: "'n yaml \<Rightarrow> 'n \<Rightarrow> FallbackConfig \<Rightarrow> string + FallbackConfig" where
  "load_fallback y fallback = in_order
     [assign y (y_bool y) fallback ''enabled'' fb_enabled fb_enabled_update,
      assign y (y_string y) fallback ''message'' fb_message fb_message_update]"

definition load_governance :: "'n yaml \<Rightarrow> 'n \<Rightarrow> GovernanceConfig \<Rightarrow> string + GovernanceConfig" where
  "load_governance y governance = in_order
     [assign y (y_bool y) governance ''enabled'' gov_enabled gov_enabled_update,
      if_present y governance ''retry'' (\<lambda>n c.
        and_then (load_retry y n (gov_retry c)) (\<lambda>v. Inr (c\<lparr>gov_retry := v\<rparr>))),
      if_present y governance ''circuit_breaker'' (\<lambda>n c.
        and_then (load_circuit_breaker y n (gov_circuit_breaker c)) (\<lambda>v. Inr (c\<lparr>gov_circuit_breaker := v\<rparr>))),
      if_present y governance ''fallback'' (\<lambda>n c.
        and_then (load_fallback y n (gov_fallback c)) (\<lambda>v. Inr (c\<lparr>gov_fallback := v\<rparr>)))]"

definition load_tracing :: "'n yaml \<Rightarrow> 'n \<Rightarrow> TracingConfig \<Rightarrow> string + TracingConfig" where
  "load_tracing y tracing = in_order
     [assign y (y_bool y) tracing ''enabled'' tr_enabled tr_enabled_update,
      assign y (y_string y) tracing ''service_name'' tr_service_name tr_service_name_update,
      assign y (y_double y) tracing ''sample_ratio'' tr_sample_ratio tr_sample_ratio_update,
      assign y (y_size y) tracing ''max_finished_spans'' tr_max_finished_spans tr_max_finished_spans_update,
      assign y (y_bool y) tracing ''accept_traceparent'' tr_accept_traceparent tr_accept_traceparent_update,
      assign y (y_bool y) tracing ''expose_debug_headers'' tr_expose_debug_headers tr_expose_debug_headers_update,
      assign y (y_bool y) tracing ''otlp_exporter_enabled'' tr_otlp_exporter_enabled tr_otlp_exporter_enabled_update,
      assign y (y_string y) tracing ''otlp_host'' tr_otlp_host tr_otlp_host_update,
      assign y (y_uint16 y) tracing ''otlp_http_port'' tr_otlp_http_port tr_otlp_http_port_update,
      assign y (y_string y) tracing ''otlp_path'' tr_otlp_path tr_otlp_path_update,
      assign y (y_int y) tracing ''otlp_timeout_ms'' tr_otlp_timeout_ms tr_otlp_timeout_ms_update,
      reject (\<lambda>c. tr_sample_ratio c < 0 \<or> tr_sample_ratio c > 1)
        (\<lambda>_. ''tracing.sample_ratio must be between 0.0 and 1.0''),
      reject (\<lambda>c. tr_max_finished_spans c = 0) (\<lambda>_. ''tracing.max_finished_spans must be positive''),
      reject (\<lambda>c. tr_otlp_timeout_ms c \<le> 0) (\<lambda>_. ''tracing.otlp_timeout_ms must be positive'')]"

definition load_route :: "'n yaml \<Rightarrow> 'n \<Rightarrow> string + RouteConfig" where
  "load_route y item = in_order
     [assign y (y_string y) item ''name'' rc_name rc_name_update,
      assign y (y_string y) item ''match_type'' rc_match_type rc_match_type_update,
      assign y (y_string y) item ''path'' rc_path rc_path_update,
      assign y (y_string y) item ''upstream'' rc_upstream rc_upstream_update,
      assign y (y_bool y) item ''strip_prefix'' rc_strip_prefix rc_strip_prefix_update,
      assign y (y_int y) item ''timeout_ms'' rc_timeout_ms rc_timeout_ms_update,
      reject (\<lambda>r. rc_name r = []) (\<lambda>_. ''route name cannot be empty''),
      reject (\<lambda>r. rc_path r = []) (\<lambda>r. ''route path cannot be empty, route='' @ rc_name r),
      reject (\<lambda>r. rc_upstream r = []) (\<lambda>r. ''route upstream cannot be empty, route='' @ rc_name r),
      reject (\<lambda>r. rc_timeout_ms r \<le> 0) (\<lambda>r. ''route timeout_ms must be positive, route='' @ rc_name r)]
     RouteConfig_default"

definition load_routes :: "'n yaml \<Rightarrow> 'n \<Rightarrow> string + RouteConfig list" where
  "load_routes y routes = and_then (elements y routes ''routes must be a yaml sequence'') (for_each (load_route y))"

section \<open>The loader\<close>

text \<open>Between the sections the switches of the gateway section become the defaults of the features.\<close>

definition load_sections :: "'n yaml \<Rightarrow> 'n \<Rightarrow> AppConfig \<Rightarrow> string + AppConfig" where
  "load_sections y document = in_order
     [if_present y document ''server'' (\<lambda>n c. and_then (load_server y n (app_server c)) (\<lambda>v. Inr (c\<lparr>app_server := v\<rparr>))),
      if_present y document ''runtime'' (\<lambda>n c. and_then (load_runtime y n (app_runtime c)) (\<lambda>v. Inr (c\<lparr>app_runtime := v\<rparr>))),
      if_present y document ''log'' (\<lambda>n c. and_then (load_log y n (app_log c)) (\<lambda>v. Inr (c\<lparr>app_log := v\<rparr>))),
      if_present y document ''gateway'' (\<lambda>n c. and_then (load_gateway y n (app_gateway c)) (\<lambda>v. Inr (c\<lparr>app_gateway := v\<rparr>))),
      if_present y document ''user_service_rpc'' (\<lambda>n c.
        and_then (load_user_service_rpc y n (app_user_service_rpc c)) (\<lambda>v. Inr (c\<lparr>app_user_service_rpc := v\<rparr>))),
      if_present y document ''mysql'' (\<lambda>n c. and_then (load_mysql y n (app_mysql c)) (\<lambda>v. Inr (c\<lparr>app_mysql := v\<rparr>))),
      (\<lambda>c. Inr (c\<lparr>app_auth := (app_auth c)\<lparr>auth_enabled := gw_enable_auth (app_gateway c)\<rparr>\<rparr>)),
      if_present y document ''auth'' (\<lambda>n c. and_then (load_auth y n (app_auth c)) (\<lambda>v. Inr (c\<lparr>app_auth := v\<rparr>))),
      if_present y document ''rbac'' (\<lambda>n c. and_then (load_rbac y n) (\<lambda>v. Inr (c\<lparr>app_rbac_rules := v\<rparr>))),
      (\<lambda>c. Inr (c\<lparr>app_rate_limit := (app_rate_limit c)\<lparr>rl_enabled := gw_enable_rate_limit (app_gateway c)\<rparr>\<rparr>)),
      if_present y document ''rate_limit'' (\<lambda>n c.
        and_then (load_rate_limit y n (app_rate_limit c)) (\<lambda>v. Inr (c\<lparr>app_rate_limit := v\<rparr>))),
      if_present y document ''governance'' (\<lambda>n c.
        and_then (load_governance y n (app_governance c)) (\<lambda>v. Inr (c\<lparr>app_governance := v\<rparr>))),
      (\<lambda>c. Inr (c\<lparr>app_tracing := (app_tracing c)\<lparr>tr_enabled := gw_enable_tracing (app_gateway c)\<rparr>\<rparr>)),
      if_present y document ''tracing'' (\<lambda>n c. and_then (load_tracing y n (app_tracing c)) (\<lambda>v. Inr (c\<lparr>app_tracing := v\<rparr>))),
      if_present y document ''routes'' (\<lambda>n c.
        and_then (load_routes y n) (\<lambda>v. Inr (c\<lparr>app_routes := app_routes c @ v\<rparr>)))]"

definition LoadFromFile :: "'n yaml \<Rightarrow> string \<Rightarrow> string + AppConfig" where
  "LoadFromFile y path =
     (case y_LoadFile y path of
        Inl msg \<Rightarrow> Inl (''failed to load config file: '' @ path @ '', error: '' @ msg)
      | Inr document \<Rightarrow> load_sections y document AppConfig_default)"


section \<open>What the steps keep\<close>

lemma and_then_Inr [simp]: "and_then (Inr x) f = f x"
  by (simp add: and_then_def)

lemma and_then_Inl [simp]: "and_then (Inl e) f = Inl e"
  by (simp add: and_then_def)

lemma and_then_eq_Inr [simp]: "and_then r f = Inr z \<longleftrightarrow> (\<exists>x. r = Inr x \<and> f x = Inr z)"
  by (cases r) auto

lemma reject_eq_Inr [simp]: "reject bad message c = Inr c' \<longleftrightarrow> \<not> bad c \<and> c' = c"
  by (auto simp: reject_def)

lemma assign_eq_Inr: "assign y as_type n key get update c = Inr c' \<Longrightarrow> \<exists>v. c' = update (\<lambda>_. v) c"
  by (auto simp: assign_def)

lemma if_present_eq_Inr: "if_present y n key f c = Inr c' \<Longrightarrow> c' = c \<or> (\<exists>m. f m c = Inr c')"
  by (auto simp: if_present_def split: option.splits)

lemma for_each_all:
  assumes "\<And>n x. f n = Inr x \<Longrightarrow> P x"
  shows "for_each f ns = Inr xs \<Longrightarrow> list_all P xs"
  by (induction ns arbitrary: xs) (auto intro: assms)

text \<open>A relation that every step keeps is kept by all of them in order.\<close>

definition keeps :: "('c \<Rightarrow> bool) \<Rightarrow> ('c \<Rightarrow> 'e + 'c) \<Rightarrow> bool" where
  "keeps P f \<longleftrightarrow> (\<forall>c c'. P c \<longrightarrow> f c = Inr c' \<longrightarrow> P c')"

lemma keepsI: "(\<And>c c'. P c \<Longrightarrow> f c = Inr c' \<Longrightarrow> P c') \<Longrightarrow> keeps P f"
  by (simp add: keeps_def)

lemma keepsD: "keeps P f \<Longrightarrow> f c = Inr c' \<Longrightarrow> P c \<Longrightarrow> P c'"
  by (simp add: keeps_def)

lemma keeps_in_order_Nil: "keeps P (in_order [])"
  by (simp add: keeps_def)

lemma keeps_in_order_Cons: "keeps P f \<Longrightarrow> keeps P (in_order fs) \<Longrightarrow> keeps P (in_order (f # fs))"
  unfolding keeps_def in_order.simps and_then_eq_Inr by blast

lemma keeps_if_present: "(\<And>n. keeps P (f n)) \<Longrightarrow> keeps P (if_present y n key f)"
  by (rule keepsI, drule if_present_eq_Inr) (auto dest: keepsD)

lemma keeps_assign: "(\<And>v c. P c \<Longrightarrow> P (update (\<lambda>_. v) c)) \<Longrightarrow> keeps P (assign y as_type n key get update)"
  by (rule keepsI, drule assign_eq_Inr) auto

lemmas keeps_steps = keeps_in_order_Nil keeps_in_order_Cons keeps_if_present keeps_assign

section \<open>Loaded configurations are valid\<close>

definition valid_server :: "ServerConfig \<Rightarrow> bool" where
  "valid_server c \<longleftrightarrow> 0 < srv_read_timeout_ms c \<and> 0 < srv_write_timeout_ms c \<and> 0 < srv_body_limit_bytes c"

definition valid_retry :: "RetryConfig \<Rightarrow> bool" where
  "valid_retry c \<longleftrightarrow> 0 < retry_max_attempts c \<and> 0 \<le> retry_backoff_ms c"

definition valid_breaker :: "CircuitBreakerConfig \<Rightarrow> bool" where
  "valid_breaker c \<longleftrightarrow> 0 < cb_failure_threshold c \<and> 0 < cb_open_seconds c \<and> 0 < cb_half_open_success_threshold c"

definition valid_governance :: "GovernanceConfig \<Rightarrow> bool" where
  "valid_governance c \<longleftrightarrow> valid_retry (gov_retry c) \<and> valid_breaker (gov_circuit_breaker c)"

definition valid_tracing :: "TracingConfig \<Rightarrow> bool" where
  "valid_tracing c \<longleftrightarrow> 0 \<le> tr_sample_ratio c \<and> tr_sample_ratio c \<le> 1 \<and> 0 < tr_max_finished_spans c \<and> 0 < tr_otlp_timeout_ms c"

definition valid_rbac_rule :: "RbacRuleConfig \<Rightarrow> bool" where
  "valid_rbac_rule r \<longleftrightarrow> rbac_path r \<noteq> [] \<and> rbac_roles r \<noteq> [] \<and> [] \<notin> set (rbac_roles r)"

definition valid_limit_rule :: "RateLimitRuleConfig \<Rightarrow> bool" where
  "valid_limit_rule r \<longleftrightarrow> rl_rule_path r \<noteq> [] \<and> 0 < rl_rule_max_requests r"

definition valid_route :: "RouteConfig \<Rightarrow> bool" where
  "valid_route r \<longleftrightarrow> rc_name r \<noteq> [] \<and> rc_path r \<noteq> [] \<and> rc_upstream r \<noteq> [] \<and> 0 < rc_timeout_ms r"

definition valid_config :: "AppConfig \<Rightarrow> bool" where
  "valid_config c \<longleftrightarrow> valid_server (app_server c) \<and> 0 < usr_timeout_ms (app_user_service_rpc c) \<and>
     list_all (\<lambda>p. p \<noteq> []) (auth_public_paths (app_auth c)) \<and> list_all valid_rbac_rule (app_rbac_rules c) \<and>
     list_all valid_limit_rule (rl_rules (app_rate_limit c)) \<and> valid_governance (app_governance c) \<and>
     valid_tracing (app_tracing c) \<and> list_all valid_route (app_routes c)"

lemmas valid_defs = valid_server_def valid_retry_def valid_breaker_def valid_governance_def valid_tracing_def
  valid_rbac_rule_def valid_limit_rule_def valid_route_def

lemma load_server_valid: "load_server y n c = Inr c' \<Longrightarrow> valid_server c'"
  by (auto simp: load_server_def valid_server_def)

lemma load_user_service_rpc_valid: "load_user_service_rpc y n c = Inr c' \<Longrightarrow> 0 < usr_timeout_ms c'"
  by (auto simp: load_user_service_rpc_def)

lemma load_retry_valid: "load_retry y n c = Inr c' \<Longrightarrow> valid_retry c'"
  by (auto simp: load_retry_def valid_retry_def)

lemma load_circuit_breaker_valid: "load_circuit_breaker y n c = Inr c' \<Longrightarrow> valid_breaker c'"
  by (auto simp: load_circuit_breaker_def valid_breaker_def)

lemma load_tracing_valid: "load_tracing y n c = Inr c' \<Longrightarrow> valid_tracing c'"
  by (auto simp: load_tracing_def valid_tracing_def)

lemma load_route_valid: "load_route y n = Inr r \<Longrightarrow> valid_route r"
  by (auto simp: load_route_def valid_route_def)

lemma load_rbac_rule_valid: "load_rbac_rule y n = Inr r \<Longrightarrow> valid_rbac_rule r"
  by (auto simp: load_rbac_rule_def valid_rbac_rule_def Let_def split: if_splits option.splits)

lemma load_limit_rule_valid: "load_limit_rule y m n = Inr r \<Longrightarrow> valid_limit_rule r"
  by (auto simp: load_limit_rule_def valid_limit_rule_def split: if_splits)

lemma load_rbac_valid: "load_rbac y n = Inr rs \<Longrightarrow> list_all valid_rbac_rule rs"
  by (auto simp: load_rbac_def intro: for_each_all load_rbac_rule_valid)

lemma load_routes_valid: "load_routes y n = Inr rs \<Longrightarrow> list_all valid_route rs"
  by (auto simp: load_routes_def intro: for_each_all load_route_valid)

lemma load_public_paths_valid: "for_each (load_public_path y) ns = Inr ps \<Longrightarrow> list_all (\<lambda>p. p \<noteq> []) ps"
  by (rule for_each_all) (auto simp: load_public_path_def)

lemma load_limit_rules_valid: "for_each (load_limit_rule y m) ns = Inr rs \<Longrightarrow> list_all valid_limit_rule rs"
  by (rule for_each_all) (auto intro: load_limit_rule_valid)

lemma load_auth_keeps: "keeps (\<lambda>c. list_all (\<lambda>p. p \<noteq> []) (auth_public_paths c)) (load_auth y n)"
  unfolding load_auth_def
  by (intro keeps_steps; simp?; rule keepsI) (auto dest: load_public_paths_valid)

lemma load_rate_limit_keeps: "keeps (\<lambda>c. list_all valid_limit_rule (rl_rules c)) (load_rate_limit y n)"
  unfolding load_rate_limit_def
  by (intro keeps_steps; simp?; rule keepsI) (auto dest: load_limit_rules_valid)

lemma load_governance_keeps: "keeps valid_governance (load_governance y n)"
  unfolding load_governance_def
  by (intro keeps_steps; (simp add: valid_governance_def)?; rule keepsI)
    (auto simp: valid_governance_def dest: load_retry_valid load_circuit_breaker_valid)

lemma valid_default: "valid_config AppConfig_default"
  by (simp add: valid_config_def valid_defs AppConfig_default_def ServerConfig_default_def
      UserServiceRpcConfig_default_def AuthConfig_default_def RateLimitConfig_default_def
      GovernanceConfig_default_def RetryConfig_default_def CircuitBreakerConfig_default_def
      TracingConfig_default_def)

lemma load_sections_keeps: "keeps valid_config (load_sections y document)"
  unfolding load_sections_def
  by (intro keeps_steps; rule keepsI)
    (auto simp: valid_config_def valid_tracing_def dest: load_server_valid load_user_service_rpc_valid load_rbac_valid
      load_tracing_valid load_routes_valid keepsD [OF load_auth_keeps] keepsD [OF load_rate_limit_keeps]
      keepsD [OF load_governance_keeps])

section \<open>A small YAML library\<close>

text \<open>Documents whose scalars are already of the right type, to apply the loader to.\<close>

datatype ynode = YString string | YBool bool | YInt int | YSeq "ynode list" | YMap "(string \<times> ynode) list"

definition small_yaml :: "ynode \<Rightarrow> ynode yaml" where
  "small_yaml document =
     \<lparr>y_LoadFile = (\<lambda>path. if path = ''gateway.yaml'' then Inr document else Inl ''bad file''),
      y_at = (\<lambda>n key. case n of YMap kvs \<Rightarrow> Inr (map_of kvs key) | YSeq _ \<Rightarrow> Inr None
                | _ \<Rightarrow> Inl ''operator[] call on a scalar''),
      y_sequence = (\<lambda>n. case n of YSeq ns \<Rightarrow> Some ns | _ \<Rightarrow> None),
      y_string = (\<lambda>n. case n of YString s \<Rightarrow> Inr s | _ \<Rightarrow> Inl ''bad conversion''),
      y_bool = (\<lambda>n. case n of YBool b \<Rightarrow> Inr b | _ \<Rightarrow> Inl ''bad conversion''),
      y_int = (\<lambda>n. case n of YInt i \<Rightarrow> Inr i | _ \<Rightarrow> Inl ''bad conversion''),
      y_uint16 = (\<lambda>n. case n of YInt i \<Rightarrow> Inr (nat i) | _ \<Rightarrow> Inl ''bad conversion''),
      y_size = (\<lambda>n. case n of YInt i \<Rightarrow> Inr (nat i) | _ \<Rightarrow> Inl ''bad conversion''),
      y_double = (\<lambda>n. case n of YInt i \<Rightarrow> Inr (of_int i) | _ \<Rightarrow> Inl ''bad conversion'')\<rparr>"

definition demo_document :: ynode where
  "demo_document = YMap
     [(''gateway'', YMap [(''enable_auth'', YBool False), (''enable_tracing'', YBool False)]),
      (''tracing'', YMap [(''enabled'', YBool True)]),
      (''routes'', YSeq [YMap [(''name'', YString ''user''), (''path'', YString ''/api/user''),
         (''upstream'', YString ''UserService''), (''timeout_ms'', YInt 500)]])]"

definition demo_config :: AppConfig where
  "demo_config = AppConfig_default
     \<lparr>app_gateway := GatewayConfig_default\<lparr>gw_enable_auth := False, gw_enable_tracing := False\<rparr>,
      app_auth := AuthConfig_default\<lparr>auth_enabled := False\<rparr>,
      app_routes := [\<lparr>rc_name = ''user'', rc_match_type = ''prefix'', rc_path = ''/api/user'',
        rc_upstream = ''UserService'', rc_strip_prefix = True, rc_timeout_ms = 500\<rparr>]\<rparr>"

lemma demo_config_loads: "LoadFromFile (small_yaml demo_document) ''gateway.yaml'' = Inr demo_config"
  by (simp add: LoadFromFile_def small_yaml_def demo_document_def load_sections_def if_present_def
      load_gateway_def load_tracing_def load_routes_def load_route_def assign_def GetOrDefault_def elements_def
      reject_def demo_config_def AppConfig_default_def GatewayConfig_default_def AuthConfig_default_def
      RateLimitConfig_default_def TracingConfig_default_def RouteConfig_default_def)

lemma LoadFromFile_valid: "LoadFromFile y path = Inr c \<Longrightarrow> valid_config c"
  using keepsD [OF load_sections_keeps _ valid_default] by (auto simp: LoadFromFile_def split: sum.splits)

section \<open>Properties\<close>



text \<open>The Boolean under a key of a node or of a section, when it is given.\<close>

definition switch_at :: "'n yaml \<Rightarrow> 'n \<Rightarrow> string \<Rightarrow> bool option" where
  "switch_at y n key =
     (case y_at y n key of
        Inr (Some v) \<Rightarrow> (case y_bool y v of Inr b \<Rightarrow> Some b | Inl _ \<Rightarrow> None)
      | _ \<Rightarrow> None)"

definition given_switch :: "'n yaml \<Rightarrow> 'n \<Rightarrow> string \<Rightarrow> string \<Rightarrow> bool option" where
  "given_switch y document sec key = (case y_at y document sec of Inr (Some n) \<Rightarrow> switch_at y n key | _ \<Rightarrow> None)"

definition or_else :: "'a option \<Rightarrow> 'a \<Rightarrow> 'a" where
  "or_else a b = (case a of Some x \<Rightarrow> x | None \<Rightarrow> b)"

text \<open>A step that sets a field to the switch or else to its old value, in a list of steps that leave it alone.\<close>

definition switches :: "('c \<Rightarrow> bool) \<Rightarrow> bool option \<Rightarrow> ('c \<Rightarrow> string + 'c) \<Rightarrow> bool" where
  "switches get sw f \<longleftrightarrow> (\<forall>c c'. f c = Inr c' \<longrightarrow> get c' = or_else sw (get c))"

definition leaves :: "('c \<Rightarrow> 'a) \<Rightarrow> ('c \<Rightarrow> string + 'c) \<Rightarrow> bool" where
  "leaves get f \<longleftrightarrow> (\<forall>c c'. f c = Inr c' \<longrightarrow> get c' = get c)"

lemma leavesI: "(\<And>c c'. f c = Inr c' \<Longrightarrow> get c' = get c) \<Longrightarrow> leaves get f"
  by (simp add: leaves_def)

lemma leaves_Nil: "leaves get (in_order [])"
  by (simp add: leaves_def)

lemma leaves_Cons: "leaves get f \<Longrightarrow> leaves get (in_order fs) \<Longrightarrow> leaves get (in_order (f # fs))"
  unfolding leaves_def in_order.simps and_then_eq_Inr by metis

lemma leaves_if_present: "(\<And>n. leaves get (f n)) \<Longrightarrow> leaves get (if_present y n key f)"
  by (rule leavesI, drule if_present_eq_Inr) (auto simp: leaves_def)

lemma leaves_assign: "(\<And>v c. get (update (\<lambda>_. v) c) = get c) \<Longrightarrow> leaves get (assign y as_type n key g update)"
  by (rule leavesI, drule assign_eq_Inr) auto

lemmas leaves_steps = leaves_Nil leaves_Cons leaves_if_present leaves_assign

lemma switches_assign:
  "(\<And>v c. get (update (\<lambda>_. v) c) = v) \<Longrightarrow> switches get (switch_at y n key) (assign y (y_bool y) n key get update)"
  by (auto simp: switches_def assign_def GetOrDefault_def switch_at_def or_else_def split: option.splits)

lemma switches_first: "switches get sw f \<Longrightarrow> leaves get (in_order fs) \<Longrightarrow> switches get sw (in_order (f # fs))"
  unfolding switches_def leaves_def in_order.simps and_then_eq_Inr by metis

lemma switches_later:
  assumes "leaves get f" "switches get sw (in_order fs)"
  shows "switches get sw (in_order (f # fs))"
  unfolding switches_def in_order.simps and_then_eq_Inr
proof (intro allI impI, elim exE conjE)
  fix c c' x
  assume "f c = Inr x" "in_order fs x = Inr c'"
  then have "get x = get c" "get c' = or_else sw (get x)"
    using assms unfolding leaves_def switches_def by blast+
  then show "get c' = or_else sw (get c)" by simp
qed

lemma switches_section:
  assumes "\<And>n. switches get (switch_at y n key) (load n)" "\<And>v c. part (update (\<lambda>_. v) c) = v"
  shows "switches (\<lambda>c. get (part c)) (given_switch y document sec key)
    (if_present y document sec (\<lambda>n c. and_then (load n (part c)) (\<lambda>v. Inr (update (\<lambda>_. v) c))))"
  using assms by (auto simp: switches_def if_present_def given_switch_def or_else_def split: option.splits)

lemma load_auth_switches: "switches auth_enabled (switch_at y n ''enabled'') (load_auth y n)"
  unfolding load_auth_def
  by (intro switches_first switches_assign leaves_steps; simp?; rule leavesI) auto

lemma load_rate_limit_switches: "switches rl_enabled (switch_at y n ''enabled'') (load_rate_limit y n)"
  unfolding load_rate_limit_def
  by (intro switches_first switches_assign leaves_steps; simp?; rule leavesI) auto

lemma load_tracing_switches: "switches tr_enabled (switch_at y n ''enabled'') (load_tracing y n)"
  unfolding load_tracing_def
  by (intro switches_first switches_assign leaves_steps; simp?; rule leavesI) auto

lemma load_gateway_switches:
  "switches gw_enable_auth (switch_at y n ''enable_auth'') (load_gateway y n)"
  "switches gw_enable_rate_limit (switch_at y n ''enable_rate_limit'') (load_gateway y n)"
  "switches gw_enable_tracing (switch_at y n ''enable_tracing'') (load_gateway y n)"
  unfolding load_gateway_def
    apply (intro switches_first switches_assign leaves_steps; simp)
   apply (rule switches_later [OF leaves_assign]; (intro switches_first switches_assign leaves_steps)?; simp)
  apply (rule switches_later [OF leaves_assign]; simp?)
  apply (rule switches_later [OF leaves_assign]; (intro switches_first switches_assign leaves_steps)?; simp)
  done

text \<open>A feature switch that is first set from the gateway section and then by its own section.\<close>

definition ensures :: "('c \<Rightarrow> bool) \<Rightarrow> ('c \<Rightarrow> string + 'c) \<Rightarrow> bool" where
  "ensures P f \<longleftrightarrow> (\<forall>c c'. f c = Inr c' \<longrightarrow> P c')"

lemma ensures_later: "ensures P (in_order fs) \<Longrightarrow> ensures P (in_order (f # fs))"
  by (auto simp: ensures_def)

lemma ensures_switch:
  assumes "\<And>c. own (update c) = general c \<and> general (update c) = general c"
    and "switches own sw sec" "leaves general sec" "leaves own (in_order fs)" "leaves general (in_order fs)"
  shows "ensures (\<lambda>c. own c = or_else sw (general c)) (in_order ((\<lambda>c. Inr (update c)) # sec # fs))"
  unfolding ensures_def in_order.simps and_then_eq_Inr
proof (intro allI impI, elim exE conjE)
  fix c c' x x'
  assume "Inr (update c) = (Inr x :: string + 'a)" "sec x = Inr x'" "in_order fs x' = Inr c'"
  then have "x = update c" "own x' = or_else sw (own x)" "general x' = general x" "own c' = own x'" "general c' = general x'"
    using assms(2-5) unfolding switches_def leaves_def by blast+
  then show "own c' = or_else sw (general c')" using assms(1) [of c] by simp
qed

lemmas ensures_later3 = ensures_later [OF ensures_later [OF ensures_later]]
lemmas leaves_sections = leaves_Nil leaves_Cons leaves_if_present

lemma auth_switch: "ensures (\<lambda>c. auth_enabled (app_auth c) =
    or_else (given_switch y document ''auth'' ''enabled'') (gw_enable_auth (app_gateway c))) (load_sections y document)"
  unfolding load_sections_def
  by (rule ensures_later3, rule ensures_later3, rule ensures_switch, simp,
      rule switches_section [OF load_auth_switches], simp)
    (intro leaves_sections; rule leavesI; auto)+

lemma rate_limit_switch: "ensures (\<lambda>c. rl_enabled (app_rate_limit c) =
    or_else (given_switch y document ''rate_limit'' ''enabled'') (gw_enable_rate_limit (app_gateway c))) (load_sections y document)"
  unfolding load_sections_def
  by (rule ensures_later3, rule ensures_later3, rule ensures_later3, rule ensures_switch, simp,
      rule switches_section [OF load_rate_limit_switches], simp)
    (intro leaves_sections; rule leavesI; auto)+

lemma tracing_switch: "ensures (\<lambda>c. tr_enabled (app_tracing c) =
    or_else (given_switch y document ''tracing'' ''enabled'') (gw_enable_tracing (app_gateway c))) (load_sections y document)"
  unfolding load_sections_def
  by (rule ensures_later3, rule ensures_later3, rule ensures_later3, rule ensures_later3, rule ensures_switch, simp,
      rule switches_section [OF load_tracing_switches], simp)
    (intro leaves_sections; rule leavesI; auto)+

lemma gateway_switch:
  assumes "\<And>n. switches get (switch_at y n key) (load_gateway y n)"
  shows "switches (\<lambda>c. get (app_gateway c)) (given_switch y document ''gateway'' key) (load_sections y document)"
  unfolding load_sections_def
  by (rule switches_later, rule leaves_if_present, rule leavesI, force,
      rule switches_later, rule leaves_if_present, rule leavesI, force,
      rule switches_later, rule leaves_if_present, rule leavesI, force,
      rule switches_first, rule switches_section [OF assms], simp)
    (intro leaves_sections; rule leavesI; auto)

text \<open>
  A feature is on exactly when its own section says so; where that section is silent the
  switch of the gateway section decides, and without that it is on. This holds for
  authentication, rate limiting and tracing in every file that loads.
\<close>

theorem feature_switches_resolve:
  assumes "y_LoadFile y path = Inr document" "LoadFromFile y path = Inr c"
  shows "auth_enabled (app_auth c) = or_else (given_switch y document ''auth'' ''enabled'')
      (or_else (given_switch y document ''gateway'' ''enable_auth'') True) \<and>
    rl_enabled (app_rate_limit c) = or_else (given_switch y document ''rate_limit'' ''enabled'')
      (or_else (given_switch y document ''gateway'' ''enable_rate_limit'') True) \<and>
    tr_enabled (app_tracing c) = or_else (given_switch y document ''tracing'' ''enabled'')
      (or_else (given_switch y document ''gateway'' ''enable_tracing'') True)"
proof -
  have l: "load_sections y document AppConfig_default = Inr c" using assms by (simp add: LoadFromFile_def)
  note own = auth_switch rate_limit_switch tracing_switch
  note general = load_gateway_switches [THEN gateway_switch]
  have "gw_enable_auth (app_gateway c) = or_else (given_switch y document ''gateway'' ''enable_auth'') True"
    "gw_enable_rate_limit (app_gateway c) = or_else (given_switch y document ''gateway'' ''enable_rate_limit'') True"
    "gw_enable_tracing (app_gateway c) = or_else (given_switch y document ''gateway'' ''enable_tracing'') True"
    using general [unfolded switches_def, rule_format, OF l]
    by (simp_all add: AppConfig_default_def GatewayConfig_default_def)
  with own [unfolded ensures_def, rule_format, OF l] show ?thesis by simp
qed

theorem feature_switches_resolve_witness:
  "\<not> auth_enabled (app_auth demo_config) \<and> rl_enabled (app_rate_limit demo_config) \<and> tr_enabled (app_tracing demo_config)"
proof -
  have "y_LoadFile (small_yaml demo_document) ''gateway.yaml'' = Inr demo_document" by (simp add: small_yaml_def)
  from feature_switches_resolve [OF this demo_config_loads] show ?thesis
    by (simp add: given_switch_def switch_at_def or_else_def small_yaml_def demo_document_def)
qed

end
