(* ===== verification/RemoteUsers.thy ===== *)
theory RemoteUsers
  imports Users Config
begin

text \<open>
  The user service over the network: the client of
  \<^verbatim>\<open>src/service/remote_user_service_client.cc\<close> and the server of
  \<^verbatim>\<open>src/service/user_service_server_main.cc\<close>, which exchange one line of JSON each
  way. The JSON library is a parameter (how values are built, printed, parsed and read, with
  its exceptions), and so is the socket of the client: what sending a line to a host and
  port gives back, up to and including the first line feed, or the exception of a failed
  connection. All exceptions are \<^verbatim>\<open>std::exception\<close>s that only their text matters of.
\<close>

section \<open>The JSON library\<close>

record 'j json_lib =
  jl_string :: "string \<Rightarrow> 'j"
  jl_int :: "int \<Rightarrow> 'j"
  jl_object :: "(string \<times> 'j) list \<Rightarrow> 'j"
  jl_dump :: "'j \<Rightarrow> string result"
  jl_parse :: "string \<Rightarrow> 'j result"
  jl_at :: "'j \<Rightarrow> string \<Rightarrow> 'j result"
  jl_contains :: "'j \<Rightarrow> string \<Rightarrow> bool"
  jl_value_string :: "'j \<Rightarrow> string \<Rightarrow> string \<Rightarrow> string result"
  jl_value_int :: "'j \<Rightarrow> string \<Rightarrow> int \<Rightarrow> int result"
  jl_value_int64 :: "'j \<Rightarrow> string \<Rightarrow> int \<Rightarrow> int result"

text \<open>The numbers of the codes, and the cast of a number to the open enumeration.\<close>

fun RpcCode_int :: "RpcCode \<Rightarrow> int" where
  "RpcCode_int RPC_OK = 0"
| "RpcCode_int RPC_INVALID_ARGUMENT = 1"
| "RpcCode_int RPC_UNAUTHORIZED = 2"
| "RpcCode_int RPC_NOT_FOUND = 3"
| "RpcCode_int RPC_TIMEOUT = 4"
| "RpcCode_int RPC_INTERNAL_ERROR = 5"
| "RpcCode_int (RPC_UNKNOWN n) = n"

definition RpcCode_cast :: "int \<Rightarrow> RpcCode" where
  "RpcCode_cast n =
     (if n = 0 then RPC_OK else if n = 1 then RPC_INVALID_ARGUMENT else if n = 2 then RPC_UNAUTHORIZED
      else if n = 3 then RPC_NOT_FOUND else if n = 4 then RPC_TIMEOUT else if n = 5 then RPC_INTERNAL_ERROR
      else RPC_UNKNOWN n)"

section \<open>The client\<close>

text \<open>The connection: host, port and the bytes written give the bytes read.\<close>

type_synonym 'n line_io = "string \<Rightarrow> nat \<Rightarrow> string \<Rightarrow> World \<Rightarrow> 'n \<Rightarrow> string result \<times> World \<times> 'n"

text \<open>\<^verbatim>\<open>std::getline\<close>: the text up to the first line feed.\<close>

definition getline :: "string \<Rightarrow> string" where
  "getline s = takeWhile (\<lambda>c. c \<noteq> LF) s"

definition Call ::
  "UserServiceRpcConfig \<Rightarrow> 'n line_io \<Rightarrow> string \<Rightarrow> RpcContext \<Rightarrow> World \<Rightarrow> 'n \<Rightarrow> string result \<times> RpcContext \<times> World \<times> 'n" where
  "Call cfg io payload ctx w n =
     (case rpc_DeadlineExceeded ctx w of (exceeded, w1) \<Rightarrow>
        if exceeded
        then (Inl (Runtime_error ''deadline exceeded before remote call''), rpc_CancelDeadline ''deadline exceeded'' ctx, w1, n)
        else case io (usr_host cfg) (usr_port cfg) (payload @ [LF]) w1 n of
          (Inl e, w2, n') \<Rightarrow> (Inl e, ctx, w2, n')
        | (Inr buffer, w2, n') \<Rightarrow>
            (let line = getline buffer
             in if line = [] then (Inl (Runtime_error ''remote user service returned empty response''), ctx, w2, n')
                else (Inr line, ctx, w2, n')))"

definition FillMetaFromJson :: "'j json_lib \<Rightarrow> 'j \<Rightarrow> RpcContext \<Rightarrow> World \<Rightarrow> RpcMeta result \<times> World" where
  "FillMetaFromJson J v ctx w =
     (case jl_at J v ''meta'' of
        Inl e \<Rightarrow> (Inl e, w)
      | Inr m \<Rightarrow>
     (case jl_value_int J m ''code'' 500 of
        Inl e \<Rightarrow> (Inl e, w)
      | Inr c \<Rightarrow>
     (case jl_value_string J m ''message'' ''remote user service error'' of
        Inl e \<Rightarrow> (Inl e, w)
      | Inr message \<Rightarrow>
     (case jl_value_string J m ''request_id'' (rpc_request_id ctx) of
        Inl e \<Rightarrow> (Inl e, w)
      | Inr request_id \<Rightarrow>
     (case rpc_ElapsedMs ctx w of (elapsed, w1) \<Rightarrow>
      case jl_value_int64 J m ''cost_ms'' elapsed of
        Inl e \<Rightarrow> (Inl e, w1)
      | Inr cost \<Rightarrow>
          (Inr \<lparr>meta_code = RpcCode_cast c, meta_message = message, meta_request_id = request_id, meta_cost_ms = cost\<rparr>,
           w1))))))"

text \<open>
  Reading an answer assigns one field after the other; an exception leaves the fields assigned
  so far.
\<close>

definition read_login ::
  "'j json_lib \<Rightarrow> 'j \<Rightarrow> RpcContext \<Rightarrow> World \<Rightarrow> exn option \<times> LoginResponse \<times> World" where
  "read_login J v ctx w =
     (case FillMetaFromJson J v ctx w of
        (Inl e, w1) \<Rightarrow> (Some e, LoginResponse_default, w1)
      | (Inr meta, w1) \<Rightarrow>
          let r1 = LoginResponse_default\<lparr>lrs_meta := meta\<rparr> in
     (case jl_value_int J v ''user_id'' 0 of
        Inl e \<Rightarrow> (Some e, r1, w1)
      | Inr i \<Rightarrow> let r2 = r1\<lparr>lrs_user_id := i\<rparr> in
     (case jl_value_string J v ''username'' [] of
        Inl e \<Rightarrow> (Some e, r2, w1)
      | Inr s \<Rightarrow> let r3 = r2\<lparr>lrs_username := s\<rparr> in
     (case jl_value_string J v ''token'' [] of
        Inl e \<Rightarrow> (Some e, r3, w1)
      | Inr s \<Rightarrow> let r4 = r3\<lparr>lrs_token := s\<rparr> in
     (case jl_value_string J v ''role'' ''user'' of
        Inl e \<Rightarrow> (Some e, r4, w1)
      | Inr s \<Rightarrow> (None, r4\<lparr>lrs_role := s\<rparr>, w1))))))"

definition read_profile ::
  "'j json_lib \<Rightarrow> 'j \<Rightarrow> RpcContext \<Rightarrow> World \<Rightarrow> exn option \<times> GetProfileResponse \<times> World" where
  "read_profile J v ctx w =
     (case FillMetaFromJson J v ctx w of
        (Inl e, w1) \<Rightarrow> (Some e, GetProfileResponse_default, w1)
      | (Inr meta, w1) \<Rightarrow>
          let r1 = GetProfileResponse_default\<lparr>prs_meta := meta\<rparr> in
          if \<not> jl_contains J v ''profile'' then (None, r1, w1)
          else
     (case jl_at J v ''profile'' of
        Inl e \<Rightarrow> (Some e, r1, w1)
      | Inr p \<Rightarrow>
     (case jl_value_int J p ''user_id'' 0 of
        Inl e \<Rightarrow> (Some e, r1, w1)
      | Inr i \<Rightarrow> let r2 = r1\<lparr>prs_profile := (prs_profile r1)\<lparr>up_user_id := i\<rparr>\<rparr> in
     (case jl_value_string J p ''username'' [] of
        Inl e \<Rightarrow> (Some e, r2, w1)
      | Inr s \<Rightarrow> let r3 = r2\<lparr>prs_profile := (prs_profile r2)\<lparr>up_username := s\<rparr>\<rparr> in
     (case jl_value_string J p ''email'' [] of
        Inl e \<Rightarrow> (Some e, r3, w1)
      | Inr s \<Rightarrow> let r4 = r3\<lparr>prs_profile := (prs_profile r3)\<lparr>up_email := s\<rparr>\<rparr> in
     (case jl_value_string J p ''role'' [] of
        Inl e \<Rightarrow> (Some e, r4, w1)
      | Inr s \<Rightarrow> (None, r4\<lparr>prs_profile := (prs_profile r4)\<lparr>up_role := s\<rparr>\<rparr>, w1)))))))"

text \<open>The request lines, and the metadata that the handler of an exception fills in.\<close>

definition login_payload :: "'j json_lib \<Rightarrow> UserServiceRpcConfig \<Rightarrow> RpcContext \<Rightarrow> LoginRequest \<Rightarrow> 'j" where
  "login_payload J cfg ctx request = jl_object J
     [(''method'', jl_string J ''Login''), (''request_id'', jl_string J (rpc_request_id ctx)),
      (''timeout_ms'', jl_int J (min (rpc_timeout_ms ctx) (usr_timeout_ms cfg))),
      (''username'', jl_string J (lrq_username request)), (''password'', jl_string J (lrq_password request))]"

definition profile_payload :: "'j json_lib \<Rightarrow> UserServiceRpcConfig \<Rightarrow> RpcContext \<Rightarrow> GetProfileRequest \<Rightarrow> 'j" where
  "profile_payload J cfg ctx request = jl_object J
     [(''method'', jl_string J ''GetProfile''), (''request_id'', jl_string J (rpc_request_id ctx)),
      (''timeout_ms'', jl_int J (min (rpc_timeout_ms ctx) (usr_timeout_ms cfg))),
      (''user_id'', jl_int J (prq_user_id request))]"

definition caught_meta :: "exn \<Rightarrow> RpcContext \<Rightarrow> World \<Rightarrow> RpcMeta \<times> World" where
  "caught_meta e ctx w =
     (case rpc_DeadlineExceeded ctx w of (exceeded, w1) \<Rightarrow>
        FillMeta (if exceeded then RPC_TIMEOUT else RPC_INTERNAL_ERROR) (what e) ctx w1)"

text \<open>The remote call and the parsing of its answer.\<close>

definition remote_call ::
  "'j json_lib \<Rightarrow> UserServiceRpcConfig \<Rightarrow> 'n line_io \<Rightarrow> 'j \<Rightarrow> RpcContext \<Rightarrow> World \<Rightarrow> 'n \<Rightarrow>
   'j result \<times> RpcContext \<times> World \<times> 'n" where
  "remote_call J cfg io payload ctx w n =
     (case jl_dump J payload of
        Inl e \<Rightarrow> (Inl e, ctx, w, n)
      | Inr text \<Rightarrow>
          (case Call cfg io text ctx w n of
             (Inl e, ctx1, w1, n1) \<Rightarrow> (Inl e, ctx1, w1, n1)
           | (Inr raw, ctx1, w1, n1) \<Rightarrow> (jl_parse J raw, ctx1, w1, n1)))"

definition Remote_Login ::
  "'j json_lib \<Rightarrow> UserServiceRpcConfig \<Rightarrow> 'n line_io \<Rightarrow> RpcContext \<Rightarrow> LoginRequest \<Rightarrow> World \<Rightarrow> 'n \<Rightarrow>
   LoginResponse \<times> RpcContext \<times> World \<times> 'n" where
  "Remote_Login J cfg io ctx request w n =
     (case remote_call J cfg io (login_payload J cfg ctx request) ctx w n of (r, ctx1, w1, n1) \<Rightarrow>
      case (case r of Inl e \<Rightarrow> (Some e, LoginResponse_default, w1) | Inr v \<Rightarrow> read_login J v ctx1 w1) of (ex, rsp, w2) \<Rightarrow>
      (case ex of
         None \<Rightarrow> (rsp, ctx1, w2, n1)
       | Some e \<Rightarrow> (case caught_meta e ctx1 w2 of (meta, w3) \<Rightarrow> (rsp\<lparr>lrs_meta := meta\<rparr>, ctx1, w3, n1))))"

definition Remote_GetProfile ::
  "'j json_lib \<Rightarrow> UserServiceRpcConfig \<Rightarrow> 'n line_io \<Rightarrow> RpcContext \<Rightarrow> GetProfileRequest \<Rightarrow> World \<Rightarrow> 'n \<Rightarrow>
   GetProfileResponse \<times> RpcContext \<times> World \<times> 'n" where
  "Remote_GetProfile J cfg io ctx request w n =
     (case remote_call J cfg io (profile_payload J cfg ctx request) ctx w n of (r, ctx1, w1, n1) \<Rightarrow>
      case (case r of Inl e \<Rightarrow> (Some e, GetProfileResponse_default, w1) | Inr v \<Rightarrow> read_profile J v ctx1 w1) of (ex, rsp, w2) \<Rightarrow>
      (case ex of
         None \<Rightarrow> (rsp, ctx1, w2, n1)
       | Some e \<Rightarrow> (case caught_meta e ctx1 w2 of (meta, w3) \<Rightarrow> (rsp\<lparr>prs_meta := meta\<rparr>, ctx1, w3, n1))))"

text \<open>Every exception is caught: the remote service is an implementation that never throws.\<close>

definition RemoteUserServiceClient :: "'j json_lib \<Rightarrow> UserServiceRpcConfig \<Rightarrow> 'n line_io \<Rightarrow> 'n UserServiceOps" where
  "RemoteUserServiceClient J cfg io =
     \<lparr>us_Login = (\<lambda>ctx req w n. case Remote_Login J cfg io ctx req w n of (r, ctx', w', n') \<Rightarrow> (Inr r, ctx', w', n')),
      us_GetProfile = (\<lambda>ctx req w n. case Remote_GetProfile J cfg io ctx req w n of (r, ctx', w', n') \<Rightarrow> (Inr r, ctx', w', n'))\<rparr>"

section \<open>The server\<close>

record ServerOptions =
  so_host :: string
  so_port :: nat

definition ServerOptions_default :: ServerOptions where
  "ServerOptions_default = \<lparr>so_host = ''0.0.0.0'', so_port = 9001\<rparr>"

text \<open>The loop over the arguments after the program name; the cast keeps 16 bits.\<close>

fun parse_options :: "string list \<Rightarrow> ServerOptions \<Rightarrow> ServerOptions result" where
  "parse_options [] options = Inr options"
| "parse_options (arg # args) options =
     (if starts_with arg ''--host='' then parse_options args (options\<lparr>so_host := drop (length ''--host='') arg\<rparr>)
      else if starts_with arg ''--port='' then
        (case stoi (drop (length ''--port='') arg) of
           Inl e \<Rightarrow> Inl e
         | Inr p \<Rightarrow> parse_options args (options\<lparr>so_port := nat (p mod 65536)\<rparr>))
      else parse_options args options)"

definition ParseOptions :: "string list \<Rightarrow> ServerOptions result" where
  "ParseOptions argv = parse_options (tl argv) ServerOptions_default"

definition MetaToJson :: "'j json_lib \<Rightarrow> RpcMeta \<Rightarrow> 'j" where
  "MetaToJson J meta = jl_object J
     [(''code'', jl_int J (RpcCode_int (meta_code meta))), (''message'', jl_string J (meta_message meta)),
      (''request_id'', jl_string J (meta_request_id meta)), (''cost_ms'', jl_int J (meta_cost_ms meta))]"

definition ErrorResponse :: "'j json_lib \<Rightarrow> RpcCode \<Rightarrow> string \<Rightarrow> string \<Rightarrow> 'j" where
  "ErrorResponse J c message request_id = jl_object J
     [(''meta'', jl_object J
        [(''code'', jl_int J (RpcCode_int c)), (''message'', jl_string J message),
         (''request_id'', jl_string J request_id), (''cost_ms'', jl_int J 0)])]"

definition server_BuildRpcContext :: "'j json_lib \<Rightarrow> 'j \<Rightarrow> World \<Rightarrow> RpcContext result \<times> World" where
  "server_BuildRpcContext J request w =
     (case RpcContext_default w of (ctx, w1) \<Rightarrow>
      case jl_value_string J request ''request_id'' [] of
        Inl e \<Rightarrow> (Inl e, w1)
      | Inr request_id \<Rightarrow>
     (case jl_value_int J request ''timeout_ms'' 1000 of
        Inl e \<Rightarrow> (Inl e, w1)
      | Inr timeout \<Rightarrow>
     (case DeadlineContext_Start timeout w1 of (d, w2) \<Rightarrow>
        (Inr (ctx\<lparr>rpc_request_id := request_id, rpc_caller := ''tgw-gateway-remote-client'',
                  rpc_timeout_ms := timeout, rpc_deadline := Some d\<rparr>), w2))))"

definition login_json :: "'j json_lib \<Rightarrow> LoginResponse \<Rightarrow> 'j" where
  "login_json J r = jl_object J
     [(''meta'', MetaToJson J (lrs_meta r)), (''user_id'', jl_int J (lrs_user_id r)),
      (''username'', jl_string J (lrs_username r)), (''token'', jl_string J (lrs_token r)),
      (''role'', jl_string J (lrs_role r))]"

definition profile_json :: "'j json_lib \<Rightarrow> GetProfileResponse \<Rightarrow> 'j" where
  "profile_json J r = jl_object J
     [(''meta'', MetaToJson J (prs_meta r)),
      (''profile'', jl_object J
         [(''user_id'', jl_int J (up_user_id (prs_profile r))), (''username'', jl_string J (up_username (prs_profile r))),
          (''email'', jl_string J (up_email (prs_profile r))), (''role'', jl_string J (up_role (prs_profile r)))])]"

definition HandleRequest :: "'j json_lib \<Rightarrow> 'j \<Rightarrow> 'u UserServiceOps \<Rightarrow> World \<Rightarrow> 'u \<Rightarrow> 'j result \<times> World \<times> 'u" where
  "HandleRequest J request service w u =
     (case jl_value_string J request ''method'' [] of
        Inl e \<Rightarrow> (Inl e, w, u)
      | Inr m \<Rightarrow>
     (case server_BuildRpcContext J request w of
        (Inl e, w1) \<Rightarrow> (Inl e, w1, u)
      | (Inr ctx, w1) \<Rightarrow>
          if m = ''Login'' then
            (case jl_value_string J request ''username'' [] of
               Inl e \<Rightarrow> (Inl e, w1, u)
             | Inr username \<Rightarrow>
            (case jl_value_string J request ''password'' [] of
               Inl e \<Rightarrow> (Inl e, w1, u)
             | Inr password \<Rightarrow>
                 (case us_Login service ctx \<lparr>lrq_username = username, lrq_password = password\<rparr> w1 u of
                    (Inl e, ctx', w2, u') \<Rightarrow> (Inl e, w2, u')
                  | (Inr r, ctx', w2, u') \<Rightarrow> (Inr (login_json J r), w2, u'))))
          else if m = ''GetProfile'' then
            (case jl_value_int J request ''user_id'' 0 of
               Inl e \<Rightarrow> (Inl e, w1, u)
             | Inr i \<Rightarrow>
                 (case us_GetProfile service ctx \<lparr>prq_user_id = i\<rparr> w1 u of
                    (Inl e, ctx', w2, u') \<Rightarrow> (Inl e, w2, u')
                  | (Inr r, ctx', w2, u') \<Rightarrow> (Inr (profile_json J r), w2, u')))
          else (Inr (ErrorResponse J RPC_NOT_FOUND (''unknown UserService method: '' @ m) (rpc_request_id ctx)), w1, u)))"

text \<open>
  One session: what was read up to a line feed (or the exception of reading) gives the line
  that is written. A failing write is an exception of the socket (the argument
  \<open>write_error\<close>), answered by an attempt to write the error. \<open>None\<close> when printing the
  error throws in turn: nothing catches that, and the process is terminated.
\<close>

definition session_error :: "'j json_lib \<Rightarrow> exn \<Rightarrow> string option" where
  "session_error J e =
     (case jl_dump J (ErrorResponse J RPC_INTERNAL_ERROR (what e) []) of Inl _ \<Rightarrow> None | Inr payload \<Rightarrow> Some (payload @ [LF]))"

definition HandleSession ::
  "'j json_lib \<Rightarrow> 'u UserServiceOps \<Rightarrow> string result \<Rightarrow> exn option \<Rightarrow> World \<Rightarrow> 'u \<Rightarrow> string option \<times> World \<times> 'u" where
  "HandleSession J service received write_error w u =
     (case bind_result received (\<lambda>buffer. jl_parse J (getline buffer)) of
        Inl e \<Rightarrow> (session_error J e, w, u)
      | Inr request \<Rightarrow>
          (case HandleRequest J request service w u of
             (Inl e, w1, u1) \<Rightarrow> (session_error J e, w1, u1)
           | (Inr response, w1, u1) \<Rightarrow>
               (case jl_dump J response of
                  Inl e \<Rightarrow> (session_error J e, w1, u1)
                | Inr payload \<Rightarrow>
                    (case write_error of
                       Some e \<Rightarrow> (session_error J e, w1, u1)
                     | None \<Rightarrow> (Some (payload @ [LF]), w1, u1)))))"

section \<open>The remote client meets the contract of a user service\<close>

text \<open>A connection may take time, but cannot turn the clocks back.\<close>

definition io_reads_clocks :: "'n line_io \<Rightarrow> bool" where
  "io_reads_clocks io \<longleftrightarrow> (\<forall>host port s w n r w' n'. io host port s w n = (r, w', n') \<longrightarrow> later w w')"

lemma later_FillMetaFromJson [later_intros]: "FillMetaFromJson J v ctx w = (r, w') \<Longrightarrow> later w w'"
  by (auto simp: FillMetaFromJson_def intro: later_intros split: sum.splits prod.splits)

lemma later_read_login [later_intros]: "read_login J v ctx w = (ex, r, w') \<Longrightarrow> later w w'"
  by (auto simp: read_login_def Let_def intro: later_intros split: sum.splits prod.splits)

lemma later_read_profile [later_intros]: "read_profile J v ctx w = (ex, r, w') \<Longrightarrow> later w w'"
  by (auto simp: read_profile_def Let_def intro: later_intros split: sum.splits prod.splits if_splits)

lemma caught_meta_later [later_intros]:
  assumes "caught_meta e ctx w = (m, w')"
  shows "later w w'"
proof -
  obtain b w1 where b: "rpc_DeadlineExceeded ctx w = (b, w1)" by fastforce
  have "later w w1" using b by (auto intro: later_intros)
  moreover have "later w1 w'" using assms by (auto simp: caught_meta_def b intro: later_intros)
  ultimately show ?thesis by (rule later_trans)
qed

lemma remote_call_frame:
  assumes "io_reads_clocks io" "remote_call J cfg io payload ctx w n = (r, ctx1, w1, n1)"
  shows "later w w1 \<and> rctx_extends ctx ctx1"
proof (cases "jl_dump J payload")
  case (Inr line)
  obtain b w0 where b: "rpc_DeadlineExceeded ctx w = (b, w0)" by fastforce
  have l: "later w w0" using b by (auto intro: later_intros)
  obtain q w2 n2 where io: "io (usr_host cfg) (usr_port cfg) (line @ [LF]) w0 n = (q, w2, n2)" by (rule prod_cases3)
  have "later w0 w2" using assms(1) io unfolding io_reads_clocks_def by blast
  with l have "later w w2" by (rule later_trans)
  with l assms(2) Inr b io show ?thesis
    by (auto simp: remote_call_def Call_def Let_def split: sum.splits prod.splits if_splits)
next
  case (Inl e)
  then show ?thesis using assms(2) by (auto simp: remote_call_def)
qed

lemma Remote_Login_frame:
  assumes "io_reads_clocks io" "Remote_Login J cfg io ctx req w n = (rsp, ctx', w', n')"
  shows "later w w' \<and> rctx_extends ctx ctx'"
proof -
  obtain r ctx1 w1 n1 where c: "remote_call J cfg io (login_payload J cfg ctx req) ctx w n = (r, ctx1, w1, n1)"
    by (rule prod_cases4)
  obtain ex rsp0 w2 where e: "(case r of Inl e \<Rightarrow> (Some e, LoginResponse_default, w1) | Inr v \<Rightarrow> read_login J v ctx1 w1) = (ex, rsp0, w2)"
    by (rule prod_cases3)
  note f = remote_call_frame [OF assms(1) c]
  have "later w1 w2" using e by (auto intro: later_intros split: sum.splits)
  moreover have "later w2 w' \<and> ctx' = ctx1"
    using assms(2) c e by (auto simp: Remote_Login_def intro: later_intros split: option.splits prod.splits)
  ultimately show ?thesis using f later_trans by blast
qed

lemma Remote_GetProfile_frame:
  assumes "io_reads_clocks io" "Remote_GetProfile J cfg io ctx req w n = (rsp, ctx', w', n')"
  shows "later w w' \<and> rctx_extends ctx ctx'"
proof -
  obtain r ctx1 w1 n1 where c: "remote_call J cfg io (profile_payload J cfg ctx req) ctx w n = (r, ctx1, w1, n1)"
    by (rule prod_cases4)
  obtain ex rsp0 w2 where e: "(case r of Inl e \<Rightarrow> (Some e, GetProfileResponse_default, w1) | Inr v \<Rightarrow> read_profile J v ctx1 w1) = (ex, rsp0, w2)"
    by (rule prod_cases3)
  note f = remote_call_frame [OF assms(1) c]
  have "later w1 w2" using e by (auto intro: later_intros split: sum.splits)
  moreover have "later w2 w' \<and> ctx' = ctx1"
    using assms(2) c e by (auto simp: Remote_GetProfile_def intro: later_intros split: option.splits prod.splits)
  ultimately show ?thesis using f later_trans by blast
qed

lemma remote_user_service: "io_reads_clocks io \<Longrightarrow> user_service (RemoteUserServiceClient J cfg io)"
  by unfold_locales
    (auto simp: RemoteUserServiceClient_def dest: Remote_Login_frame Remote_GetProfile_frame split: prod.splits)

section \<open>What is relied on of the library\<close>

text \<open>
  For values the library can print (\<open>ok\<close>: their texts are valid UTF-8): printing gives one
  line that parses back, and reading a member of an object gives the value it was built
  with, cut to the width that is asked for.
\<close>

definition json_laws :: "'j json_lib \<Rightarrow> ('j \<Rightarrow> bool) \<Rightarrow> bool" where
  "json_laws J ok \<longleftrightarrow>
     (\<forall>j. ok j \<longrightarrow> (\<exists>s. jl_dump J j = Inr s \<and> s \<noteq> [] \<and> LF \<notin> set s \<and> jl_parse J s = Inr j)) \<and>
     (\<forall>ms k v. distinct (map fst ms) \<longrightarrow> map_of ms k = Some v \<longrightarrow>
        jl_at J (jl_object J ms) k = Inr v \<and> jl_contains J (jl_object J ms) k) \<and>
     (\<forall>ms k s d. distinct (map fst ms) \<longrightarrow> map_of ms k = Some (jl_string J s) \<longrightarrow>
        jl_value_string J (jl_object J ms) k d = Inr s) \<and>
     (\<forall>ms k i d. distinct (map fst ms) \<longrightarrow> map_of ms k = Some (jl_int J i) \<longrightarrow>
        jl_value_int J (jl_object J ms) k d = Inr (cast_int i) \<and>
        (in_int64 i \<longrightarrow> jl_value_int64 J (jl_object J ms) k d = Inr i))"

lemma json_lawsD:
  assumes "json_laws J ok"
  shows "ok j \<Longrightarrow> \<exists>s. jl_dump J j = Inr s \<and> s \<noteq> [] \<and> LF \<notin> set s \<and> jl_parse J s = Inr j"
    and "distinct (map fst ms) \<Longrightarrow> map_of ms k = Some v \<Longrightarrow> jl_at J (jl_object J ms) k = Inr v"
    and "distinct (map fst ms) \<Longrightarrow> map_of ms k = Some v \<Longrightarrow> jl_contains J (jl_object J ms) k"
    and "distinct (map fst ms) \<Longrightarrow> map_of ms k = Some (jl_string J s) \<Longrightarrow> jl_value_string J (jl_object J ms) k d = Inr s"
    and "distinct (map fst ms) \<Longrightarrow> map_of ms k = Some (jl_int J i) \<Longrightarrow> jl_value_int J (jl_object J ms) k d' = Inr (cast_int i)"
    and "distinct (map fst ms) \<Longrightarrow> map_of ms k = Some (jl_int J i) \<Longrightarrow> in_int64 i \<Longrightarrow>
      jl_value_int64 J (jl_object J ms) k d' = Inr i"
  using assms unfolding json_laws_def by blast+

text \<open>A codes' number survives the cast, unless an unknown code carries a number of a known one.\<close>

definition known_code :: "RpcCode \<Rightarrow> bool" where
  "known_code c \<longleftrightarrow> (\<forall>n. c \<noteq> RPC_UNKNOWN n)"

lemma RpcCode_cast_int [simp]: "known_code c \<Longrightarrow> RpcCode_cast (cast_int (RpcCode_int c)) = c"
  by (cases c) (simp_all add: known_code_def RpcCode_cast_def cast_int_def)

text \<open>The network that takes a line to a session of the server and brings its answer back.\<close>

definition server_io :: "'j json_lib \<Rightarrow> 'u UserServiceOps \<Rightarrow> 'u line_io" where
  "server_io J service host port sent w u =
     (case HandleSession J service (Inr sent) None w u of
        (Some answer, w', u') \<Rightarrow> (Inr answer, w', u')
      | (None, w', u') \<Rightarrow> (Inl (Runtime_error ''End of file''), w', u'))"

lemma getline_line [simp]: "LF \<notin> set s \<Longrightarrow> getline (s @ LF # t) = s"
  by (auto simp: getline_def takeWhile_append)

lemma FillMetaFromJson_MetaToJson:
  assumes J: "json_laws J ok" and "distinct (map fst ms)" "map_of ms ''meta'' = Some (MetaToJson J meta)"
    and "known_code (meta_code meta)" "in_int64 (meta_cost_ms meta)"
  shows "FillMetaFromJson J (jl_object J ms) ctx w = (Inr meta, snd (rpc_ElapsedMs ctx w))"
  using json_lawsD(2) [OF J assms(2,3)] assms(4,5)
  by (cases meta) (simp add: FillMetaFromJson_def MetaToJson_def json_lawsD(4-6) [OF J] split: prod.split)

text \<open>The call reaches the server and comes back with its answer.\<close>

lemma remote_call_server:
  assumes J: "json_laws J ok" and ok: "ok payload" "ok answer" and active: "rpc_active ctx w"
    and h: "HandleRequest J payload service (snd (rpc_DeadlineExceeded ctx w)) u = (Inr answer, w2, u')"
  shows "remote_call J cfg (server_io J service) payload ctx w u = (Inr answer, ctx, w2, u')"
proof -
  obtain s where s: "jl_dump J payload = Inr s" "LF \<notin> set s" "jl_parse J s = Inr payload"
    using json_lawsD(1) [OF J ok(1)] by blast
  obtain a where a: "jl_dump J answer = Inr a" "a \<noteq> []" "LF \<notin> set a" "jl_parse J a = Inr answer"
    using json_lawsD(1) [OF J ok(2)] by blast
  obtain w1 where w1: "rpc_DeadlineExceeded ctx w = (False, w1)"
    using active by (cases "rpc_DeadlineExceeded ctx w") (simp add: rpc_active_def)
  have "HandleSession J service (Inr (s @ [LF])) None w1 u = (Some (a @ [LF]), w2, u')"
    using h s a w1 by (simp add: HandleSession_def bind_result_def)
  then show ?thesis
    using s a w1 by (simp add: remote_call_def Call_def server_io_def)
qed

lemma server_context:
  assumes J: "json_laws J ok" and d: "distinct (map fst ms)"
    and "map_of ms ''request_id'' = Some (jl_string J i)" "map_of ms ''timeout_ms'' = Some (jl_int J t)" "in_int t"
  shows "\<exists>sctx w1. server_BuildRpcContext J (jl_object J ms) w = (Inr sctx, w1) \<and>
    rpc_request_id sctx = i \<and> rpc_timeout_ms sctx = t"
proof -
  obtain c w1 where c: "RpcContext_default w = (c, w1)" by fastforce
  obtain dl w2 where dl: "DeadlineContext_Start t w1 = (dl, w2)" by fastforce
  show ?thesis
    using json_lawsD(4) [OF J d assms(3)] json_lawsD(5) [OF J d assms(4)] assms(5) c dl
    by (simp add: server_BuildRpcContext_def cast_int_id)
qed

text \<open>The request as the server reads it from the client's line.\<close>

lemma HandleRequest_login:
  assumes J: "json_laws J ok" and t: "in_int (min (rpc_timeout_ms ctx) (usr_timeout_ms cfg))"
  shows "\<exists>sctx w1. rpc_request_id sctx = rpc_request_id ctx \<and>
    rpc_timeout_ms sctx = min (rpc_timeout_ms ctx) (usr_timeout_ms cfg) \<and>
    (\<forall>r c' w2 u'. us_Login service sctx req w1 u = (Inr r, c', w2, u') \<longrightarrow>
       HandleRequest J (login_payload J cfg ctx req) service w u = (Inr (login_json J r), w2, u'))"
proof -
  let ?ms = "[(''method'', jl_string J ''Login''), (''request_id'', jl_string J (rpc_request_id ctx)),
      (''timeout_ms'', jl_int J (min (rpc_timeout_ms ctx) (usr_timeout_ms cfg))),
      (''username'', jl_string J (lrq_username req)), (''password'', jl_string J (lrq_password req))]"
  have "\<exists>sctx w1. server_BuildRpcContext J (jl_object J ?ms) w = (Inr sctx, w1) \<and>
      rpc_request_id sctx = rpc_request_id ctx \<and> rpc_timeout_ms sctx = min (rpc_timeout_ms ctx) (usr_timeout_ms cfg)"
    by (rule server_context [OF J _ _ _ t]) simp_all
  then obtain sctx w1 where b: "server_BuildRpcContext J (login_payload J cfg ctx req) w = (Inr sctx, w1)"
    "rpc_request_id sctx = rpc_request_id ctx" "rpc_timeout_ms sctx = min (rpc_timeout_ms ctx) (usr_timeout_ms cfg)"
    by (auto simp: login_payload_def)
  have m: "jl_value_string J (login_payload J cfg ctx req) ''method'' [] = Inr ''Login''"
    "jl_value_string J (login_payload J cfg ctx req) ''username'' [] = Inr (lrq_username req)"
    "jl_value_string J (login_payload J cfg ctx req) ''password'' [] = Inr (lrq_password req)"
    unfolding login_payload_def by (rule json_lawsD(4) [OF J]; simp)+
  show ?thesis
    by (rule exI [of _ sctx], rule exI [of _ w1]) (use b m in \<open>cases req, simp add: HandleRequest_def\<close>)
qed

lemma read_login_json:
  assumes J: "json_laws J ok" and "known_code (meta_code (lrs_meta r))" "in_int64 (meta_cost_ms (lrs_meta r))"
  shows "read_login J (login_json J r) ctx w =
    (None, r\<lparr>lrs_user_id := cast_int (lrs_user_id r)\<rparr>, snd (rpc_ElapsedMs ctx w))"
proof -
  have "FillMetaFromJson J (login_json J r) ctx w = (Inr (lrs_meta r), snd (rpc_ElapsedMs ctx w))"
    unfolding login_json_def by (rule FillMetaFromJson_MetaToJson [OF J _ _ assms(2,3)]) simp_all
  moreover have "jl_value_int J (login_json J r) ''user_id'' 0 = Inr (cast_int (lrs_user_id r))"
    unfolding login_json_def by (rule json_lawsD(5) [OF J]) simp_all
  moreover have "jl_value_string J (login_json J r) ''username'' [] = Inr (lrs_username r)"
    "jl_value_string J (login_json J r) ''token'' [] = Inr (lrs_token r)"
    "jl_value_string J (login_json J r) ''role'' ''user'' = Inr (lrs_role r)"
    unfolding login_json_def by (rule json_lawsD(4) [OF J]; simp)+
  ultimately show ?thesis by (cases r) (simp add: read_login_def)
qed

section \<open>A small JSON library\<close>

text \<open>
  Values are printed as numbers separated by blanks, each value with its kind and its sizes in
  front; this library meets the laws for all its values.
\<close>

datatype jvalue = JString string | JInt int | JObject "(string \<times> jvalue) list"

definition numbered :: "string \<Rightarrow> nat list" where
  "numbered s = length s # map code s"

fun jnums :: "jvalue \<Rightarrow> nat list" where
  "jnums (JString s) = 0 # numbered s"
| "jnums (JInt i) = [1, if i < 0 then 1 else 0, nat \<bar>i\<bar>]"
| "jnums (JObject ms) = 2 # length ms # concat (map (\<lambda>(k, v). numbered k @ jnums v) ms)"

definition take_text :: "nat list \<Rightarrow> string \<times> nat list" where
  "take_text ns = (map char_of (take (hd ns) (tl ns)), drop (hd ns) (tl ns))"

text \<open>Reading with fuel: one value, or a number of members.\<close>

fun jread :: "nat \<Rightarrow> nat list \<Rightarrow> (jvalue \<times> nat list) option"
  and jmembers :: "nat \<Rightarrow> nat \<Rightarrow> nat list \<Rightarrow> ((string \<times> jvalue) list \<times> nat list) option" where
  "jread 0 ns = None"
| "jread (Suc f) ns =
     (case ns of
        0 # ns' \<Rightarrow> (case take_text ns' of (s, rest) \<Rightarrow> Some (JString s, rest))
      | Suc 0 # sg # n # rest \<Rightarrow> Some (JInt (if sg = 1 then - int n else int n), rest)
      | Suc (Suc 0) # k # rest \<Rightarrow> map_option (\<lambda>(ms, r). (JObject ms, r)) (jmembers f k rest)
      | _ \<Rightarrow> None)"
| "jmembers f 0 ns = Some ([], ns)"
| "jmembers 0 (Suc k) ns = None"
| "jmembers (Suc f) (Suc k) ns =
     (case take_text ns of (key, rest) \<Rightarrow>
      case jread f rest of
        None \<Rightarrow> None
      | Some (v, rest') \<Rightarrow> map_option (\<lambda>(ms, r). ((key, v) # ms, r)) (jmembers f k rest'))"

lemma take_text_numbered [simp]: "take_text (numbered s @ rest) = (s, rest)"
  by (simp add: take_text_def numbered_def map_idI)

text \<open>Fuel for a value: one for every value and one for every member.\<close>

fun jfuel :: "jvalue \<Rightarrow> nat" where
  "jfuel (JString s) = 1"
| "jfuel (JInt i) = 1"
| "jfuel (JObject ms) = 1 + sum_list (map (\<lambda>(k, v). 1 + jfuel v) ms)"

lemma jmembers_read:
  assumes "\<And>k v f rest. (k, v) \<in> set ms \<Longrightarrow> jfuel v \<le> f \<Longrightarrow> jread f (jnums v @ rest) = Some (v, rest)"
  shows "sum_list (map (\<lambda>(k, v). 1 + jfuel v) ms) \<le> f \<Longrightarrow>
    jmembers f (length ms) (concat (map (\<lambda>(k, v). numbered k @ jnums v) ms) @ rest) = Some (ms, rest)"
  using assms
proof (induction ms arbitrary: f)
  case (Cons m ms)
  obtain k v where m: "m = (k, v)" by fastforce
  from Cons.prems(1) obtain f' where f: "f = Suc f'" "jfuel v \<le> f'" "sum_list (map (\<lambda>(k, v). 1 + jfuel v) ms) \<le> f'"
    by (cases f) (auto simp: m)
  have "jread f' (jnums v @ concat (map (\<lambda>(k, v). numbered k @ jnums v) ms) @ rest) =
      Some (v, concat (map (\<lambda>(k, v). numbered k @ jnums v) ms) @ rest)"
    using Cons.prems(2) [of k v f'] f(2) by (simp add: m)
  moreover have "jmembers f' (length ms) (concat (map (\<lambda>(k, v). numbered k @ jnums v) ms) @ rest) = Some (ms, rest)"
    by (rule Cons.IH [OF f(3)], erule Cons.prems(2) [OF list.set_intros(2)])
  ultimately show ?case by (simp add: m f(1))
qed simp

lemma jread_jnums: "jfuel v \<le> f \<Longrightarrow> jread f (jnums v @ rest) = Some (v, rest)"
proof (induction v arbitrary: f rest)
  case (JString s)
  then show ?case by (cases f) simp_all
next
  case (JInt i)
  then show ?case by (cases f) auto
next
  case (JObject ms)
  then obtain f' where f: "f = Suc f'" "sum_list (map (\<lambda>(k, v). 1 + jfuel v) ms) \<le> f'" by (cases f) auto
  have "jmembers f' (length ms) (concat (map (\<lambda>(k, v). numbered k @ jnums v) ms) @ rest) = Some (ms, rest)"
    by (rule jmembers_read [OF _ f(2)]) (use JObject.IH in fastforce)
  then show ?case by (simp add: f(1) numeral_2_eq_2)
qed

definition print_numbers :: "nat list \<Rightarrow> string" where
  "print_numbers ns = concat (map (\<lambda>n. show_nat n @ '' '') ns)"

fun read_numbers :: "nat \<Rightarrow> string \<Rightarrow> nat list" where
  "read_numbers 0 s = []"
| "read_numbers (Suc f) s =
     (if s = [] then [] else digits_val (takeWhile isdigit s) # read_numbers f (drop 1 (dropWhile isdigit s)))"

lemma read_print_numbers: "length ns \<le> f \<Longrightarrow> read_numbers f (print_numbers ns) = ns"
proof (induction ns arbitrary: f)
  case Nil
  then show ?case by (cases f) (simp_all add: print_numbers_def)
next
  case (Cons n ns)
  then obtain f' where f: "f = Suc f'" "length ns \<le> f'" by (cases f) auto
  have "\<not> isdigit (CHR '' '')" by (simp add: isdigit_def)
  then have "takeWhile isdigit (show_nat n @ CHR '' '' # s) = show_nat n"
    "dropWhile isdigit (show_nat n @ CHR '' '' # s) = CHR '' '' # s" for s
    using show_nat_digits [of n] by (simp_all add: takeWhile_append dropWhile_append)
  with Cons.IH [OF f(2)] show ?case by (simp add: print_numbers_def f(1))
qed

lemma print_numbers_line: "LF \<notin> set (print_numbers ns)"
proof -
  have "LF \<notin> set (show_nat n)" for n
  proof
    assume "LF \<in> set (show_nat n)"
    with show_nat_digits [of n] have "isdigit LF" by blast
    then show False by (simp add: isdigit_def)
  qed
  then show ?thesis by (auto simp: print_numbers_def)
qed

lemma length_print_numbers: "length ns \<le> length (print_numbers ns)"
  by (induction ns) (simp_all add: print_numbers_def)

lemma jfuel_members:
  "(\<And>k v. (k, v) \<in> set ms \<Longrightarrow> jfuel v \<le> length (jnums v)) \<Longrightarrow>
   sum_list (map (\<lambda>(k, v). 1 + jfuel v) ms) \<le> length (concat (map (\<lambda>(k, v). numbered k @ jnums v) ms))"
proof (induction ms)
  case (Cons m ms)
  obtain k v where m: "m = (k, v)" by fastforce
  have "jfuel v \<le> length (jnums v)" by (rule Cons.prems [of k]) (simp add: m)
  moreover have "sum_list (map (\<lambda>(k, v). 1 + jfuel v) ms) \<le> length (concat (map (\<lambda>(k, v). numbered k @ jnums v) ms))"
    by (rule Cons.IH, erule Cons.prems [OF list.set_intros(2)])
  ultimately show ?case by (simp add: m numbered_def)
qed simp

lemma jfuel_length: "jfuel v \<le> length (jnums v)"
proof (induction v)
  case (JObject ms)
  have "sum_list (map (\<lambda>(k, v). 1 + jfuel v) ms) \<le> length (concat (map (\<lambda>(k, v). numbered k @ jnums v) ms))"
    by (rule jfuel_members, erule JObject.IH) (simp add: snds.simps)
  then show ?case by simp
qed simp_all

definition small_json :: "jvalue json_lib" where
  "small_json =
     \<lparr>jl_string = JString, jl_int = JInt, jl_object = JObject, jl_dump = (\<lambda>j. Inr (print_numbers (jnums j))),
      jl_parse = (\<lambda>s. case jread (length s) (read_numbers (length s) s) of
                    Some (j, []) \<Rightarrow> Inr j | _ \<Rightarrow> Inl (Runtime_error ''parse error'')),
      jl_at = (\<lambda>j k. case j of JObject ms \<Rightarrow>
                  (case map_of ms k of Some v \<Rightarrow> Inr v | None \<Rightarrow> Inl (Runtime_error ''key not found''))
                | _ \<Rightarrow> Inl (Runtime_error ''no object'')),
      jl_contains = (\<lambda>j k. case j of JObject ms \<Rightarrow> map_of ms k \<noteq> None | _ \<Rightarrow> False),
      jl_value_string = (\<lambda>j k d. case j of JObject ms \<Rightarrow>
                  (case map_of ms k of Some (JString s) \<Rightarrow> Inr s | None \<Rightarrow> Inr d | _ \<Rightarrow> Inl (Runtime_error ''type must be string''))
                | _ \<Rightarrow> Inl (Runtime_error ''no object'')),
      jl_value_int = (\<lambda>j k d. case j of JObject ms \<Rightarrow>
                  (case map_of ms k of Some (JInt i) \<Rightarrow> Inr (cast_int i) | None \<Rightarrow> Inr d | _ \<Rightarrow> Inl (Runtime_error ''type must be number''))
                | _ \<Rightarrow> Inl (Runtime_error ''no object'')),
      jl_value_int64 = (\<lambda>j k d. case j of JObject ms \<Rightarrow>
                  (case map_of ms k of Some (JInt i) \<Rightarrow> Inr i | None \<Rightarrow> Inr d | _ \<Rightarrow> Inl (Runtime_error ''type must be number''))
                | _ \<Rightarrow> Inl (Runtime_error ''no object''))\<rparr>"

lemma small_json_dump: "jl_parse small_json (print_numbers (jnums j)) = Inr j"
proof -
  let ?s = "print_numbers (jnums j)"
  have "read_numbers (length ?s) ?s = jnums j" by (rule read_print_numbers) (rule length_print_numbers)
  moreover have "jread (length ?s) (jnums j @ []) = Some (j, [])"
    by (rule jread_jnums) (rule order_trans [OF jfuel_length length_print_numbers])
  ultimately show ?thesis by (simp add: small_json_def)
qed

lemma small_json_laws: "json_laws small_json (\<lambda>_. True)"
proof -
  have "print_numbers (jnums j) \<noteq> []" for j
    by (cases j) (simp_all add: print_numbers_def)
  then show ?thesis
    using small_json_dump print_numbers_line unfolding json_laws_def
    by (simp add: small_json_def)
qed

section \<open>A service to apply the properties to\<close>

definition big_answer :: LoginResponse where
  "big_answer = LoginResponse_default\<lparr>lrs_user_id := 4294967301, lrs_username := ''eve''\<rparr>"

definition big_service :: "unit UserServiceOps" where
  "big_service =
     \<lparr>us_Login = (\<lambda>ctx req w u. (Inr big_answer, ctx, w, u)),
      us_GetProfile = (\<lambda>ctx req w u. (Inr GetProfileResponse_default, ctx, w, u))\<rparr>"

definition still_world :: World where
  "still_world = \<lparr>steady_ns = (\<lambda>n. 0), steady_reads = 0, system_ns = (\<lambda>n. 0), system_reads = 0\<rparr>"

definition demo_rpc_context :: RpcContext where
  "demo_rpc_context = \<lparr>rpc_request_id = ''req-9'', rpc_trace_id = [], rpc_caller = [], rpc_user_id = [],
     rpc_timeout_ms = 500, rpc_deadline = None, rpc_headers = [], rpc_start_time = 0\<rparr>"

section \<open>Properties\<close>

text \<open>
  C23: Over a network that delivers lines, the remote user service answers what the service
  behind it answers to the same credentials and request id, field by field, except that user
  ids are cut to 32 bits: an id of 2147483648 or more comes back as another user's.
\<close>

theorem remote_login_transparent:
  assumes "json_laws J ok" "rpc_active ctx w" "in_int (min (rpc_timeout_ms ctx) (usr_timeout_ms cfg))"
    and "ok (login_payload J cfg ctx req)"
  shows "\<exists>sctx w1. rpc_request_id sctx = rpc_request_id ctx \<and>
    rpc_timeout_ms sctx = min (rpc_timeout_ms ctx) (usr_timeout_ms cfg) \<and>
    (\<forall>r c' w2 u'. us_Login service sctx req w1 u = (Inr r, c', w2, u') \<and> ok (login_json J r) \<and>
       known_code (meta_code (lrs_meta r)) \<and> in_int64 (meta_cost_ms (lrs_meta r)) \<longrightarrow>
       (\<exists>w3. Remote_Login J cfg (server_io J service) ctx req w u =
          (r\<lparr>lrs_user_id := cast_int (lrs_user_id r)\<rparr>, ctx, w3, u')))"
proof -
  let ?w = "snd (rpc_DeadlineExceeded ctx w)"
  obtain sctx w1 where s: "rpc_request_id sctx = rpc_request_id ctx"
    "rpc_timeout_ms sctx = min (rpc_timeout_ms ctx) (usr_timeout_ms cfg)"
    "\<And>r c' w2 u'. us_Login service sctx req w1 u = (Inr r, c', w2, u') \<Longrightarrow>
       HandleRequest J (login_payload J cfg ctx req) service ?w u = (Inr (login_json J r), w2, u')"
    using HandleRequest_login [OF assms(1,3), of service req u ?w] by blast
  have "\<exists>w3. Remote_Login J cfg (server_io J service) ctx req w u =
      (r\<lparr>lrs_user_id := cast_int (lrs_user_id r)\<rparr>, ctx, w3, u')"
    if l: "us_Login service sctx req w1 u = (Inr r, c', w2, u')" "ok (login_json J r)"
      "known_code (meta_code (lrs_meta r))" "in_int64 (meta_cost_ms (lrs_meta r))" for r c' w2 u'
  proof -
    note c = remote_call_server [OF assms(1,4) l(2) assms(2) s(3) [OF l(1)], of cfg]
    show ?thesis
      by (rule exI [of _ "snd (rpc_ElapsedMs ctx w2)"])
        (simp add: Remote_Login_def c read_login_json [OF assms(1) l(3,4)])
  qed
  with s(1,2) show ?thesis by blast
qed

theorem remote_login_transparent_witness:
  "lrs_user_id (fst (Remote_Login small_json UserServiceRpcConfig_default (server_io small_json big_service)
     demo_rpc_context \<lparr>lrq_username = ''eve'', lrq_password = ''pw''\<rparr> still_world ())) = 5"
proof -
  have "rpc_active demo_rpc_context still_world"
    by (simp add: rpc_active_def demo_rpc_context_def rpc_DeadlineExceeded_def)
  moreover have "in_int (min (rpc_timeout_ms demo_rpc_context) (usr_timeout_ms UserServiceRpcConfig_default))"
    by (simp add: demo_rpc_context_def UserServiceRpcConfig_default_def in_int_def INT_MIN_def INT_MAX_def)
  ultimately obtain sctx w1 where s: "\<And>r c' w2 u'. us_Login big_service sctx \<lparr>lrq_username = ''eve'', lrq_password = ''pw''\<rparr> w1 () =
      (Inr r, c', w2, u') \<and> known_code (meta_code (lrs_meta r)) \<and> in_int64 (meta_cost_ms (lrs_meta r)) \<Longrightarrow>
      \<exists>w3. Remote_Login small_json UserServiceRpcConfig_default (server_io small_json big_service) demo_rpc_context
        \<lparr>lrq_username = ''eve'', lrq_password = ''pw''\<rparr> still_world () =
        (r\<lparr>lrs_user_id := cast_int (lrs_user_id r)\<rparr>, demo_rpc_context, w3, u')"
    using remote_login_transparent [OF small_json_laws, of demo_rpc_context still_world UserServiceRpcConfig_default
        big_service "\<lparr>lrq_username = ''eve'', lrq_password = ''pw''\<rparr>" "()"] by blast
  have "\<exists>w3. Remote_Login small_json UserServiceRpcConfig_default (server_io small_json big_service) demo_rpc_context
        \<lparr>lrq_username = ''eve'', lrq_password = ''pw''\<rparr> still_world () =
        (big_answer\<lparr>lrs_user_id := cast_int (lrs_user_id big_answer)\<rparr>, demo_rpc_context, w3, ())"
    by (rule s [of big_answer sctx w1])
      (simp add: big_service_def big_answer_def LoginResponse_default_def RpcMeta_default_def known_code_def in_int64_def
        INT64_MIN_def INT64_MAX_def)
  then show ?thesis by (auto simp: big_answer_def cast_int_def)
qed

lemma remote_call_request_id:
  "remote_call J cfg io payload ctx w n = (r, ctx1, w1, n1) \<Longrightarrow> rpc_request_id ctx1 = rpc_request_id ctx"
  by (auto simp: remote_call_def Call_def rpc_CancelDeadline_def Let_def split: sum.splits prod.splits if_splits)



end
