(* ===== verification/Logger.thy ===== *)
theory Logger
  imports Http Config
begin

text \<open>
  The setup of the logger, \<^verbatim>\<open>src/common/logger.cc\<close>: the level names, the directories
  that are made for the log file, and what a failing file does to the start. The file system
  and spdlog's registry are an argument; what is logged is not modelled.
\<close>

datatype LogLevel = Level_trace | Level_debug | Level_info | Level_warn | Level_err | Level_critical

definition ParseLevel :: "string \<Rightarrow> LogLevel" where
  "ParseLevel level =
     (if level = ''trace'' then Level_trace
      else if level = ''debug'' then Level_debug
      else if level = ''warn'' \<or> level = ''warning'' then Level_warn
      else if level = ''error'' then Level_err
      else if level = ''critical'' then Level_critical
      else Level_info)"

text \<open>
  Making a directory (true if it is there afterwards), opening the log file for a sink, and
  registering the logger under its name.
\<close>

record 'f log_system =
  ls_mkdir :: "string \<Rightarrow> 'f \<Rightarrow> bool \<times> 'f"
  ls_open :: "string \<Rightarrow> 'f \<Rightarrow> unit result \<times> 'f"
  ls_register :: "string \<Rightarrow> 'f \<Rightarrow> unit result \<times> 'f"

definition CreateDirectoryIfMissing :: "'f log_system \<Rightarrow> string \<Rightarrow> 'f \<Rightarrow> bool \<times> 'f" where
  "CreateDirectoryIfMissing L path f = (if path = [] then (True, f) else ls_mkdir L path f)"

definition is_separator :: "char \<Rightarrow> bool" where
  "is_separator c \<longleftrightarrow> c = CHR ''/'' \<or> c = BACKSLASH"

definition find_separator :: "string \<Rightarrow> nat \<Rightarrow> nat option" where
  "find_separator s pos =
     (let skipped = takeWhile (\<lambda>c. \<not> is_separator c) (drop pos s)
      in if pos + length skipped < length s then Some (pos + length skipped) else None)"

lemma find_separator_SomeD: "find_separator s pos = Some p \<Longrightarrow> pos \<le> p \<and> p < length s"
  by (auto simp: find_separator_def Let_def split: if_splits)

function ensure_from :: "'f log_system \<Rightarrow> string \<Rightarrow> nat \<Rightarrow> 'f \<Rightarrow> 'f" where
  "ensure_from L file_path pos f =
     (case find_separator file_path pos of
        None \<Rightarrow> f
      | Some p \<Rightarrow>
          let dir = take p file_path
          in ensure_from L file_path (p + 1)
               (if dir \<noteq> [] \<and> CHR '':'' \<notin> set dir then snd (CreateDirectoryIfMissing L dir f) else f))"
  by pat_completeness auto
termination
  by (relation "measure (\<lambda>(L, s, pos, f). length s - pos)") (auto dest: find_separator_SomeD)

declare ensure_from.simps [simp del]

definition EnsureParentDirectory :: "'f log_system \<Rightarrow> string \<Rightarrow> 'f \<Rightarrow> 'f" where
  "EnsureParentDirectory L file_path f = ensure_from L file_path 0 f"

record LoggerHandle =
  lh_level :: LogLevel
  lh_file :: "string option"
  lh_async :: bool

text \<open>
  The static \<^verbatim>\<open>logger_\<close> is set before it is registered; its level is set only after that.
\<close>

definition Logger_Init ::
  "'f log_system \<Rightarrow> LogConfig \<Rightarrow> LoggerHandle option \<Rightarrow> 'f \<Rightarrow> unit result \<times> LoggerHandle option \<times> 'f" where
  "Logger_Init L config logger f =
     (let opened = (if log_path config \<noteq> []
                    then ls_open L (log_path config) (EnsureParentDirectory L (log_path config) f)
                    else (Inr (), f));
          file = (if log_path config \<noteq> [] then Some (log_path config) else None)
      in case opened of
           (Inl e, f1) \<Rightarrow> (Inl e, logger, f1)
         | (Inr _, f1) \<Rightarrow>
             let created = \<lparr>lh_level = Level_info, lh_file = file, lh_async = log_async config\<rparr>
             in case ls_register L ''tgw'' f1 of
                  (Inl e, f2) \<Rightarrow> (Inl e, Some created, f2)
                | (Inr _, f2) \<Rightarrow> (Inr (), Some (created\<lparr>lh_level := ParseLevel (log_level config)\<rparr>), f2))"

definition Logger_Get :: "'f log_system \<Rightarrow> LoggerHandle option \<Rightarrow> 'f \<Rightarrow> unit result \<times> LoggerHandle option \<times> 'f" where
  "Logger_Get L logger f =
     (case logger of None \<Rightarrow> Logger_Init L LogConfig_default logger f | Some _ \<Rightarrow> (Inr (), logger, f))"

section \<open>The directories that are made\<close>

text \<open>Every proper prefix of the path that ends before a separator and has no drive colon.\<close>

definition parent_dirs :: "string \<Rightarrow> nat \<Rightarrow> string list" where
  "parent_dirs s pos =
     map (\<lambda>p. take p s) (filter (\<lambda>p. is_separator (s ! p) \<and> p \<noteq> 0 \<and> CHR '':'' \<notin> set (take p s)) [pos..<length s])"

lemma parent_dirs_step:
  "parent_dirs s pos =
     (case find_separator s pos of
        None \<Rightarrow> []
      | Some p \<Rightarrow> (if p \<noteq> 0 \<and> CHR '':'' \<notin> set (take p s) then [take p s] else []) @ parent_dirs s (p + 1))"
proof -
  let ?n = "length (takeWhile (\<lambda>c. \<not> is_separator c) (drop pos s))"
  let ?ok = "\<lambda>p. is_separator (s ! p) \<and> p \<noteq> 0 \<and> CHR '':'' \<notin> set (take p s)"
  have skip: "\<not> is_separator (s ! p)" if "pos \<le> p" "p < pos + ?n" for p
  proof -
    have n: "p - pos < ?n" using that by simp
    then have "\<not> is_separator (takeWhile (\<lambda>c. \<not> is_separator c) (drop pos s) ! (p - pos))"
      using nth_mem set_takeWhileD by fastforce
    moreover have "p - pos < length (drop pos s)" using n length_takeWhile_le [of _ "drop pos s"] by (rule less_le_trans)
    ultimately show ?thesis using that takeWhile_nth [OF n] by simp
  qed
  show ?thesis
  proof (cases "pos + ?n < length s")
    case True
    let ?p = "pos + ?n"
    have "?n < length (drop pos s)" using True by simp
    then have "is_separator (drop pos s ! ?n)" using nth_length_takeWhile [of "\<lambda>c. \<not> is_separator c" "drop pos s"] by blast
    then have sep: "is_separator (s ! ?p)" using True by simp
    have "[pos..<length s] = [pos..<?p] @ ?p # [?p + 1..<length s]"
      using True upt_add_eq_append [of pos ?p "length s - ?p"] upt_conv_Cons [of ?p "length s"] by simp
    moreover have "filter ?ok [pos..<?p] = []" using skip by (auto simp: filter_empty_conv)
    moreover have "find_separator s pos = Some ?p" using True by (simp add: find_separator_def Let_def)
    moreover have "parent_dirs s (?p + 1) = map (\<lambda>p. take p s) (filter ?ok [?p + 1..<length s])" by (simp only: parent_dirs_def)
    moreover obtain p where "?p = p" by simp
    ultimately show ?thesis using sep by (simp only: parent_dirs_def option.case filter_append) simp
  next
    case False
    then have "filter ?ok [pos..<length s] = []" using skip by (auto simp: filter_empty_conv)
    with False show ?thesis by (simp add: parent_dirs_def find_separator_def Let_def)
  qed
qed

lemma ensure_from_dirs: "ensure_from L s pos f = fold (\<lambda>d f. snd (ls_mkdir L d f)) (parent_dirs s pos) f"
proof (induction L s pos f rule: ensure_from.induct)
  case (1 L s pos f)
  show ?case
  proof (cases "find_separator s pos")
    case None
    then show ?thesis using parent_dirs_step [of s pos] by (simp add: ensure_from.simps [of L s pos])
  next
    case (Some p)
    have p: "p < length s" using find_separator_SomeD [OF Some] by simp
    show ?thesis
      using Some p 1 [OF Some refl] parent_dirs_step [of s pos]
      by (auto simp: ensure_from.simps [of L s pos] CreateDirectoryIfMissing_def)
  qed
qed

text \<open>
  The start makes exactly the directories on the way to the log file, the outer ones first,
  whatever making one of them answers.
\<close>

theorem parent_directories_made:
  "EnsureParentDirectory L file_path f = fold (\<lambda>d f. snd (ls_mkdir L d f)) (parent_dirs file_path 0) f"
  by (simp add: EnsureParentDirectory_def ensure_from_dirs)

end
