(* ===== verification/Application.thy ===== *)
theory Application
  imports HttpServer Governance Admin ConfigLoader RemoteUsers Logger
begin

text \<open>
  The program that \<^verbatim>\<open>src/main.cc\<close> puts together: the command line, the pages
  behind the authorization filter, the choice of the user service and the wiring of all
  components into the router. The network of the remote user service, the shell of the MySQL
  client, the Redis connection and the random numbers are the arguments of the
  \<open>Environment\<close>; logging is left out.
\<close>

section \<open>The command line\<close>

fun config_path_loop :: "string list \<Rightarrow> string \<Rightarrow> string" where
  "config_path_loop [] config_path = config_path"
| "config_path_loop (arg # args) config_path =
     config_path_loop args
       (if starts_with arg ''--config='' then drop (length ''--config='') arg else config_path)"

definition ParseConfigPath :: "string list \<Rightarrow> string" where
  "ParseConfigPath argv = config_path_loop (tl argv) ''configs/gateway.yaml''"

text \<open>Starting up: the configuration, or the line for the error stream and exit code 1.\<close>

definition startup :: "'n yaml \<Rightarrow> string list \<Rightarrow> string + AppConfig" where
  "startup y argv =
     (case LoadFromFile y (ParseConfigPath argv) of Inl msg \<Rightarrow> Inl (''fatal error: '' @ msg) | Inr config \<Rightarrow> Inr config)"

section \<open>The pages\<close>

definition RequireAuth :: "AuthFilter option \<Rightarrow> 's handler \<Rightarrow> 's handler" where
  "RequireAuth auth_filter inner req w s =
     (case auth_filter of
        None \<Rightarrow> inner req w s
      | Some f \<Rightarrow>
          (case svc_NowUnixSeconds w of (now, w') \<Rightarrow>
             let auth_result = AuthFilter_Check f now req in
             if \<not> ar_allowed auth_result then (ar_response auth_result, w', s) else inner req w' s))"

definition page :: "(HttpRequest \<Rightarrow> HttpResponse) \<Rightarrow> 's handler" where
  "page f req w s = (f req, w, s)"

definition health_page :: "AppConfig \<Rightarrow> HttpRequest \<Rightarrow> HttpResponse" where
  "health_page config req =
     HttpResponse_default\<lparr>rsp_status := 200, rsp_content_type := ''application/json'',
       rsp_body := ToJson (ApiResponse_Success
         (''{'' @ json_key ''status'' @ quoted ''ok'' @ '','' @
          json_key ''service'' @ quoted (JsonEscape (srv_name (app_server config))) @ ''}''))\<rparr>"

definition metrics_page :: "('s, 'r) GatewayState handler" where
  "metrics_page req w st = (BuildPrometheusResponse (gw_metrics st), w, st)"

definition traces_page :: "('s, 'r) GatewayState handler" where
  "traces_page req w st = (BuildTraceDebugResponse (gw_tracer st), w, st)"

section \<open>Wiring\<close>

record ('j, 'n, 'r) Environment =
  env_json :: "'j json_lib"
  env_line_io :: "'n line_io"
  env_popen :: "string \<Rightarrow> string option"
  env_redis :: "'r redis_io"
  env_moved_from :: "FinishedSpan \<Rightarrow> FinishedSpan"
  env_words :: "nat \<Rightarrow> 64 word"
  env_coins :: "nat \<Rightarrow> rat"

text \<open>The in-process service keeps no state of its own.\<close>

definition stateless :: "unit UserServiceOps \<Rightarrow> 'n UserServiceOps" where
  "stateless ops =
     \<lparr>us_Login = (\<lambda>ctx req w n. case us_Login ops ctx req w () of (r, ctx', w', _) \<Rightarrow> (r, ctx', w', n)),
      us_GetProfile = (\<lambda>ctx req w n. case us_GetProfile ops ctx req w () of (r, ctx', w', _) \<Rightarrow> (r, ctx', w', n))\<rparr>"

definition choose_user_service :: "AppConfig \<Rightarrow> ('j, 'n, 'r) Environment \<Rightarrow> 'n UserServiceOps" where
  "choose_user_service config env =
     (if usr_enabled (app_user_service_rpc config)
      then RemoteUserServiceClient (env_json env) (app_user_service_rpc config) (env_line_io env)
      else stateless (UserServiceImpl
        (if my_enabled (app_mysql config) then MysqlCliUserRepository (app_mysql config) (env_popen env)
         else InMemoryUserRepository)))"

type_synonym 'n app_upstream = "circuits \<times> 'n LocalRpcState"

definition build_auth_filter :: "AppConfig \<Rightarrow> AuthFilter" where
  "build_auth_filter config =
     \<lparr>af_config = app_auth config, af_rbac_rules = app_rbac_rules config, af_token_service = Some (app_auth config)\<rparr>"

definition build_upstream :: "AppConfig \<Rightarrow> ('j, 'n, 'r) Environment \<Rightarrow> 'n app_upstream upstream" where
  "build_upstream config env =
     Governance_Forward (app_governance config)
       (LocalRpc_Forward (choose_user_service config env) (Some (app_auth config)))"

definition build_gateway :: "AppConfig \<Rightarrow> ('j, 'n, 'r) Environment \<Rightarrow> ('n app_upstream, 'r) GatewayHandler" where
  "build_gateway config env =
     \<lparr>gh_routes = RouteRuleManager (app_routes config), gh_upstream = build_upstream config env,
      gh_auth = Some (build_auth_filter config), gh_redis = env_redis env, gh_moved_from = env_moved_from env\<rparr>"

text \<open>The state the components are created with; the network starts in \<open>n\<close>, Redis in \<open>r\<close>.\<close>

definition build_state ::
  "AppConfig \<Rightarrow> ('j, 'n, 'r) Environment \<Rightarrow> 'n \<Rightarrow> 'r \<Rightarrow> ('n app_upstream, 'r) GatewayState" where
  "build_state config env n r =
     \<lparr>gw_limiter = Some \<lparr>rlf_config = app_rate_limit config, rlf_buckets = om_empty\<rparr>, gw_redis = r,
      gw_metrics = Some om_empty,
      gw_tracer = Some \<lparr>trc_config = app_tracing config, trc_finished = [], trc_id_counter = 0, trc_exported = [],
        trc_words = env_words env, trc_words_read = 0, trc_coins = env_coins env, trc_coins_read = 0\<rparr>,
      gw_upstream = (Map.empty,
        \<lparr>lr_users = n, lr_files = FileMetaServiceImpl_default, lr_tasks = TaskServiceImpl_default\<rparr>)\<rparr>"

text \<open>
  The routes. The admin pages list the router they are part of: \<open>listing\<close> is what its
  \<^verbatim>\<open>ListRoutes\<close> returns, in the unspecified order of the hash map.
\<close>

definition BuildRouter ::
  "AppConfig \<Rightarrow> ('j, 'n, 'r) Environment \<Rightarrow> string list \<Rightarrow> ('n app_upstream, 'r) GatewayState Router" where
  "BuildRouter config env listing =
     (let auth_filter = Some (build_auth_filter config);
          admin = \<lparr>adm_config = config, adm_exact_routes = listing,
                   adm_gateway_routes = RouteRuleManager (app_routes config)\<rparr>
      in SetFallback (Gateway_Handle (build_gateway config env))
         (AddRoute ''GET'' ''/debug/traces'' traces_page
         (AddRoute ''GET'' ''/metrics'' metrics_page
         (AddRoute ''GET'' ''/admin/features'' (RequireAuth auth_filter (page (Features admin)))
         (AddRoute ''GET'' ''/admin/runtime'' (RequireAuth auth_filter (page (Runtime admin)))
         (AddRoute ''GET'' ''/admin/routes'' (RequireAuth auth_filter (page (Routes admin)))
         (AddRoute ''GET'' ''/routes'' (page (Routes admin))
         (AddRoute ''GET'' ''/health'' (page (health_page config))
          Router_default))))))))"

section \<open>What the router dispatches to\<close>

definition exact_paths :: "string set" where
  "exact_paths = {''/health'', ''/routes'', ''/admin/routes'', ''/admin/runtime'', ''/admin/features'', ''/metrics'', ''/debug/traces''}"

lemma route_key_eq: "MakeRouteKey ''GET'' p = MakeRouteKey m q \<longleftrightarrow> m @ '' '' @ q = ''GET '' @ p"
  by (auto simp: MakeRouteKey_def)

lemma get_key: "MakeRouteKey ''GET'' p = MakeRouteKey ''GET'' q \<longleftrightarrow> p = q"
  by (simp add: MakeRouteKey_def)

lemma dispatch_route:
  "rt_routes r (MakeRouteKey (req_method request) (req_path request)) = Some h \<Longrightarrow> Dispatch r request w s = h request w s"
  by (simp add: Dispatch_def)

definition app_admin :: "AppConfig \<Rightarrow> string list \<Rightarrow> AdminHandler" where
  "app_admin config listing =
     \<lparr>adm_config = config, adm_exact_routes = listing, adm_gateway_routes = RouteRuleManager (app_routes config)\<rparr>"

lemma Dispatch_pages:
  assumes "req_method request = ''GET''"
  shows "req_path request = ''/health'' \<Longrightarrow> Dispatch (BuildRouter config env listing) request w st = (health_page config request, w, st)"
    and "req_path request = ''/routes'' \<Longrightarrow> Dispatch (BuildRouter config env listing) request w st =
      (Routes (app_admin config listing) request, w, st)"
    and "req_path request = ''/admin/routes'' \<Longrightarrow> Dispatch (BuildRouter config env listing) request w st =
      RequireAuth (Some (build_auth_filter config)) (page (Routes (app_admin config listing))) request w st"
    and "req_path request = ''/admin/runtime'' \<Longrightarrow> Dispatch (BuildRouter config env listing) request w st =
      RequireAuth (Some (build_auth_filter config)) (page (Runtime (app_admin config listing))) request w st"
    and "req_path request = ''/admin/features'' \<Longrightarrow> Dispatch (BuildRouter config env listing) request w st =
      RequireAuth (Some (build_auth_filter config)) (page (Features (app_admin config listing))) request w st"
    and "req_path request = ''/metrics'' \<Longrightarrow> Dispatch (BuildRouter config env listing) request w st =
      (BuildPrometheusResponse (gw_metrics st), w, st)"
    and "req_path request = ''/debug/traces'' \<Longrightarrow> Dispatch (BuildRouter config env listing) request w st =
      (BuildTraceDebugResponse (gw_tracer st), w, st)"
  using assms
  by (simp_all add: Dispatch_def BuildRouter_def SetFallback_def AddRoute_def get_key page_def metrics_page_def
      traces_page_def app_admin_def Let_def)

section \<open>What a request keeps\<close>

text \<open>What the application keeps besides: its configuration and the bound on spans.\<close>

definition kept_tracer :: "TracingConfig \<Rightarrow> Tracer option \<Rightarrow> bool" where
  "kept_tracer cfg tracer \<longleftrightarrow>
     (\<exists>tr. tracer = Some tr \<and> trc_config tr = cfg \<and> length (trc_finished tr) \<le> tr_max_finished_spans cfg)"

lemma generate_id_tracer:
  "trc_config (snd (generate_id d n tr)) = trc_config tr \<and> trc_finished (snd (generate_id d n tr)) = trc_finished tr"
  using HexRandom_spec [of d "tr\<lparr>trc_id_counter := trc_id_counter tr + 1\<rparr>"]
  by (auto simp: generate_id_def Let_def split: prod.split)

lemma kept_start:
  assumes "kept_tracer cfg (Some tr)"
  shows "StartServerSpan request name w tr = (sp, w', tr') \<Longrightarrow> kept_tracer cfg (Some tr')"
    and "StartClientSpan parent name w tr = (sp, w', tr') \<Longrightarrow> kept_tracer cfg (Some tr')"
proof -
  have s: "trc_config (snd (ShouldSample tr)) = trc_config tr" "trc_finished (snd (ShouldSample tr)) = trc_finished tr"
    by (simp_all add: ShouldSample_def)
  have g: "trc_config (snd (GenerateTraceId t)) = trc_config t" "trc_finished (snd (GenerateTraceId t)) = trc_finished t"
    "trc_config (snd (GenerateSpanId t)) = trc_config t" "trc_finished (snd (GenerateSpanId t)) = trc_finished t" for t
    using generate_id_tracer by (simp_all add: GenerateTraceId_def GenerateSpanId_def)
  show "kept_tracer cfg (Some tr')" if "StartClientSpan parent name w tr = (sp, w', tr')"
    using that assms g(3,4) [of tr]
    by (cases "GenerateSpanId tr") (auto simp: StartClientSpan_def kept_tracer_def Let_def split: prod.splits if_splits)
  show "kept_tracer cfg (Some tr')" if st: "StartServerSpan request name w tr = (sp, w', tr')"
  proof -
    obtain now w1 where n: "steady_now w = (now, w1)" by fastforce
    obtain u w2 where u: "NowUnixMs w1 = (u, w2)" by fastforce
    obtain b tr1 where b: "(if Enabled tr then ShouldSample tr else (False, tr)) = (b, tr1)" by fastforce
    obtain i tr2 where i: "(if ExtractTraceIdFromRequest tr1 request = [] then GenerateTraceId tr1
        else (ExtractTraceIdFromRequest tr1 request, tr1)) = (i, tr2)" by fastforce
    obtain j tr3 where j: "GenerateSpanId tr2 = (j, tr3)" by fastforce
    have 1: "trc_config tr1 = trc_config tr \<and> trc_finished tr1 = trc_finished tr"
      using b s by (metis snd_conv)
    have 2: "trc_config tr2 = trc_config tr1 \<and> trc_finished tr2 = trc_finished tr1"
      using i g(1,2) [of tr1] by (metis snd_conv)
    have 3: "trc_config tr3 = trc_config tr2 \<and> trc_finished tr3 = trc_finished tr2"
      using j g(3,4) [of tr2] by (metis snd_conv)
    have "tr' = tr1 \<or> tr' = tr3"
      using st [unfolded StartServerSpan_def n u b Let_def prod.case i j] by (auto split: if_splits)
    with 1 2 3 assms show ?thesis by (auto simp: kept_tracer_def)
  qed
qed

lemma kept_finish:
  assumes "kept_tracer cfg (Some tr)" "FinishSpan mv sp kind path up status attrs w tr = (w', tr')"
  shows "kept_tracer cfg (Some tr')"
  using assms(1) FinishSpan_finished [OF assms(2)] by (auto simp: kept_tracer_def length_last_n)

definition kept :: "TracingConfig \<Rightarrow> RateLimitConfig \<Rightarrow> ('s, 'r) GatewayState \<Rightarrow> bool" where
  "kept tc lc st \<longleftrightarrow> kept_tracer tc (gw_tracer st) \<and> (\<exists>f. gw_limiter st = Some f \<and> rlf_config f = lc) \<and>
     gw_metrics st \<noteq> None"

lemma RateLimitFilter_Check_config:
  "RateLimitFilter_Check io f w r request match = (d, f', w', r') \<Longrightarrow> rlf_config f' = rlf_config f"
  using CheckLocal_simps(5)
  by (auto simp: RateLimitFilter_Check_def Let_def split: prod.splits if_splits sum.splits) (metis snd_conv)+

lemma limit_frame:
  assumes "gateway_limit h fwd match w st = (d, w', st')"
  shows "later w w' \<and> (kept tc lc st \<longrightarrow> kept tc lc st')"
  using assms later_Check RateLimitFilter_Check_config
  by (auto simp: gateway_limit_def kept_def split: option.splits prod.splits)

lemma auth_frame: "gateway_auth h request fwd w = (res, w') \<Longrightarrow> later w w'"
  by (auto simp: gateway_auth_def Let_def intro: later_intros split: option.splits prod.splits if_splits)

lemma finish_frame:
  assumes "gateway_finish h request sp started rsp up w st = (rsp', w', st')"
  shows "later w w' \<and> (kept tc lc st \<longrightarrow> kept tc lc st')"
proof -
  let ?up = "if up = [] then ''none'' else up"
  obtain w1 st1 where m: "(case gw_metrics st of
              None \<Rightarrow> (w, st)
            | Some m \<Rightarrow>
                (case steady_now w of (now, w1) \<Rightarrow>
                   (w1, st\<lparr>gw_metrics := Some (RecordRequest (req_path request) ?up (rsp_status rsp)
                             (word_of_int (ns_to_ms (now - started))) m)\<rparr>))) = (w1, st1)" by fastforce
  obtain w2 st2 where t: "(case gw_tracer st1 of
              None \<Rightarrow> (w1, st1)
            | Some tr \<Rightarrow>
                (case FinishSpan (gh_moved_from h) sp ''server'' (req_path request) ?up (rsp_status rsp)
                        (om_put ''request.id'' (req_request_id request)
                          (om_put ''http.method'' (req_method request) om_empty)) w1 tr of (w2, tr') \<Rightarrow>
                   (w2, st1\<lparr>gw_tracer := Some tr'\<rparr>))) = (w2, st2)" by fastforce
  have f: "st' = st2" "w' = w2" using assms [unfolded gateway_finish_def Let_def m prod.case t] by auto
  have 1: "later w w1 \<and> (kept tc lc st \<longrightarrow> kept tc lc st1)"
    using m by (auto simp: kept_def intro: later_intros split: option.splits prod.splits)
  have "later w1 w2 \<and> (kept tc lc st1 \<longrightarrow> kept tc lc st2)"
    using t kept_finish by (auto simp: kept_def intro: later_intros split: option.splits prod.splits)
  with 1 f show ?thesis using later_trans by blast
qed

text \<open>One call of the upstream client somewhere between two worlds, or none.\<close>

definition called_once :: "'s upstream \<Rightarrow> World \<Rightarrow> 's \<Rightarrow> World \<Rightarrow> 's \<Rightarrow> bool" where
  "called_once up w s w' s' \<longleftrightarrow>
     (\<exists>ctx w1 r ctx' w2. later w w1 \<and> up ctx w1 s = (r, ctx', w2, s') \<and> later w2 w')"

lemma called_onceI:
  "later w w1 \<Longrightarrow> up ctx w1 s = (r, ctx', w2, s') \<Longrightarrow> later w2 w' \<Longrightarrow> called_once up w s w' s'"
  unfolding called_once_def by blast

lemma forward_frame:
  assumes "gateway_forward h request fwd match gsp d w st = (rsp, w', st')"
  shows "called_once (gh_upstream h) w (gw_upstream st) w' (gw_upstream st') \<and> (kept tc lc st \<longrightarrow> kept tc lc st')"
proof -
  obtain ctx0 w1 where b: "ForwardContext_Build fwd match w = (ctx0, w1)" by fastforce
  obtain ctx sp w2 st1 where t: "(case gw_tracer st of
              None \<Rightarrow> (ctx0, TraceSpan_default, w1, st)
            | Some tr \<Rightarrow>
                (case StartClientSpan gsp (''upstream.'' @ fc_upstream ctx0) w1 tr of (sp, w2, tr') \<Rightarrow>
                   (with_client_span sp ctx0, sp, w2, st\<lparr>gw_tracer := Some tr'\<rparr>))) = (ctx, sp, w2, st1)"
    by (rule prod_cases4)
  obtain r ctx' w3 s' where c: "gh_upstream h ctx w2 (gw_upstream st1) = (r, ctx', w3, s')" by (rule prod_cases4)
  let ?st2 = "st1\<lparr>gw_upstream := s'\<rparr>"
  obtain w4 st3 where f: "(case gw_tracer ?st2 of
              None \<Rightarrow> (w3, ?st2)
            | Some tr \<Rightarrow>
                (case FinishSpan (gh_moved_from h) sp ''client'' (fc_upstream_path ctx') (fc_upstream ctx') (rsp_status r)
                        (om_put ''route.path'' (req_path request) (om_put ''request.id'' (fc_request_id ctx')
                          (om_put ''http.method'' (fc_method ctx') om_empty))) w3 tr of (w4, tr') \<Rightarrow>
                   (w4, ?st2\<lparr>gw_tracer := Some tr'\<rparr>))) = (w4, st3)" by fastforce
  have e: "st' = st3" "w' = w4"
    using assms [unfolded gateway_forward_def Let_def b prod.case t c f] by auto
  have "later w w1" using ForwardContext_Build_spec(7) [OF b] .
  moreover have 1: "later w1 w2 \<and> gw_upstream st1 = gw_upstream st \<and> (kept tc lc st \<longrightarrow> kept tc lc st1)"
    using t kept_start(2) by (auto simp: kept_def intro: later_intros split: option.splits prod.splits)
  moreover have 2: "later w3 w4 \<and> gw_upstream st3 = s' \<and> (kept tc lc st1 \<longrightarrow> kept tc lc st3)"
    using f kept_finish by (auto simp: kept_def intro: later_intros split: option.splits prod.splits)
  ultimately have "later w w2" using later_trans by blast
  moreover have "gh_upstream h ctx w2 (gw_upstream st) = (r, ctx', w3, gw_upstream st')" "later w3 w'"
    using 1 2 c e by simp_all
  ultimately have "called_once (gh_upstream h) w (gw_upstream st) w' (gw_upstream st')" by (rule called_onceI)
  with 1 2 e show ?thesis by simp
qed

lemma begin_kept:
  assumes "gateway_begin request w st = (sp, started, w2, st1)" "kept tc lc st"
  shows "kept tc lc st1"
proof -
  obtain now w1 where n: "steady_now w = (now, w1)" by fastforce
  with assms kept_start(1) show ?thesis
    by (auto simp: gateway_begin_def kept_def split: option.splits prod.splits)
qed

text \<open>A forwarded request calls the upstream client once; what comes before and after reads clocks.\<close>

lemma forwarded_frame:
  assumes "gateway_forward h request fwd match sp d w4 st2 = (r, w5, st3)"
    and "gateway_finish h request sp started r up w5 st3 = (rsp, w', st')"
    and "later w w4" "gw_upstream st2 = s" "kept tc lc st2"
  shows "kept tc lc st' \<and> called_once (gh_upstream h) w s w' (gw_upstream st')"
proof -
  note f = forward_frame [OF assms(1), of tc lc] and e = finish_frame [OF assms(2), of tc lc]
  obtain ctx v1 q ctx' v2 where c: "later w4 v1" "gh_upstream h ctx v1 s = (q, ctx', v2, gw_upstream st3)" "later v2 w5"
    using f assms(4) by (auto simp: called_once_def)
  have "later w v1" "later v2 w'" using assms(3) c e later_trans by blast+
  from called_onceI [where up = "gh_upstream h", OF this(1) c(2) this(2)]
  have "called_once (gh_upstream h) w s w' (gw_upstream st3)" .
  moreover have "gw_upstream st' = gw_upstream st3" using gateway_finish_spec [OF assms(2)] by simp
  ultimately show ?thesis using f e assms(5) by simp
qed

lemma Handle_frame:
  assumes "Gateway_Handle h request w st = (rsp, w', st')" "kept tc lc st"
  shows "kept tc lc st' \<and>
    (later w w' \<and> gw_upstream st' = gw_upstream st \<or>
     called_once (gh_upstream h) w (gw_upstream st) w' (gw_upstream st'))"
proof -
  have begun: "later w v \<and> gw_upstream stx = gw_upstream st \<and> kept tc lc stx"
    if "gateway_begin request w st = (sp, started, v, stx)" for sp started v stx
    using gateway_begin_frame [OF that] begin_kept [OF that assms(2)] by (simp add: traced_def)
  have fin_ok: "later w w' \<and> gw_upstream st' = gw_upstream st \<and> kept tc lc st'"
    if "later w v" "gw_upstream stx = gw_upstream st" "kept tc lc stx"
      "gateway_finish h request sp started r up v stx = (rsp, w', st')" for v stx sp started r up
    using that finish_frame [OF that(4), of tc lc] gateway_finish_spec [OF that(4)] later_trans [OF that(1)] by auto
  have limit: "later w w4 \<and> gw_upstream st2 = gw_upstream st \<and> kept tc lc st2"
    if "gateway_begin request w st = (sp, started, w2, st1)" "gateway_auth h request (with_trace sp request) w2 = (res, w3)"
      "gateway_limit h fwd match w3 st1 = (d, w4, st2)" for sp started w2 st1 res w3 fwd match d w4 st2
    using begun [OF that(1)] auth_frame [OF that(2)] limit_frame [OF that(3), of tc lc] gateway_limit_spec(1) [OF that(3)]
      later_trans by metis
  from assms(1) show ?thesis
  proof (cases rule: Handle_cases)
    case (no_route sp started w2 st1)
    from begun [OF no_route(1)] fin_ok [OF _ _ _ no_route(3)] show ?thesis by simp
  next
    case (forbidden sp started w2 st1 match refusal w3)
    from begun [OF forbidden(1)] later_trans [OF _ auth_frame [OF forbidden(3)]] fin_ok [OF _ _ _ forbidden(4)]
    show ?thesis by simp
  next
    case (limited sp started w2 st1 match fwd w3 d w4 st2)
    from limit [OF limited(1,3,4)] fin_ok [OF _ _ _ limited(6)] show ?thesis by simp
  next
    case (forwarded sp started w2 st1 match fwd w3 d w4 st2 r w5 st3)
    from limit [OF forwarded(1,3,4)] forwarded_frame [OF forwarded(6,7), of w "gw_upstream st" tc lc] show ?thesis by simp
  qed
qed

section \<open>The invariant of the running gateway\<close>

definition app_inv :: "AppConfig \<Rightarrow> World \<Rightarrow> ('n app_upstream, 'r) GatewayState \<Rightarrow> bool" where
  "app_inv config w st \<longleftrightarrow>
     steady_mono w \<and> kept (app_tracing config) (app_rate_limit config) st \<and>
     circuits_inv (gov_circuit_breaker (app_governance config)) w (fst (gw_upstream st))"

lemma app_inv_build: "steady_mono w \<Longrightarrow> valid_config config \<Longrightarrow> app_inv config w (build_state config env n r)"
  by (auto simp: app_inv_def kept_def kept_tracer_def build_state_def valid_config_def valid_governance_def
      valid_breaker_def cb_ok_def intro!: circuits_inv_init)

lemma circuits_inv_later: "later w w' \<Longrightarrow> steady_mono w \<Longrightarrow> circuits_inv cfg w cs \<Longrightarrow> circuits_inv cfg w' cs"
  unfolding circuits_inv_def using cb_inv_mono later_reading by blast

lemma app_inv_later: "app_inv config w st \<Longrightarrow> later w w' \<Longrightarrow> app_inv config w' st"
  using circuits_inv_later later_mono by (auto simp: app_inv_def)

lemma stateless_user_service: "user_service ops \<Longrightarrow> user_service (stateless ops :: 'n UserServiceOps)"
  unfolding user_service_def stateless_def by (auto split: prod.splits)

lemma choose_user_service_contract:
  "io_reads_clocks (env_line_io env) \<Longrightarrow> user_service (choose_user_service config env)"
  by (simp add: choose_user_service_def remote_user_service stateless_user_service impl.user_service_axioms)

lemma build_upstream_contract: "io_reads_clocks (env_line_io env) \<Longrightarrow> upstream_client (build_upstream config env)"
  unfolding build_upstream_def
  by (intro governed_client user_service.local_upstream_client choose_user_service_contract)


lemma RequireAuth_page:
  assumes "RequireAuth auth (page f) request w st = (rsp, w', st')" "rsp_headers (f request) = []"
  shows "st' = st \<and> later w w' \<and> header rsp ''X-Request-Id'' \<in> {None, Some (req_request_id request)}"
  using assms AuthFilter_Check_rejects(2)
  by (auto simp: RequireAuth_def page_def Let_def svc_NowUnixSeconds_def system_now_def later_def
      split: option.splits prod.splits if_splits)

lemma pages_headers:
  "rsp_headers (health_page config request) = []" "rsp_headers (Routes h request) = []"
  "rsp_headers (Runtime h request) = []" "rsp_headers (Features h request) = []"
  "rsp_headers (BuildPrometheusResponse m) = []" "rsp_headers (BuildTraceDebugResponse t) = []"
  by (simp_all add: health_page_def HttpResponse_default_def Routes_def Runtime_def Features_def JsonResponse_def
      BuildPrometheusResponse_def BuildTraceDebugResponse_def Let_def split: option.split)

lemma Dispatch_cases:
  assumes "Dispatch (BuildRouter config env listing) request w st = (rsp, w', st')"
  shows "st' = st \<and> later w w' \<and> header rsp ''X-Request-Id'' \<in> {None, Some (req_request_id request)} \<or>
    Gateway_Handle (build_gateway config env) request w st = (rsp, w', st')"
proof -
  have pages: "st' = st \<and> later w w' \<and> header rsp ''X-Request-Id'' \<in> {None, Some (req_request_id request)}"
    if "h request w st = (rsp, w', st')" "rsp_headers (f request) = []"
      "h \<in> {page f, metrics_page, traces_page, RequireAuth auth (page f)}" for h f auth
    using that RequireAuth_page [of auth f request w st rsp w' st'] pages_headers(5,6)
    by (auto simp: page_def metrics_page_def traces_page_def)
  show ?thesis
  proof (cases "rt_routes (BuildRouter config env listing) (MakeRouteKey (req_method request) (req_path request))")
    case None
    then have "Gateway_Handle (build_gateway config env) request w st = (rsp, w', st')"
      using assms by (simp add: Dispatch_def) (simp add: BuildRouter_def SetFallback_def Let_def)
    then show ?thesis by simp
  next
    case (Some h)
    let ?a = "app_admin config listing" and ?f = "Some (build_auth_filter config)"
    have "h \<in> {page (health_page config), page (Routes ?a), RequireAuth ?f (page (Routes ?a)),
        RequireAuth ?f (page (Runtime ?a)), RequireAuth ?f (page (Features ?a)), metrics_page, traces_page}"
      using Some by (simp add: BuildRouter_def SetFallback_def AddRoute_def Router_default_def app_admin_def Let_def split: if_splits)
    then have "\<exists>f auth. rsp_headers (f request) = [] \<and> h \<in> {page f, metrics_page, traces_page, RequireAuth auth (page f)}"
      using pages_headers(1-4) by (elim insertE emptyE) blast+
    moreover have "h request w st = (rsp, w', st')" using assms dispatch_route [OF Some] by simp
    ultimately show ?thesis using pages by blast
  qed
qed

lemma app_inv_dispatch:
  assumes "io_reads_clocks (env_line_io env)" "valid_config config" "app_inv config w st"
    and "Dispatch (BuildRouter config env listing) request w st = (rsp, w', st')"
  shows "app_inv config w' st'"
proof -
  consider "st' = st" "later w w'" | "Gateway_Handle (build_gateway config env) request w st = (rsp, w', st')"
    using Dispatch_cases [OF assms(4)] by blast
  then show ?thesis
  proof cases
    case 1
    then show ?thesis using app_inv_later [OF assms(3)] by simp
  next
    case 2
    let ?cb = "gov_circuit_breaker (app_governance config)"
    note inv = assms(3) [unfolded app_inv_def]
    have up: "gh_upstream (build_gateway config env) = build_upstream config env" by (simp add: build_gateway_def)
    have k: "kept (app_tracing config) (app_rate_limit config) st'" using Handle_frame [OF 2] inv by blast
    consider "later w w'" "gw_upstream st' = gw_upstream st"
      | "called_once (build_upstream config env) w (gw_upstream st) w' (gw_upstream st')"
      using Handle_frame [OF 2] inv up by auto
    then show ?thesis
    proof cases
      case 1
      then show ?thesis using k inv circuits_inv_later later_mono by (auto simp: app_inv_def)
    next
      case 2
      then obtain ctx w1 r ctx' w2 where c: "later w w1" "build_upstream config env ctx w1 (gw_upstream st) = (r, ctx', w2, gw_upstream st')"
        "later w2 w'" unfolding called_once_def by blast
      have ok: "cb_ok ?cb" using assms(2) by (simp add: valid_config_def valid_governance_def valid_breaker_def cb_ok_def)
      have m1: "steady_mono w1" "circuits_inv ?cb w1 (fst (gw_upstream st))"
        using c(1) inv later_mono circuits_inv_later by blast+
      have m2: "later w1 w2" by (rule upstream_client.only_reads [OF build_upstream_contract [OF assms(1)] c(2)])
      obtain cs s cs' s' where p: "gw_upstream st = (cs, s)" "gw_upstream st' = (cs', s')" by fastforce
      have "circuits_inv ?cb w2 cs'"
        using circuits_inv_forward [OF user_service.local_upstream_client [OF choose_user_service_contract [OF assms(1)]] m1(1) ok _
            c(2) [unfolded p build_upstream_def]] m1(2) p by simp
      moreover have "steady_mono w2" "steady_mono w'" using m1(1) m2 c(3) later_mono by blast+
      ultimately show ?thesis using k c(3) p circuits_inv_later by (auto simp: app_inv_def)
    qed
  qed
qed

text \<open>The router that the program builds meets the contract of the server's sessions.\<close>

lemma app_router:
  assumes "io_reads_clocks (env_line_io env)" "valid_config config"
  shows "serving_router (BuildRouter config env listing) (app_inv config)"
proof unfold_locales
  fix request w st rsp w' st'
  assume d: "Dispatch (BuildRouter config env listing) request w st = (rsp, w', st')"
  have "upstream_client (gh_upstream (build_gateway config env))"
    using build_upstream_contract [OF assms(1)] by (simp add: build_gateway_def)
  with Dispatch_cases [OF d] Handle_answers(1)
  show "header rsp ''X-Request-Id'' \<in> {None, Some (req_request_id request)}" by blast
  show "app_inv config w st \<Longrightarrow> app_inv config w' st'" by (rule app_inv_dispatch [OF assms _ d])
qed (rule app_inv_later)

section \<open>The program\<close>

text \<open>
  The configuration, the router and the server that listens, or the line for the error stream
  and exit code 1: of a configuration that does not load, a log file that cannot be opened or
  an address that cannot be bound. \<open>listen\<close> opens, binds and listens, as in the server.
\<close>

definition gateway_main ::
  "'y yaml \<Rightarrow> 'f log_system \<Rightarrow> 'f \<Rightarrow> (string \<Rightarrow> nat \<Rightarrow> unit result) \<Rightarrow> ('j, 'n, 'r) Environment \<Rightarrow> string list \<Rightarrow>
   World \<Rightarrow> 'n \<Rightarrow> 'r \<Rightarrow> string list \<Rightarrow>
   string + AppConfig \<times> ('n app_upstream, 'r) GatewayState Router \<times> ('q, ('n app_upstream, 'r) GatewayState) HttpServer" where
  "gateway_main y L f listen env listing w n r argv =
     (case startup y argv of
        Inl msg \<Rightarrow> Inl msg
      | Inr config \<Rightarrow>
          (case fst (Logger_Init L (app_log config) None f) of
             Inl e \<Rightarrow> Inl (''fatal error: '' @ what e)
           | Inr _ \<Rightarrow>
               (case HttpServer_Start listen
                       (HttpServer_new (app_server config) (app_runtime config) w (build_state config env n r)) of
                  Inl e \<Rightarrow> Inl (''fatal error: '' @ what e)
                | Inr srv \<Rightarrow> Inr (config, BuildRouter config env listing, srv))))"

lemma gateway_main_runs:
  assumes "gateway_main y L f listen env listing w n r argv = Inr (config, router, srv)"
    and "io_reads_clocks (env_line_io env)" "steady_mono w" "(server_step B router)\<^sup>*\<^sup>* srv srv'"
  shows "server_inv srv' \<and> (\<forall>s \<in> set (hs_sessions srv'). written_inv B s) \<and>
    app_inv config (fst (hs_shared srv')) (fst (snd (hs_shared srv')))"
proof -
  have s: "startup y argv = Inr config" "router = BuildRouter config env listing"
    "HttpServer_Start listen (HttpServer_new (app_server config) (app_runtime config) w (build_state config env n r)) = Inr srv"
    using assms(1) by (auto simp: gateway_main_def split: sum.splits)
  have "LoadFromFile y (ParseConfigPath argv) = Inr config" using s(1) by (auto simp: startup_def split: sum.splits)
  then have v: "valid_config config" by (rule LoadFromFile_valid)
  have "hs_sessions srv = []" "hs_shared srv = (w, build_state config env n r, 0)"
    using s(3) by (auto simp: HttpServer_Start_def HttpServer_new_def DoAccept_def split: sum.splits)
  with serving_router.server_keeps [OF app_router [OF assms(2) v] assms(4) [unfolded s(2)] server_inv_start [OF s(3)]]
  show ?thesis using app_inv_build [OF assms(3) v, of env n r] by auto
qed

section \<open>A concrete installation\<close>

definition demo_env :: "(jvalue, unit, unit) Environment" where
  "demo_env =
     \<lparr>env_json = small_json, env_line_io = (\<lambda>host port line w n. (Inl (Runtime_error ''unreachable''), w, n)),
      env_popen = (\<lambda>command. None),
      env_redis = \<lparr>rio_connect = (\<lambda>a b r. (Inr (), r)), rio_exchange = (\<lambda>c r. (Inr [], r))\<rparr>,
      env_moved_from = id, env_words = (\<lambda>n. word_of_nat n), env_coins = (\<lambda>n. 0)\<rparr>"

lemma demo_env_reads_clocks: "io_reads_clocks (env_line_io demo_env)"
  by (auto simp: io_reads_clocks_def demo_env_def later_def)

lemma demo_config_valid: "valid_config demo_config"
  by (rule LoadFromFile_valid [OF demo_config_loads])

interpretation demo_app: serving_router "BuildRouter demo_config demo_env []" "app_inv demo_config"
  by (rule app_router [OF demo_env_reads_clocks demo_config_valid])

definition demo_log :: "unit log_system" where
  "demo_log = \<lparr>ls_mkdir = (\<lambda>path f. (True, f)), ls_open = (\<lambda>path f. (Inr (), f)), ls_register = (\<lambda>name f. (Inr (), f))\<rparr>"

lemma demo_logger: "fst (Logger_Init demo_log cfg None f) = Inr ()"
  by (simp add: Logger_Init_def demo_log_def Let_def)

definition demo_argv :: "string list" where
  "demo_argv = [''tgw_gateway'', ''--verbose'', ''--config=gateway.yaml'']"

lemma demo_startup: "startup (small_yaml demo_document) demo_argv = Inr demo_config"
  by (simp add: startup_def ParseConfigPath_def demo_argv_def demo_config_loads starts_with_def)

definition demo_login_request :: HttpRequest where
  "demo_login_request =
     \<lparr>req_method = ''POST'', req_path = ''/api/user/login'', req_query = [], req_body = ''{}'', req_headers = om_empty,
      req_client_ip = ''10.0.0.1'', req_request_id = ''req-7''\<rparr>"

section \<open>Properties\<close>



text \<open>
  The listing of all routes that \<^verbatim>\<open>GET /admin/routes\<close> protects is also served under
  \<^verbatim>\<open>GET /routes\<close>, without any token: whenever a request is shown the protected page, the same
  request without its headers gets the same response on the open path. The metrics and the
  recorded traces are served without a token too.
\<close>

theorem routes_page_bypasses_auth:
  assumes "req_method request = ''GET''" "req_path request = ''/admin/routes''"
    and "fst (Dispatch (BuildRouter config env listing) request w st) = rsp" "rsp_status rsp \<noteq> 401" "rsp_status rsp \<noteq> 403"
  shows "Dispatch (BuildRouter config env listing) (request\<lparr>req_path := ''/routes'', req_headers := om_empty\<rparr>) v st = (rsp, v, st) \<and>
    fst (Dispatch (BuildRouter config env listing) (request\<lparr>req_path := ''/metrics'', req_headers := om_empty\<rparr>) v st) =
      BuildPrometheusResponse (gw_metrics st) \<and>
    fst (Dispatch (BuildRouter config env listing) (request\<lparr>req_path := ''/debug/traces'', req_headers := om_empty\<rparr>) v st) =
      BuildTraceDebugResponse (gw_tracer st)"
proof -
  let ?f = "build_auth_filter config"
  obtain now w1 where n: "svc_NowUnixSeconds w = (now, w1)" by fastforce
  have "rsp = (if ar_allowed (AuthFilter_Check ?f now request) then Routes (app_admin config listing) request
      else ar_response (AuthFilter_Check ?f now request))"
    using assms(3) by (auto simp: Dispatch_pages(3) [OF assms(1,2)] RequireAuth_def n page_def Let_def)
  then have "rsp = Routes (app_admin config listing) request"
    using AuthFilter_Check_rejects(1) [of ?f now request] assms(4,5) by (auto split: if_splits)
  moreover have "Routes (app_admin config listing) q = Routes (app_admin config listing) request" for q
    by (simp add: Routes_def)
  ultimately show ?thesis using assms(1) by (simp add: Dispatch_pages)
qed

theorem routes_page_bypasses_auth_witness:
  "rsp_status (fst (Dispatch (BuildRouter demo_config demo_env []) (demo_login_request\<lparr>req_method := ''GET'', req_path := ''/routes''\<rparr>)
     demo_world (build_state demo_config demo_env () ()))) = 200"
proof -
  let ?q = "demo_login_request\<lparr>req_method := ''GET'', req_path := ''/admin/routes''\<rparr>"
  have m: "req_method ?q = ''GET''" "req_path ?q = ''/admin/routes''" by simp_all
  have off: "\<not> auth_enabled (af_config (build_auth_filter demo_config))" by (simp add: build_auth_filter_def demo_config_def)
  have r: "fst (Dispatch (BuildRouter demo_config demo_env []) ?q demo_world (build_state demo_config demo_env () ())) =
      Routes (app_admin demo_config []) ?q"
    using off by (simp add: Dispatch_pages(3) [OF m] RequireAuth_def AuthFilter_Check_def page_def AuthResult_default_def Let_def
        split: prod.split)
  have s: "rsp_status (Routes (app_admin demo_config []) ?q) = 200" by (simp add: Routes_def JsonResponse_def)
  from routes_page_bypasses_auth [OF m r, of demo_world] s show ?thesis
    by (simp add: demo_login_request_def Routes_def)
qed

end
