(* ===== verification/EndToEnd.thy ===== *)
theory EndToEnd
  imports Application
begin

text \<open>
  A request through all components that work on it: what the governance client, the gateway
  handler and the router of \<^verbatim>\<open>main.cc\<close> make of an answer that the local RPC client gives in
  time, and the way from a login to the profile of the user who logged in.
\<close>

section \<open>In time\<close>

text \<open>
  A forwarded request is in time when its deadline is not cancelled and every reading of the
  clock lies before it and within the route's time.
\<close>

definition in_time :: "ForwardContext \<Rightarrow> World \<Rightarrow> bool" where
  "in_time ctx w \<longleftrightarrow>
     (\<exists>d. fc_deadline ctx = Some d \<and> \<not> dl_cancelled d \<and>
        (\<forall>n. steady_ns w n < dl_deadline d \<and> ns_to_ms (steady_ns w n - dl_start d) \<le> fc_timeout_ms ctx))"

lemma in_time_on_time: "in_time ctx w \<Longrightarrow> on_time ctx w"
  by (auto simp: in_time_def on_time_def)

lemma in_time_later: "in_time ctx w \<Longrightarrow> later w w' \<Longrightarrow> in_time ctx w'"
  by (simp add: in_time_def later_def)

text \<open>A clock whose readings differ by less than the given milliseconds.\<close>

definition quick :: "int \<Rightarrow> World \<Rightarrow> bool" where
  "quick ms w \<longleftrightarrow> (\<forall>m n. steady_ns w m - steady_ns w n < ms * 1000000)"

lemma quick_later: "quick ms w \<Longrightarrow> later w w' \<Longrightarrow> quick ms w'"
  by (simp add: quick_def later_def)

lemma quick_elapsed:
  assumes "quick ms w" "0 \<le> ms"
  shows "ns_to_ms (steady_ns w m - steady_ns w n) \<le> ms"
  using assms(1) [unfolded quick_def, rule_format, of m n] assms(2)
  by (auto simp: ns_to_ms_def trunc_div_def)

section \<open>The governance client\<close>

text \<open>A closed circuit stays closed on success.\<close>

lemma closed_success:
  "cbs_state s = CLOSED \<Longrightarrow> cbs_state (record_state cfg now True s) = CLOSED"
  "cbs_state s = CLOSED \<Longrightarrow> allow_state now s = (True, s)"
  by (simp_all add: record_state_def allow_state_def Let_def)

lemma closed_allowed:
  assumes "cbs_state (circuit cs u) = CLOSED"
  obtains cs' w' where "AllowRequest cfg u cs w = (True, cs', w')" "cbs_state (circuit cs' u) = CLOSED"
proof (cases "cb_enabled cfg")
  case True
  obtain now w' where "steady_now w = (now, w')" by fastforce
  with True that [of "cs(u \<mapsto> circuit cs u)" w'] assms closed_success(2) [OF assms] show ?thesis
    by (simp add: AllowRequest_def circuit_upd)
qed (use that [of cs w] assms in \<open>simp add: AllowRequest_def\<close>)

lemma in_time_not_exceeded:
  assumes "in_time ctx w"
  obtains w' where "DeadlineExceeded ctx w = (False, w')" "later w w'"
  using on_time_not_exceeded [OF in_time_on_time [OF assms]] later_context(1)
  by (metis fst_conv prod.collapse)

lemma in_time_elapsed:
  assumes "in_time ctx w"
  obtains ms w' where "ElapsedMsSince ctx t w = (ms, w')" "later w w'" "ms \<le> fc_timeout_ms ctx"
proof -
  obtain d where d: "fc_deadline ctx = Some d" "\<And>n. ns_to_ms (steady_ns w n - dl_start d) \<le> fc_timeout_ms ctx"
    using assms by (auto simp: in_time_def)
  obtain now w' where s: "steady_now w = (now, w')" by fastforce
  then have "later w w'" "now = steady_ns w (steady_reads w)" by (auto simp: steady_now_def later_def)
  with d s that [of "ns_to_ms (now - dl_start d)" w'] show ?thesis by (simp add: ElapsedMsSince_def ElapsedMs_def)
qed

text \<open>An answer in time passes through, with headers added, and the circuit stays closed.\<close>

lemma governed_success:
  assumes "in_time ctx w" "om_get (fc_headers ctx) ''X-Debug-Sleep-Ms'' = None" "om_get (fc_headers ctx) ''X-Debug-Force-Status'' = None"
    and "cbs_state (circuit cs (fc_upstream ctx)) = CLOSED"
    and inner: "\<And>v. later w v \<Longrightarrow>
      \<exists>good v' s'. inner ctx v s = (good, ctx, v', s') \<and> later v v' \<and> rsp_status good < 500 \<and> P good s'"
  obtains rsp good w' cs' s' where "Governance_Forward cfg inner ctx w (cs, s) = (rsp, ctx, w', cs', s')"
    "later w w'" "rsp_status rsp = rsp_status good" "rsp_body rsp = rsp_body good" "P good s'"
    "cbs_state (circuit cs' (fc_upstream ctx)) = CLOSED"
proof (cases "gov_enabled cfg")
  case False
  obtain good v' s' where i: "inner ctx w s = (good, ctx, v', s')" "later w v'" "P good s'"
    using inner [OF later_refl] by blast
  with False that [of good v' cs s' good] assms(4) show ?thesis by (simp add: Governance_Forward_def)
next
  case True
  let ?u = "fc_upstream ctx" and ?cb = "gov_circuit_breaker cfg"
  obtain cs1 w1 where a: "AllowRequest ?cb ?u cs w = (True, cs1, w1)" "cbs_state (circuit cs1 ?u) = CLOSED"
    by (rule closed_allowed [OF assms(4)])
  have l1: "later w w1" using later_AllowRequest [OF a(1)] .
  obtain w2 where e2: "DeadlineExceeded ctx w1 = (False, w2)" "later w1 w2"
    using in_time_not_exceeded in_time_later [OF assms(1) l1] by blast
  obtain t w3 where e3: "steady_now w2 = (t, w3)" "later w2 w3" using later_steady_now by (metis prod.collapse)
  have l3: "later w w3" using l1 e2(2) e3(2) later_trans by blast
  obtain w4 where e4: "DeadlineExceeded ctx w3 = (False, w4)" "later w3 w4"
    using in_time_not_exceeded in_time_later [OF assms(1) l3] by blast
  have l4: "later w w4" using l3 e4(2) by (rule later_trans)
  obtain good w5 s' where i: "inner ctx w4 s = (good, ctx, w5, s')" "later w4 w5" "rsp_status good < 500" "P good s'"
    using inner [OF l4] by blast
  have call: "CallOnce inner ctx w3 s = (good, ctx, w5, s')"
    using assms(2,3) e4(1) i(1) by (simp add: CallOnce_def HeaderToInt_def)
  have l5: "later w w5" using l4 i(2) by (rule later_trans)
  obtain ms w6 where e6: "ElapsedMsSince ctx t w5 = (ms, w6)" "later w5 w6" "ms \<le> fc_timeout_ms ctx"
    using in_time_elapsed in_time_later [OF assms(1) l5] by blast
  have l6: "later w w6" using l5 e6(2) by (rule later_trans)
  obtain w7 where e7: "DeadlineExceeded ctx w6 = (False, w7)" "later w6 w7"
    using in_time_not_exceeded in_time_later [OF assms(1) l6] by blast
  let ?r = "set_header ''X-Governance-Elapsed-Ms'' (show_int ms) (set_header ''X-Governance-Attempt'' (show_int 1) good)"
  obtain cs2 w8 where r: "RecordResult ?cb ?u True cs1 w7 = (cs2, w8)" by fastforce
  have c: "cbs_state (circuit cs2 ?u) = CLOSED"
    using r a(2) closed_success(1) by (cases "steady_now w7") (auto simp: RecordResult_def circuit_def split: if_splits)
  have "attempt_once cfg inner (max_attempts_of cfg) 1 ctx w1 (cs1, s) = (Return ?r, ctx, w8, cs2, s')"
    using e2 e3 call e6 e7 r i(3) by (simp add: attempt_once_def IsFailureResponse_def)
  moreover have "1 \<le> max_attempts_of cfg" by (rule max_attempts_pos)
  ultimately have "attempt_loop cfg inner (max_attempts_of cfg) 1 None ctx w1 (cs1, s) = (Inl ?r, ctx, w8, cs2, s')"
    by (simp add: attempt_loop.simps [of cfg inner "max_attempts_of cfg" 1])
  then have "Governance_Forward cfg inner ctx w (cs, s) = (?r, ctx, w8, cs2, s')"
    using True a(1) by (simp add: Governance_Forward_def)
  moreover have "later w w8" using l6 e7(2) later_RecordResult [OF r] later_trans by blast
  ultimately show ?thesis using that [of ?r w8 cs2 s' good] c i(4) by simp
qed

section \<open>The gateway handler\<close>

lemma with_identity_get:
  "om_get (req_headers (with_identity a request)) k =
     (if 0 < ar_user_id a \<and> k = ''X-User-Id'' then Some (show_int (ar_user_id a))
      else if 0 < ar_user_id a \<and> k = ''X-Username'' then Some (ar_username a)
      else if 0 < ar_user_id a \<and> k = ''X-Role'' then Some (ar_role a)
      else om_get (req_headers request) k)"
  by (simp add: with_identity_def put_req_header_def)

text \<open>The filter passes the request, at any time, with the result \<open>a\<close>.\<close>

definition passes :: "('s, 'r) GatewayHandler \<Rightarrow> HttpRequest \<Rightarrow> AuthResult \<Rightarrow> World \<Rightarrow> bool" where
  "passes h request a w \<longleftrightarrow>
     (\<forall>fwd v res v'. later w v \<longrightarrow> gateway_auth h request fwd v = (res, v') \<longrightarrow> res = Inr (with_identity a fwd))"

definition unlimited :: "('s, 'r) GatewayState \<Rightarrow> bool" where
  "unlimited st \<longleftrightarrow> (\<forall>f. gw_limiter st = Some f \<longrightarrow> \<not> rl_enabled (rlf_config f))"

lemma unlimited_allows: "unlimited st \<Longrightarrow> gateway_limit h fwd match w st = (d, w', st') \<Longrightarrow> rd_allowed d"
  by (auto simp: unlimited_def gateway_limit_def RateLimitFilter_Check_def RateLimitDecision_default_def
      split: option.splits prod.splits)

text \<open>The handler's steps up to a given point only read the clocks.\<close>

lemma Handle_starts:
  assumes "Gateway_Handle h request w st = (rsp, w', st')" "RouteRuleManager_Match (gh_routes h) (req_path request) = Some match"
    and "passes h request a w" "unlimited st"
  obtains sp started v st2 d r v' st3 where "later w v" "gw_upstream st2 = gw_upstream st"
    "gateway_forward h request (with_identity a (with_trace sp request)) match sp d v st2 = (r, v', st3)"
    "gateway_finish h request sp started r (rc_upstream (rmr_route match)) v' st3 = (rsp, w', st')"
  using assms(1)
proof (cases rule: Handle_cases)
  case (no_route sp started w2 st1)
  then show ?thesis using assms(2) by simp
next
  case (forbidden sp started w2 st1 match' refusal w3)
  then show ?thesis using assms(3) gateway_begin_frame(2) [OF forbidden(1)] unfolding passes_def by blast
next
  case (limited sp started w2 st1 match' fwd w3 d w4 st2)
  have "unlimited st1" using assms(4) gateway_begin_frame(1) [OF limited(1)] by (simp add: unlimited_def traced_def)
  then show ?thesis using unlimited_allows limited(4,5) by blast
next
  case (forwarded sp started w2 st1 match' fwd w3 d w4 st2 r w5 st3)
  note fw = forwarded and b = gateway_begin_frame [OF fw(1)]
  have m: "match' = match" using fw(2) assms(2) by simp
  have "fwd = with_identity a (with_trace sp request)" using assms(3) b(2) fw(3) unfolding passes_def by blast
  moreover have "later w3 w4" using fw(4) later_Check by (auto simp: gateway_limit_def split: option.splits prod.splits)
  then have "later w w4" using b(2) auth_frame [OF fw(3)] later_trans by blast
  moreover have "gw_upstream st2 = gw_upstream st" using gateway_limit_spec(1) [OF fw(4)] b(1) by (simp add: traced_def)
  ultimately show ?thesis using that fw(6,7) m by blast
qed

lemma Handle_served:
  assumes "Gateway_Handle h request w st = (rsp, w', st')" "RouteRuleManager_Match (gh_routes h) (req_path request) = Some match"
    and "passes h request a w" "unlimited st"
  obtains ctx v r ctx' v' where "later w v" "gh_upstream h ctx v (gw_upstream st) = (r, ctx', v', gw_upstream st')"
    "rsp_status rsp = rsp_status r" "rsp_body rsp = rsp_body r"
    "fc_request_id ctx = req_request_id request" "fc_upstream ctx = rc_upstream (rmr_route match)"
    "fc_upstream_path ctx = rmr_upstream_path match" "fc_method ctx = req_method request"
    "fc_query ctx = req_query request" "fc_body ctx = req_body request"
    "\<And>k. k \<notin> trace_keys \<Longrightarrow> k \<noteq> ''X-Request-Id'' \<Longrightarrow> om_get (fc_headers ctx) k =
       (if k \<in> set forwarded_headers then om_get (req_headers (with_identity a request)) k else None)"
    "fresh_deadline (rc_timeout_ms (rmr_route match)) w ctx"
proof -
  obtain sp started v st2 d r v' st3 where s: "later w v" "gw_upstream st2 = gw_upstream st"
    and f: "gateway_forward h request (with_identity a (with_trace sp request)) match sp d v st2 = (r, v', st3)"
    and e: "gateway_finish h request sp started r (rc_upstream (rmr_route match)) v' st3 = (rsp, w', st')"
    by (rule Handle_starts [OF assms])
  note fin = gateway_finish_spec [OF e]
  show ?thesis
  proof (rule gateway_forward_spec [OF f])
    fix ctx w1 q ctx' w2 s'
    assume c: "gh_upstream h ctx w1 (gw_upstream st2) = (q, ctx', w2, s')" "gw_upstream st3 = s'"
      "rsp_status r = rsp_status q" "rsp_body r = rsp_body q"
      "fc_request_id ctx = req_request_id (with_identity a (with_trace sp request))"
      "fc_upstream ctx = rc_upstream (rmr_route match)" "fc_upstream_path ctx = rmr_upstream_path match"
      "fc_method ctx = req_method (with_identity a (with_trace sp request))"
      "fc_query ctx = req_query (with_identity a (with_trace sp request))"
      "fc_body ctx = req_body (with_identity a (with_trace sp request))"
      and hs: "\<And>k. k \<notin> trace_keys \<Longrightarrow> k \<noteq> ''X-Request-Id'' \<Longrightarrow> om_get (fc_headers ctx) k =
        (if k \<in> set forwarded_headers then om_get (req_headers (with_identity a (with_trace sp request))) k else None)"
      and d: "fresh_deadline (rc_timeout_ms (rmr_route match)) v ctx" "later v w1"
    have "fresh_deadline (rc_timeout_ms (rmr_route match)) w ctx"
      using d(1) s(1) by (simp add: fresh_deadline_def later_def)
    moreover have "later w w1" using s(1) d(2) by (rule later_trans)
    ultimately show ?thesis using that [of w1 ctx q ctx' w2] c s(2) fin hs with_trace_other [of _ sp request]
      by (simp add: with_identity_get)
  qed
qed

section \<open>The program's gateway\<close>

lemma fresh_in_time:
  assumes "fresh_deadline t w ctx" "quick t w" "0 < t" "later w v"
  shows "in_time ctx v"
proof -
  obtain d n where d: "fc_deadline ctx = Some d" "\<not> dl_cancelled d" "dl_start d = steady_ns w n"
    "dl_deadline d = dl_start d + t * 1000000" "fc_timeout_ms ctx = t"
    using assms(1,3) by (auto simp: fresh_deadline_def)
  have "steady_ns v m < dl_deadline d \<and> ns_to_ms (steady_ns v m - dl_start d) \<le> t" for m
    using quick_elapsed [OF assms(2), of m n] assms(2-4) d(3,4) by (simp add: quick_def later_def algebra_simps)
  with d show ?thesis by (auto simp: in_time_def)
qed

text \<open>The repository of the user service when it runs in the gateway's own process.\<close>

definition app_repository :: "AppConfig \<Rightarrow> ('j, 'n, 'r) Environment \<Rightarrow> UserRepository" where
  "app_repository config env =
     (if my_enabled (app_mysql config) then MysqlCliUserRepository (app_mysql config) (env_popen env) else InMemoryUserRepository)"

lemma choose_in_process:
  "\<not> usr_enabled (app_user_service_rpc config) \<Longrightarrow>
     in_process (app_repository config env) (choose_user_service config env :: 'n UserServiceOps)"
  by (auto simp: in_process_def choose_user_service_def stateless_def app_repository_def UserServiceImpl_def split: prod.split)

text \<open>
  A request that the program routes to an operation of the user service, with time enough for
  it, and a state in which it is served: no failures have opened the circuit.
\<close>

definition routed :: "AppConfig \<Rightarrow> HttpRequest \<Rightarrow> string \<Rightarrow> World \<Rightarrow> bool" where
  "routed config request operation w \<longleftrightarrow>
     req_method request \<in> {''GET'', ''POST''} \<and> req_path request \<notin> exact_paths \<and>
     om_get (req_headers request) ''X-Debug-Sleep-Ms'' = None \<and>
     om_get (req_headers request) ''X-Debug-Force-Status'' = None \<and>
     (\<exists>match. RouteRuleManager_Match (RouteRuleManager (app_routes config)) (req_path request) = Some match \<and>
        rc_upstream (rmr_route match) = ''UserService'' \<and> rmr_upstream_path match = operation \<and>
        0 < rc_timeout_ms (rmr_route match) \<and> quick (rc_timeout_ms (rmr_route match)) w)"

definition ready :: "AppConfig \<Rightarrow> ('n app_upstream, 'r) GatewayState \<Rightarrow> bool" where
  "ready config st \<longleftrightarrow>
     kept (app_tracing config) (app_rate_limit config) st \<and> \<not> rl_enabled (app_rate_limit config) \<and>
     cbs_state (circuit (fst (gw_upstream st)) ''UserService'') = CLOSED"

lemma ready_build: "\<not> rl_enabled (app_rate_limit config) \<Longrightarrow> ready config (build_state config env n r)"
  by (simp add: ready_def build_state_def kept_def kept_tracer_def circuit_def CircuitBreakerRuntimeState_default_def)

lemma dispatch_gateway:
  assumes "req_method request \<in> {''GET'', ''POST''}" "req_path request \<notin> exact_paths"
  shows "Dispatch (BuildRouter config env listing) request = Gateway_Handle (build_gateway config env) request"
proof (intro ext)
  fix w st
  have "rt_routes (BuildRouter config env listing) (MakeRouteKey (req_method request) (req_path request)) = None"
    using assms
    by (auto simp: BuildRouter_def SetFallback_def AddRoute_def Router_default_def MakeRouteKey_def exact_paths_def Let_def)
  then show "Dispatch (BuildRouter config env listing) request w st = Gateway_Handle (build_gateway config env) request w st"
    by (simp add: Dispatch_def) (simp add: BuildRouter_def SetFallback_def Let_def)
qed

text \<open>What the user service answers in time is what the client of the gateway gets.\<close>

lemma user_request_served:
  assumes "routed config request operation w" "passes (build_gateway config env) request a w" "ready config st"
    and inner: "\<And>ctx v. later w v \<Longrightarrow> on_time ctx v \<Longrightarrow> fc_upstream ctx = ''UserService'' \<Longrightarrow>
      fc_upstream_path ctx = operation \<Longrightarrow> fc_method ctx = req_method request \<Longrightarrow> fc_query ctx = req_query request \<Longrightarrow>
      fc_body ctx = req_body request \<Longrightarrow>
      om_get (fc_headers ctx) ''X-User-Id'' = om_get (req_headers (with_identity a request)) ''X-User-Id'' \<Longrightarrow>
      \<exists>good v' s'. LocalRpc_Forward (choose_user_service config env) (Some (app_auth config)) ctx v (snd (gw_upstream st)) =
          (good, ctx, v', s') \<and> later v v' \<and> rsp_status good < 500 \<and> P good s'"
    and "Dispatch (BuildRouter config env listing) request w st = (rsp, w', st')"
  obtains good where "rsp_status rsp = rsp_status good" "rsp_body rsp = rsp_body good" "P good (snd (gw_upstream st'))"
    "ready config st'"
proof -
  obtain match where m: "RouteRuleManager_Match (RouteRuleManager (app_routes config)) (req_path request) = Some match"
    "rc_upstream (rmr_route match) = ''UserService''" "rmr_upstream_path match = operation"
    "0 < rc_timeout_ms (rmr_route match)" "quick (rc_timeout_ms (rmr_route match)) w"
    and dbg: "om_get (req_headers request) ''X-Debug-Sleep-Ms'' = None"
      "om_get (req_headers request) ''X-Debug-Force-Status'' = None"
    using assms(1) by (auto simp: routed_def)
  let ?h = "build_gateway config env"
  have h: "Gateway_Handle ?h request w st = (rsp, w', st')"
    using assms(1,5) dispatch_gateway by (metis routed_def)
  have hm: "RouteRuleManager_Match (gh_routes ?h) (req_path request) = Some match" using m(1) by (simp add: build_gateway_def)
  have un: "unlimited st" using assms(3) by (auto simp: ready_def kept_def unlimited_def)
  show thesis
  proof (rule Handle_served [OF h hm assms(2) un])
    fix ctx v r ctx' v'
    assume l: "later w v" and c: "gh_upstream ?h ctx v (gw_upstream st) = (r, ctx', v', gw_upstream st')"
      and rsp: "rsp_status rsp = rsp_status r" "rsp_body rsp = rsp_body r"
      and rid: "fc_request_id ctx = req_request_id request"
      and f: "fc_upstream ctx = rc_upstream (rmr_route match)"
        "fc_upstream_path ctx = rmr_upstream_path match" "fc_method ctx = req_method request"
        "fc_query ctx = req_query request" "fc_body ctx = req_body request"
      and hs: "\<And>k. k \<notin> trace_keys \<Longrightarrow> k \<noteq> ''X-Request-Id'' \<Longrightarrow> om_get (fc_headers ctx) k =
         (if k \<in> set forwarded_headers then om_get (req_headers (with_identity a request)) k else None)"
      and d: "fresh_deadline (rc_timeout_ms (rmr_route match)) w ctx"
    have t: "in_time ctx v" by (rule fresh_in_time [OF d m(5,4) l])
    have x: "om_get (fc_headers ctx) ''X-User-Id'' = om_get (req_headers (with_identity a request)) ''X-User-Id''"
      "om_get (fc_headers ctx) ''X-Debug-Sleep-Ms'' = None" "om_get (fc_headers ctx) ''X-Debug-Force-Status'' = None"
      using hs dbg by (simp_all add: trace_keys_def forwarded_headers_def with_identity_get)
    obtain cs s where p: "gw_upstream st = (cs, s)" by fastforce
    have closed: "cbs_state (circuit cs (fc_upstream ctx)) = CLOSED" using assms(3) p f(1) m(2) by (simp add: ready_def)
    have inner': "\<exists>good v2 s'. LocalRpc_Forward (choose_user_service config env) (Some (app_auth config)) ctx v1 s = (good, ctx, v2, s') \<and>
        later v1 v2 \<and> rsp_status good < 500 \<and> P good s'" if "later v v1" for v1
      using inner [OF later_trans [OF l that] in_time_on_time [OF in_time_later [OF t that]]] f m(2,3) x(1) p by simp
    obtain q good w2 cs' s' where g: "Governance_Forward (app_governance config)
        (LocalRpc_Forward (choose_user_service config env) (Some (app_auth config))) ctx v (cs, s) = (q, ctx, w2, cs', s')"
      "rsp_status q = rsp_status good" "rsp_body q = rsp_body good" "P good s'" "cbs_state (circuit cs' (fc_upstream ctx)) = CLOSED"
      by (rule governed_success [where P = P and s = s and inner = "LocalRpc_Forward (choose_user_service config env) (Some (app_auth config))",
          OF t x(2,3) closed inner'])
    have e: "r = q" "gw_upstream st' = (cs', s')" using c g(1) p by (simp_all add: build_gateway_def build_upstream_def)
    have "kept (app_tracing config) (app_rate_limit config) st'" using Handle_frame [OF h] assms(3) by (auto simp: ready_def)
    with assms(3) e g(5) f(1) m(2) have "ready config st'" by (simp add: ready_def)
    with that [of good] rsp e g(2-4) show thesis by simp
  qed
qed

section \<open>Who passes\<close>

lemma passes_public:
  assumes "req_path request \<in> set (auth_public_paths (app_auth config))"
  shows "passes (build_gateway config env) request (AuthResult_default\<lparr>ar_allowed := True\<rparr>) w"
  using assms
  by (auto simp: passes_def gateway_auth_def build_gateway_def build_auth_filter_def AuthFilter_Check_def IsPublicPath_def
      list_ex_iff Let_def split: prod.splits)

lemma passes_token:
  assumes "auth_enabled (app_auth config)" "req_path request \<notin> set (auth_public_paths (app_auth config))"
    and "FindHeader (req_headers request) ''Authorization'' = ''Bearer '' @ token"
    and "\<And>k. ValidateToken (app_auth config) (ns_to_s (system_ns w k)) token = Some r"
    and "IsRoleAllowed (build_auth_filter config) (req_path request) (tok_role r)"
  shows "passes (build_gateway config env) request (AuthResult_default\<lparr>ar_allowed := True, ar_user_id := tok_user_id r,
      ar_username := tok_username r, ar_role := tok_role r, ar_token := token\<rparr>) w"
proof -
  have "AuthFilter_Check (build_auth_filter config) (ns_to_s (system_ns w k)) request =
      AuthResult_default\<lparr>ar_allowed := True, ar_user_id := tok_user_id r, ar_username := tok_username r,
        ar_role := tok_role r, ar_token := token\<rparr>" for k
    using assms by (auto simp: AuthFilter_Check_def IsPublicPath_def list_ex_iff build_auth_filter_def starts_with_def
        AuthResult_default_def Let_def)
  then show ?thesis
    by (auto simp: passes_def gateway_auth_def build_gateway_def svc_NowUnixSeconds_def system_now_def later_def
        AuthResult_default_def Let_def)
qed

section \<open>Profiles and logins through the gateway\<close>

lemma profile_served:
  assumes "\<not> usr_enabled (app_user_service_rpc config)" "ready config st" "routed config request ''/profile'' w"
    and "req_method request = ''GET''" "passes (build_gateway config env) request a w"
    and "i = 0 \<Longrightarrow> 0 < ar_user_id a \<and> in_int64 (ar_user_id a)"
    and "GetInt64 (ParseQuery (req_query request)) ''user_id'' = Inr i"
    and "repo_FindById (app_repository config env) (if i = 0 then ar_user_id a else i) = Inr (Some user)"
    and "Dispatch (BuildRouter config env listing) request w st = (rsp, w', st')"
  shows "rsp_status rsp = 200 \<and> rsp_body rsp = ToJson (ApiResponse_Success (json_object (profile_fields user)))"
proof -
  let ?j = "if i = 0 then ar_user_id a else i"
  show ?thesis
  proof (rule user_request_served [OF assms(3,5,2) _ assms(9),
      where P = "\<lambda>good s'. rsp_status good = 200 \<and> rsp_body good = ToJson (ApiResponse_Success (json_object (profile_fields user)))"])
    fix ctx v
    assume c: "on_time ctx v" "fc_upstream ctx = ''UserService''" "fc_upstream_path ctx = ''/profile''"
      "fc_method ctx = req_method request" "fc_query ctx = req_query request"
      "om_get (fc_headers ctx) ''X-User-Id'' = om_get (req_headers (with_identity a request)) ''X-User-Id''"
    have "requested_user ctx = Inr ?j"
      using c(5,6) assms(6,7) stoll_show_int [of "ar_user_id a"]
      by (cases "i = 0") (auto simp: requested_user_def with_identity_get split: option.splits)
    from profile_on_time [OF choose_in_process [OF assms(1)] c(1,2) _ c(3) this assms(8)] c(4) assms(4)
    obtain v' where "later v v'" "LocalRpc_Forward (choose_user_service config env) (Some (app_auth config)) ctx v (snd (gw_upstream st)) =
        (BuildJsonResponse 200 (ApiResponse_Success (json_object (profile_fields user))) (fc_request_id ctx), ctx, v', snd (gw_upstream st))"
      by metis
    then show "\<exists>good v' s'. LocalRpc_Forward (choose_user_service config env) (Some (app_auth config)) ctx v (snd (gw_upstream st)) =
          (good, ctx, v', s') \<and> later v v' \<and> rsp_status good < 500 \<and>
          rsp_status good = 200 \<and> rsp_body good = ToJson (ApiResponse_Success (json_object (profile_fields user)))"
      by (auto simp: BuildJsonResponse_def)
  qed simp
qed

text \<open>The data of the answer to a login, with the token that is issued at the time \<open>iat\<close>.\<close>

definition session_fields :: "AuthConfig \<Rightarrow> UserRecord \<Rightarrow> int \<Rightarrow> string \<Rightarrow> (string \<times> string \<times> bool) list" where
  "session_fields cfg user iat request_id =
     [(''user_id'', show_int (ur_user_id user), False), (''username'', ur_username user, True), (''role'', ur_role user, True),
      (''token'', IssueToken cfg iat (ur_user_id user) (ur_username user) (ur_role user) request_id, True),
      (''token_type'', ''Bearer'', True)]"

lemma session_token:
  obtains m where "ParseFlatJsonObject (json_object (session_fields cfg user iat rid)) = Inr m"
    "GetString m ''token'' = IssueToken cfg iat (ur_user_id user) (ur_username user) (ur_role user) rid"
proof -
  let ?kvs = "session_fields cfg user iat rid"
  obtain m where m: "ParseFlatJsonObject (json_object ?kvs) = Inr m"
    "\<And>key. om_get m key = map_of (rev (map (\<lambda>(k, v, b). (k, v)) ?kvs)) key"
    using object_fields [of ?kvs] scalar_text_show_int by (auto simp: session_fields_def)
  show thesis by (rule that [OF m(1)]) (simp add: GetString_def m(2), simp add: session_fields_def)
qed

text \<open>A login request with the stored password of a user.\<close>

definition asks_login :: "AppConfig \<Rightarrow> ('j, 'n, 'r) Environment \<Rightarrow> UserRecord \<Rightarrow> World \<Rightarrow> HttpRequest \<Rightarrow> bool" where
  "asks_login config env user w request \<longleftrightarrow>
     routed config request ''/login'' w \<and> req_method request = ''POST'' \<and>
     req_path request \<in> set (auth_public_paths (app_auth config)) \<and>
     (\<exists>n. n \<noteq> [] \<and> ur_password user \<noteq> [] \<and>
        req_body request = json_object [(''username'', n, True), (''password'', ur_password user, True)] \<and>
        repo_FindByUsername (app_repository config env) n = Inr (Some user))"

lemma login_served:
  assumes "\<not> usr_enabled (app_user_service_rpc config)" "ready config st" "asks_login config env user w request"
    and "Dispatch (BuildRouter config env listing) request w st = (rsp, w', st')"
  obtains k rid where "rsp_status rsp = 200" "rsp_body rsp = ToJson (ApiResponse_Success
      (json_object (session_fields (app_auth config) user (ns_to_s (system_ns w k)) rid)))" "ready config st'"
proof -
  obtain n where n: "n \<noteq> []" "ur_password user \<noteq> []" "repo_FindByUsername (app_repository config env) n = Inr (Some user)"
    "req_body request = json_object [(''username'', n, True), (''password'', ur_password user, True)]"
    and r: "routed config request ''/login'' w" "req_method request = ''POST''"
      "req_path request \<in> set (auth_public_paths (app_auth config))"
    using assms(3) by (auto simp: asks_login_def)
  let ?kvs = "[(''username'', n, True), (''password'', ur_password user, True)]"
  obtain body where b: "ParseFlatJsonObject (json_object ?kvs) = Inr body"
    "\<And>key. om_get body key = map_of (rev (map (\<lambda>(k, v, b). (k, v)) ?kvs)) key"
    using object_fields [of ?kvs] by auto
  have g: "GetString body ''username'' = n" "GetString body ''password'' = ur_password user"
    by (simp_all add: GetString_def b(2))
  let ?f = "LocalRpc_Forward (choose_user_service config env) (Some (app_auth config))"
  let ?P = "\<lambda>good s'. \<exists>k rid. rsp_status good = 200 \<and> rsp_body good = ToJson (ApiResponse_Success
      (json_object (session_fields (app_auth config) user (ns_to_s (system_ns w k)) rid)))"
  show thesis
  proof (rule user_request_served [OF r(1) passes_public [OF r(3)] assms(2) _ assms(4), where P = ?P])
    fix ctx v
    assume l: "later w v" and c: "on_time ctx v" "fc_upstream ctx = ''UserService''" "fc_upstream_path ctx = ''/login''"
      "fc_method ctx = req_method request" "fc_body ctx = req_body request"
    have m: "fc_method ctx = ''POST''" "ParseFlatJsonObject (fc_body ctx) = Inr body" using c(4,5) r(2) n(4) b(1) by simp_all
    obtain k v' where "later v v'" "?f ctx v (snd (gw_upstream st)) = (BuildJsonResponse 200 (ApiResponse_Success
        (json_object (session_fields (app_auth config) user (ns_to_s (system_ns v k)) (fc_request_id ctx)))) (fc_request_id ctx),
        ctx, v', snd (gw_upstream st))"
      unfolding session_fields_def
      by (rule login_on_time [OF choose_in_process [OF assms(1)] c(1,2) m(1) c(3) m(2) g n(1,2,3) refl])
    moreover have "system_ns v = system_ns w" using l by (simp add: later_def)
    ultimately show "\<exists>good v' s'. ?f ctx v (snd (gw_upstream st)) = (good, ctx, v', s') \<and> later v v' \<and> rsp_status good < 500 \<and>
        ?P good s'"
      by (auto simp: BuildJsonResponse_def)
  qed (use that in auto)
qed

text \<open>A request for a profile, on a protected path that the role may use, with a token.\<close>

definition asks_profile :: "AppConfig \<Rightarrow> string \<Rightarrow> string \<Rightarrow> World \<Rightarrow> HttpRequest \<Rightarrow> bool" where
  "asks_profile config token role w request \<longleftrightarrow>
     routed config request ''/profile'' w \<and> req_method request = ''GET'' \<and>
     req_path request \<notin> set (auth_public_paths (app_auth config)) \<and>
     FindHeader (req_headers request) ''Authorization'' = ''Bearer '' @ token \<and>
     IsRoleAllowed (build_auth_filter config) (req_path request) role"

lemma token_profile_served:
  assumes "\<not> usr_enabled (app_user_service_rpc config)" "auth_enabled (app_auth config)" "ready config st"
    and "asks_profile config token (tok_role r) w request"
    and "\<And>k. ValidateToken (app_auth config) (ns_to_s (system_ns w k)) token = Some r"
    and "GetInt64 (ParseQuery (req_query request)) ''user_id'' = Inr i"
    and "i = 0 \<Longrightarrow> 0 < tok_user_id r \<and> in_int64 (tok_user_id r)"
    and "repo_FindById (app_repository config env) (if i = 0 then tok_user_id r else i) = Inr (Some user)"
    and "Dispatch (BuildRouter config env listing) request w st = (rsp, w', st')"
  shows "rsp_status rsp = 200 \<and> rsp_body rsp = ToJson (ApiResponse_Success (json_object (profile_fields user)))"
proof -
  have r: "routed config request ''/profile'' w" "req_method request = ''GET''"
    "req_path request \<notin> set (auth_public_paths (app_auth config))"
    "FindHeader (req_headers request) ''Authorization'' = ''Bearer '' @ token"
    "IsRoleAllowed (build_auth_filter config) (req_path request) (tok_role r)"
    using assms(4) by (auto simp: asks_profile_def)
  note pass = passes_token [OF assms(2) r(3,4) assms(5) r(5)]
  show ?thesis
    by (rule profile_served [OF assms(1,3) r(1,2) pass _ assms(6) _ assms(9)]) (use assms(7,8) in \<open>auto split: if_splits\<close>)
qed

section \<open>Properties\<close>


text \<open>
  C5: The holder of any accepted token is shown the profile of any user, the email address
  included, by naming that user in the query: the identity of the token plays no role.
\<close>

theorem any_token_reads_any_profile:
  assumes "\<not> usr_enabled (app_user_service_rpc config)" "auth_enabled (app_auth config)" "ready config st"
    and "asks_profile config token (tok_role r) w request"
    and "\<forall>k. ValidateToken (app_auth config) (ns_to_s (system_ns w k)) token = Some r"
    and "GetInt64 (ParseQuery (req_query request)) ''user_id'' = Inr i" "i \<noteq> 0"
    and "repo_FindById (app_repository config env) i = Inr (Some user)"
    and "Dispatch (BuildRouter config env listing) request w st = (rsp, w', st')"
  shows "rsp_status rsp = 200 \<and> rsp_body rsp = ToJson (ApiResponse_Success (json_object (profile_fields user)))"
  by (rule token_profile_served [OF assms(1-4) _ assms(6) _ _ assms(9)]) (use assms(5,7,8) in simp_all)

text \<open>The installation of the witnesses: the user service in the gateway's process, no limits.\<close>

definition open_config :: AppConfig where
  "open_config = AppConfig_default
     \<lparr>app_rate_limit := RateLimitConfig_default\<lparr>rl_enabled := False\<rparr>,
      app_routes := [RouteConfig_default\<lparr>rc_name := ''user'', rc_path := ''/api/user'', rc_upstream := ''UserService''\<rparr>]\<rparr>"

definition open_login :: HttpRequest where
  "open_login = demo_login_request
     \<lparr>req_body := json_object [(''username'', ''admin'', True), (''password'', ''123456'', True)]\<rparr>"

definition open_profile :: "string \<Rightarrow> string \<Rightarrow> HttpRequest" where
  "open_profile token query = demo_login_request
     \<lparr>req_method := ''GET'', req_path := ''/api/user/profile'', req_query := query, req_body := [],
      req_headers := [(''Authorization'', ''Bearer '' @ token)]\<rparr>"

lemma quick_still: "0 < t \<Longrightarrow> quick t demo_still"
  by (simp add: quick_def demo_still_def)

lemma open_routed:
  assumes "p = ''/login'' \<or> p = ''/profile''" "req_path request = ''/api/user'' @ p" "req_method request \<in> {''GET'', ''POST''}"
    and "req_headers request = [] \<or> (\<exists>v. req_headers request = [(''Authorization'', v)])"
  shows "routed open_config request p demo_still"
proof -
  have "RouteRuleManager_Match (RouteRuleManager (app_routes open_config)) (req_path request) =
      Some \<lparr>rmr_route = RouteConfig_default\<lparr>rc_name := ''user'', rc_path := ''/api/user'', rc_upstream := ''UserService''\<rparr>,
            rmr_original_path = req_path request, rmr_upstream_path = p\<rparr>"
    using assms(1,2)
    by (auto simp: open_config_def RouteRuleManager_def RouteConfig_default_def IsPrefixMatch_def BuildUpstreamPath_def starts_with_def)
  with assms quick_still show ?thesis by (auto simp: routed_def exact_paths_def RouteConfig_default_def)
qed

lemma open_ready: "ready open_config (build_state open_config demo_env () ())"
  by (rule ready_build) (simp add: open_config_def)

lemma open_repository: "app_repository open_config demo_env = InMemoryUserRepository"
  by (simp add: app_repository_def open_config_def AppConfig_default_def MysqlConfig_default_def)

lemma open_settings [simp]:
  "app_auth open_config = AuthConfig_default" "\<not> usr_enabled (app_user_service_rpc open_config)"
  "auth_enabled AuthConfig_default"
  by (simp_all add: open_config_def AppConfig_default_def UserServiceRpcConfig_default_def AuthConfig_default_def)

lemma open_requests:
  "req_path open_login = ''/api/user/login''" "req_method open_login = ''POST''" "req_headers open_login = []"
  "req_body open_login = json_object [(''username'', ''admin'', True), (''password'', ''123456'', True)]"
  "req_path (open_profile token query) = ''/api/user/profile''" "req_method (open_profile token query) = ''GET''"
  "req_query (open_profile token query) = query"
  "req_headers (open_profile token query) = [(''Authorization'', ''Bearer '' @ token)]"
  by (simp_all add: open_login_def open_profile_def demo_login_request_def)

lemma open_asks_login: "asks_login open_config demo_env AdminUser demo_still open_login"
proof -
  have "routed open_config open_login ''/login'' demo_still" by (rule open_routed) (simp_all add: open_requests)
  moreover have "repo_FindByUsername InMemoryUserRepository ''admin'' = Inr (Some AdminUser)" "ur_password AdminUser = ''123456''"
    by (simp_all add: InMemoryUserRepository_def InMemory_FindByUsername_def AdminUser_def)
  ultimately show ?thesis
    unfolding asks_login_def open_repository
    by (simp add: open_requests AuthConfig_default_def) (rule exI [of _ "''admin''"], simp)
qed

lemma open_asks_profile: "asks_profile open_config token role demo_still (open_profile token query)"
proof -
  have "routed open_config (open_profile token query) ''/profile'' demo_still"
    by (rule open_routed) (simp_all add: open_requests)
  then show ?thesis
    by (simp add: asks_profile_def open_requests AuthConfig_default_def IsRoleAllowed_def build_auth_filter_def open_config_def
        AppConfig_default_def)
qed

lemma open_query: "GetInt64 (ParseQuery ''user_id=10001'') ''user_id'' = Inr 10001" "GetInt64 (ParseQuery []) ''user_id'' = Inr 0"
  by code_simp+

lemma still_clock:
  "in_int64 (ns_to_s (system_ns demo_still j))"
  "in_int64 (ns_to_s (system_ns demo_still j) + auth_token_ttl_seconds AuthConfig_default)"
  "ns_to_s (system_ns demo_still k) < ns_to_s (system_ns demo_still j) + auth_token_ttl_seconds AuthConfig_default"
  by (simp_all add: demo_still_seconds in_int64_def INT64_MIN_def INT64_MAX_def AuthConfig_default_def)


theorem any_token_reads_any_profile_witness:
  "rsp_body (fst (Dispatch (BuildRouter open_config demo_env [])
     (open_profile (IssueToken AuthConfig_default 1000 7 ''eve'' ''user'' ''r'') ''user_id=10001'')
     demo_still (build_state open_config demo_env () ()))) =
   ToJson (ApiResponse_Success (json_object (profile_fields AdminUser)))"
proof -
  let ?t = "IssueToken AuthConfig_default 1000 7 ''eve'' ''user'' ''r''"
  let ?r = "\<lparr>tok_user_id = 7, tok_username = claim_text ''eve'', tok_role = claim_text ''user'', tok_issued_at = 1000,
       tok_expires_at = 8200\<rparr>"
  have t: "\<forall>k. ValidateToken (app_auth open_config) (ns_to_s (system_ns demo_still k)) ?t = Some ?r"
    using ValidateToken_IssueToken [of 7 1000 AuthConfig_default 1000 "''eve''" "''user''" "''r''"]
    by (simp add: demo_still_seconds AuthConfig_default_def in_int64_def INT64_MIN_def INT64_MAX_def)
  have q: "GetInt64 (ParseQuery (req_query (open_profile ?t ''user_id=10001''))) ''user_id'' = Inr 10001"
    by (simp only: open_requests open_query)
  have u: "repo_FindById (app_repository open_config demo_env) 10001 = Inr (Some AdminUser)"
    by (simp add: open_repository InMemoryUserRepository_def InMemory_FindById_def AdminUser_def)
  obtain rsp w' st' where d: "Dispatch (BuildRouter open_config demo_env []) (open_profile ?t ''user_id=10001'') demo_still
      (build_state open_config demo_env () ()) = (rsp, w', st')" by (rule prod_cases3)
  from any_token_reads_any_profile [OF _ _ open_ready open_asks_profile t q _ u d] d show ?thesis by simp
qed

end
