(* ===== verification/UserServer.thy ===== *)
theory UserServer
  imports RemoteUsers Logger
begin

text \<open>
  The process of \<^verbatim>\<open>src/service/user_service_server_main.cc\<close> around the sessions that
  RemoteUsers models: \<^verbatim>\<open>main\<close> with its accept loop, and one detached thread for each
  connection. A step is one turn of the loop or one whole session; the sessions share only the
  service, which keeps no state, so the order of their inner steps does not matter.
\<close>

section \<open>The process\<close>

text \<open>An exception that leaves a detached thread ends the process, as does the end of \<open>main\<close>.\<close>

datatype SessionThread = Accepted | Replied string

datatype ServerEnd = Running | Exited string | Terminated

record ServerProcess =
  svr_threads :: "SessionThread list"
  svr_end :: ServerEnd
  svr_clock :: World

definition fatal_error :: "exn \<Rightarrow> ServerEnd" where
  "fatal_error e = Exited (''fatal error: '' @ what e)"

text \<open>\<open>listen\<close> reads the address, opens, binds and listens, and may throw.\<close>

definition user_server_main ::
  "'f log_system \<Rightarrow> 'f \<Rightarrow> (string \<Rightarrow> nat \<Rightarrow> unit result) \<Rightarrow> string list \<Rightarrow> World \<Rightarrow> ServerProcess" where
  "user_server_main L f listen argv w =
     \<lparr>svr_threads = [],
      svr_end =
        (case ParseOptions argv of
           Inl e \<Rightarrow> fatal_error e
         | Inr options \<Rightarrow>
             (case fst (Logger_Init L (LogConfig_default\<lparr>log_path := ''logs/user-service.log''\<rparr>) None f) of
                Inl e \<Rightarrow> fatal_error e
              | Inr _ \<Rightarrow>
                  (case listen (so_host options) (so_port options) of
                     Inl e \<Rightarrow> fatal_error e
                   | Inr _ \<Rightarrow> Running))),
      svr_clock = w\<rparr>"

text \<open>One turn of the loop; accepting, or starting the thread, may throw.\<close>

definition accept_turn :: "exn option \<Rightarrow> ServerProcess \<Rightarrow> ServerProcess" where
  "accept_turn failed s =
     (case failed of
        Some e \<Rightarrow> s\<lparr>svr_end := fatal_error e\<rparr>
      | None \<Rightarrow> s\<lparr>svr_threads := svr_threads s @ [Accepted]\<rparr>)"

definition session_turn :: "'j json_lib \<Rightarrow> nat \<Rightarrow> string result \<Rightarrow> exn option \<Rightarrow> ServerProcess \<Rightarrow> ServerProcess" where
  "session_turn J i received write_error s =
     (case HandleSession J (UserServiceImpl InMemoryUserRepository) received write_error (svr_clock s) () of
        (None, w, _) \<Rightarrow> s\<lparr>svr_end := Terminated, svr_clock := w\<rparr>
      | (Some answer, w, _) \<Rightarrow> s\<lparr>svr_threads := (svr_threads s)[i := Replied answer], svr_clock := w\<rparr>)"

inductive user_server_step :: "'j json_lib \<Rightarrow> ServerProcess \<Rightarrow> ServerProcess \<Rightarrow> bool" for J where
  accept: "svr_end s = Running \<Longrightarrow> user_server_step J s (accept_turn failed s)"
| session: "svr_end s = Running \<Longrightarrow> i < length (svr_threads s) \<Longrightarrow> svr_threads s ! i = Accepted \<Longrightarrow>
    user_server_step J s (session_turn J i received write_error s)"
| time: "svr_end s = Running \<Longrightarrow> later (svr_clock s) w \<Longrightarrow> user_server_step J s (s\<lparr>svr_clock := w\<rparr>)"

inductive_cases user_server_stepE: "user_server_step J s s'"

lemma ended_no_step: "svr_end s \<noteq> Running \<Longrightarrow> (user_server_step J)\<^sup>*\<^sup>* s s' \<Longrightarrow> s' = s"
  by (erule converse_rtranclpE) (auto elim: user_server_stepE)

section \<open>Answers\<close>

text \<open>Every answer is a line, and the client of one connection never changes that of another.\<close>

lemma HandleSession_line: "HandleSession J service received write_error w u = (Some a, w', u') \<Longrightarrow> \<exists>p. a = p @ [LF]"
  by (auto simp: HandleSession_def session_error_def split: sum.splits prod.splits option.splits)

lemma HandleSession_silent:
  "HandleSession J service received write_error w u = (None, w', u') \<Longrightarrow>
     \<exists>e e'. jl_dump J (ErrorResponse J RPC_INTERNAL_ERROR (what e) []) = Inl e'"
  by (auto simp: HandleSession_def session_error_def split: sum.splits prod.splits option.splits)

definition answers_lines :: "ServerProcess \<Rightarrow> bool" where
  "answers_lines s \<longleftrightarrow> (\<forall>a. Replied a \<in> set (svr_threads s) \<longrightarrow> (\<exists>p. a = p @ [LF]))"

lemma answers_lines_step:
  assumes "user_server_step J s s'" "answers_lines s"
  shows "answers_lines s'"
  using assms(1)
proof (cases rule: user_server_step.cases)
  case (session i received write_error)
  obtain r w u where h: "HandleSession J (UserServiceImpl InMemoryUserRepository) received write_error (svr_clock s) () = (r, w, u)"
    by (rule prod_cases3)
  show ?thesis
  proof (cases r)
    case (Some a)
    obtain p where "a = p @ [LF]" using HandleSession_line [OF h [unfolded Some]] by blast
    moreover have "s' = s\<lparr>svr_threads := (svr_threads s)[i := Replied a], svr_clock := w\<rparr>"
      using session(1) h Some by (simp add: session_turn_def)
    ultimately show ?thesis
      using assms(2) set_update_subset_insert [of "svr_threads s" i "Replied a"] unfolding answers_lines_def by fastforce
  qed (use assms(2) session(1) h in \<open>simp add: session_turn_def answers_lines_def\<close>)
qed (use assms(2) in \<open>auto simp: answers_lines_def accept_turn_def split: option.splits\<close>)

lemma terminated_step:
  assumes "user_server_step J s s'" "svr_end s' = Terminated" "svr_end s \<noteq> Terminated"
  shows "\<exists>e e'. jl_dump J (ErrorResponse J RPC_INTERNAL_ERROR (what e) []) = Inl e'"
  using assms(1)
proof (cases rule: user_server_step.cases)
  case (session i received write_error)
  obtain r w u where h: "HandleSession J (UserServiceImpl InMemoryUserRepository) received write_error (svr_clock s) () = (r, w, u)"
    by (rule prod_cases3)
  with session(1) assms(2,3) have "r = None" by (cases r) (auto simp: session_turn_def)
  from HandleSession_silent [OF h [unfolded this]] show ?thesis .
qed (use assms(2,3) in \<open>auto simp: accept_turn_def fatal_error_def split: option.splits\<close>)

theorem user_server_answers_lines:
  assumes "(user_server_step J)\<^sup>*\<^sup>* (user_server_main L f listen argv w) s"
  shows "answers_lines s \<and>
    (svr_end s = Terminated \<longrightarrow> (\<exists>e e'. jl_dump J (ErrorResponse J RPC_INTERNAL_ERROR (what e) []) = Inl e'))"
  using assms
proof (induction rule: rtranclp_induct)
  case base
  then show ?case
    by (auto simp: user_server_main_def answers_lines_def fatal_error_def split: sum.splits)
next
  case (step s s')
  have "svr_end s \<noteq> Terminated" using step.hyps(2) by (auto elim!: user_server_stepE)
  with step show ?case using answers_lines_step terminated_step by blast
qed

section \<open>The network of the remote client\<close>

text \<open>
  The line network that the remote client is verified against is what a running process
  offers: it accepts the connection, and its thread answers, or the process ends.
\<close>

theorem user_server_is_network:
  assumes "svr_end s = Running"
  shows "(user_server_step J)\<^sup>*\<^sup>* s
    (case HandleSession J (UserServiceImpl InMemoryUserRepository) (Inr sent) None (svr_clock s) () of
       (None, w, _) \<Rightarrow> s\<lparr>svr_threads := svr_threads s @ [Accepted], svr_end := Terminated, svr_clock := w\<rparr>
     | (Some answer, w, _) \<Rightarrow> s\<lparr>svr_threads := svr_threads s @ [Replied answer], svr_clock := w\<rparr>)"
proof -
  let ?s1 = "accept_turn None s"
  have "user_server_step J s ?s1" using assms by (rule user_server_step.accept)
  moreover have "user_server_step J ?s1 (session_turn J (length (svr_threads s)) (Inr sent) None ?s1)"
    using assms by (intro user_server_step.session) (simp_all add: accept_turn_def)
  ultimately have "(user_server_step J)\<^sup>*\<^sup>* s (session_turn J (length (svr_threads s)) (Inr sent) None ?s1)" by simp
  then show ?thesis by (simp add: session_turn_def accept_turn_def split: prod.splits option.splits)
qed

section \<open>Properties\<close>

text \<open>
  C28: One connection ends the process for all: when a line does not parse and the text of the
  parser's error cannot be printed as JSON, the exception leaves the handler, and no session
  is answered any more.
\<close>

theorem one_line_ends_user_server:
  assumes "svr_end s = Running" "LF \<notin> set line" "jl_parse J line = Inl e"
    and "jl_dump J (ErrorResponse J RPC_INTERNAL_ERROR (what e) []) = Inl e'"
  shows "\<exists>s'. (user_server_step J)\<^sup>*\<^sup>* s s' \<and> svr_end s' = Terminated \<and>
    svr_threads s' = svr_threads s @ [Accepted] \<and> (\<forall>s''. (user_server_step J)\<^sup>*\<^sup>* s' s'' \<longrightarrow> s'' = s')"
proof -
  have "HandleSession J (UserServiceImpl InMemoryUserRepository) (Inr (line @ [LF])) None (svr_clock s) () =
      (None, svr_clock s, ())"
    using assms(2-4) by (simp add: HandleSession_def session_error_def bind_result_def)
  note n = user_server_is_network [OF assms(1), of J "line @ [LF]", unfolded this]
  let ?s = "s\<lparr>svr_threads := svr_threads s @ [Accepted], svr_end := Terminated, svr_clock := svr_clock s\<rparr>"
  have "(user_server_step J)\<^sup>*\<^sup>* s ?s" using n by simp
  moreover have "s'' = ?s" if "(user_server_step J)\<^sup>*\<^sup>* ?s s''" for s''
    by (rule ended_no_step [OF _ that]) simp
  ultimately show ?thesis by (intro exI [of _ ?s]) simp
qed

text \<open>A library that prints only ASCII and quotes the input when it does not parse.\<close>

fun ascii_value :: "jvalue \<Rightarrow> bool" where
  "ascii_value (JString s) \<longleftrightarrow> (\<forall>c \<in> set s. of_char c < (128 :: nat))"
| "ascii_value (JInt i) \<longleftrightarrow> True"
| "ascii_value (JObject ms) \<longleftrightarrow> (\<forall>(k, v) \<in> set ms. (\<forall>c \<in> set k. of_char c < (128 :: nat)) \<and> ascii_value v)"

definition ascii_json :: "jvalue json_lib" where
  "ascii_json = small_json
     \<lparr>jl_dump := (\<lambda>j. if ascii_value j then jl_dump small_json j else Inl (Runtime_error ''invalid UTF-8 byte'')),
      jl_parse := (\<lambda>s. case jl_parse small_json s of Inr j \<Rightarrow> Inr j
                       | Inl e \<Rightarrow> Inl (Runtime_error (''parse error: last read: '' @ s)))\<rparr>"

theorem one_line_ends_user_server_witness:
  "\<exists>s. (user_server_step ascii_json)\<^sup>*\<^sup>*
      (user_server_main \<lparr>ls_mkdir = (\<lambda>path f. (True, f)), ls_open = (\<lambda>path f. (Inr (), f)), ls_register = (\<lambda>name f. (Inr (), f))\<rparr>
         () (\<lambda>host port. Inr ()) [''tgw_user_service''] still_world) s \<and> svr_end s = Terminated"
proof -
  let ?s = "user_server_main \<lparr>ls_mkdir = (\<lambda>path f. (True, f)), ls_open = (\<lambda>path f. (Inr (), f)), ls_register = (\<lambda>name f. (Inr (), f))\<rparr>
         () (\<lambda>host port. Inr ()) [''tgw_user_service''] still_world"
  have r: "svr_end ?s = Running" by (simp add: user_server_main_def ParseOptions_def Logger_Init_def Let_def)
  have p: "jl_parse ascii_json [CHR ''9'', CHR 0xFF] = Inl (Runtime_error (''parse error: last read: '' @ [CHR ''9'', CHR 0xFF]))"
    by code_simp
  have d: "jl_dump ascii_json (ErrorResponse ascii_json RPC_INTERNAL_ERROR
      (what (Runtime_error (''parse error: last read: '' @ [CHR ''9'', CHR 0xFF]))) []) = Inl (Runtime_error ''invalid UTF-8 byte'')"
    by code_simp
  have l: "LF \<notin> set [CHR ''9'', CHR 0xFF]" by simp
  from one_line_ends_user_server [OF r l p d] show ?thesis by blast
qed

end
