(* ===== verification/RpcDemo.thy ===== *)
theory RpcDemo
  imports RemoteUsers Stores Logger
begin

text \<open>
  The demonstration program \<^verbatim>\<open>src/rpc/rpc_demo.cc\<close>: one call of each operation of the
  three services, in this process, and the lines it prints. Nothing catches exceptions, so
  one that a call or the log's setup throws ends the program.
\<close>

section \<open>The program\<close>

definition demo_context :: "World \<Rightarrow> RpcContext \<times> World" where
  "demo_context w =
     (case RpcContext_default w of (ctx, w1) \<Rightarrow>
        (ctx\<lparr>rpc_request_id := ''rpc-demo-001'', rpc_trace_id := ''trace-demo-001'', rpc_caller := ''rpc-demo'',
             rpc_timeout_ms := 1000\<rparr>, w1))"

text \<open>Steps 1 and 2: the two lines and the user id that the login answers.\<close>

definition demo_login_line :: "LoginResponse \<Rightarrow> string" where
  "demo_login_line rsp =
     ''Login code: '' @ show_int (RpcCode_int (meta_code (lrs_meta rsp))) @
     '', message: '' @ meta_message (lrs_meta rsp) @ '', token: '' @ lrs_token rsp"

definition demo_profile_line :: "GetProfileResponse \<Rightarrow> string" where
  "demo_profile_line rsp =
     ''Profile username: '' @ up_username (prs_profile rsp) @ '', email: '' @ up_email (prs_profile rsp)"

definition demo_users :: "UserRepository \<Rightarrow> RpcContext \<Rightarrow> World \<Rightarrow> (string list \<times> int \<times> RpcContext \<times> World) result" where
  "demo_users repo ctx w =
     (case UserService_Login repo ctx \<lparr>lrq_username = ''admin'', lrq_password = ''123456''\<rparr> w of
        (Inl e, _, _) \<Rightarrow> Inl e
      | (Inr login_rsp, ctx1, w1) \<Rightarrow>
          (case UserService_GetProfile repo ctx1 \<lparr>prq_user_id = lrs_user_id login_rsp\<rparr> w1 of
             (Inl e, _, _) \<Rightarrow> Inl e
           | (Inr profile_rsp, ctx2, w2) \<Rightarrow>
               Inr ([demo_login_line login_rsp, demo_profile_line profile_rsp], lrs_user_id login_rsp, ctx2, w2)))"

text \<open>Steps 3 and 4: the two lines and the id of the file.\<close>

definition demo_files :: "int \<Rightarrow> RpcContext \<Rightarrow> World \<Rightarrow> FileMetaServiceImpl \<Rightarrow> string list \<times> string \<times> RpcContext \<times> World" where
  "demo_files user_id ctx w s =
     (case CreateFileMeta ctx \<lparr>cfq_filename = ''demo.txt'', cfq_size = 1024, cfq_content_type = ''text/plain'',
                              cfq_owner_user_id = user_id\<rparr> w s of
        (create_rsp, ctx1, w1, s1) \<Rightarrow>
          (case GetFileMeta ctx1 \<lparr>gfq_file_id = cfs_file_id create_rsp\<rparr> w1 s1 of
             (get_rsp, ctx2, w2) \<Rightarrow>
               ([''CreateFileMeta file_id: '' @ cfs_file_id create_rsp,
                 ''GetFileMeta filename: '' @ fm_filename (gfs_file get_rsp) @
                   '', size: '' @ show_int (fm_size (gfs_file get_rsp))],
                cfs_file_id create_rsp, ctx2, w2)))"

text \<open>Steps 5 to 7.\<close>

definition TASK_STATUS_SUCCESS :: int where
  "TASK_STATUS_SUCCESS = 3"

definition demo_tasks :: "int \<Rightarrow> string \<Rightarrow> RpcContext \<Rightarrow> World \<Rightarrow> TaskServiceImpl \<Rightarrow> string list" where
  "demo_tasks user_id file_id ctx w s =
     (case CreateTask ctx \<lparr>ctq_task_type = ''compress_file'',
                          ctq_payload = ''{'' @ [QUOTE] @ ''file_id'' @ [QUOTE] @ '':'' @ [QUOTE] @ file_id @ [QUOTE] @ ''}'',
                          ctq_user_id = user_id\<rparr> w s of
        (create_rsp, ctx1, w1, s1) \<Rightarrow>
          (case SubmitTaskEvent ctx1 \<lparr>ev_task_id = cts_task_id create_rsp, ev_status = TASK_STATUS_SUCCESS,
                                     ev_message = ''task finished'', ev_timestamp = 1234567890\<rparr> w1 s1 of
             (ctx2, w2, s2) \<Rightarrow>
               (case GetTask ctx2 \<lparr>gtq_task_id = cts_task_id create_rsp\<rparr> w2 s2 of
                  (get_rsp, _, _) \<Rightarrow>
                    [''CreateTask task_id: '' @ cts_task_id create_rsp,
                     ''GetTask status: '' @ show_int (ti_status (gts_task get_rsp)) @
                       '', result: '' @ ti_result (gts_task get_rsp)])))"

definition rpc_demo :: "'f log_system \<Rightarrow> 'f \<Rightarrow> World \<Rightarrow> string list result" where
  "rpc_demo L f w =
     (case fst (Logger_Init L (LogConfig_default\<lparr>log_level := ''info'', log_path := ''logs/rpc_demo.log''\<rparr>) None f) of
        Inl e \<Rightarrow> Inl e
      | Inr _ \<Rightarrow>
          (case demo_context w of (ctx, w1) \<Rightarrow>
             bind_result (demo_users InMemoryUserRepository ctx w1) (\<lambda>(users, user_id, ctx1, w2).
               case demo_files user_id ctx1 w2 FileMetaServiceImpl_default of
                 (files, file_id, ctx2, w3) \<Rightarrow>
                   Inr (users @ files @ demo_tasks user_id file_id ctx2 w3 TaskServiceImpl_default))))"

section \<open>What it prints\<close>

lemma demo_numerals:
  "show_nat 0 = ''0''" "show_nat (Suc 0) = ''1''" "show_nat 3 = ''3''" "show_nat 1024 = ''1024''"
  by code_simp+

text \<open>A call without a deadline goes through, and leaves its context as it was.\<close>

lemma demo_users_lines:
  assumes "rpc_deadline ctx = None" "rpc_request_id ctx = ''rpc-demo-001''"
  shows "\<exists>w'. demo_users InMemoryUserRepository ctx w =
    Inr ([''Login code: 0, message: ok, token: mock-token-rpc-demo-001'',
          ''Profile username: admin, email: admin@example.com''], 10001, ctx, w')"
proof -
  obtain m1 w1 where m1: "FillMeta RPC_OK ''ok'' ctx (snd (rpc_DeadlineExceeded ctx w)) = (m1, w1)" by fastforce
  obtain m2 w2 where m2: "FillMeta RPC_OK ''ok'' ctx (snd (rpc_DeadlineExceeded ctx w1)) = (m2, w2)" by fastforce
  have "meta_code m1 = RPC_OK" "meta_message m1 = ''ok''"
    using FillMeta_simps(1,2) [of RPC_OK "''ok''" ctx "snd (rpc_DeadlineExceeded ctx w)"] m1 by simp_all
  then show ?thesis
    using m1 m2 assms
    by (simp add: demo_users_def UserService_Login_def UserService_GetProfile_def FillTimeoutIfCancelled_active
        rpc_active_no_deadline InMemoryUserRepository_def InMemory_FindByUsername_def InMemory_FindById_def AdminUser_def
        demo_login_line_def demo_profile_line_def show_int_def demo_numerals)
qed

lemma demo_files_lines:
  assumes "rpc_deadline ctx = None"
  shows "\<exists>w'. demo_files u ctx w FileMetaServiceImpl_default =
    ([''CreateFileMeta file_id: file-1'', ''GetFileMeta filename: demo.txt, size: 1024''], ''file-1'', ctx, w')"
proof -
  note a = rpc_active_no_deadline [OF assms]
  let ?req = "\<lparr>cfq_filename = ''demo.txt'', cfq_size = 1024, cfq_content_type = ''text/plain'', cfq_owner_user_id = u\<rparr>"
  let ?s = FileMetaServiceImpl_default
  obtain m w1 now where c: "CreateFileMeta ctx ?req w ?s =
      (\<lparr>cfs_meta = m, cfs_file_id = file_key (fms_file_seq ?s + 1)\<rparr>, ctx, w1,
       file_add (file_of ?req (file_key (fms_file_seq ?s + 1)) now) ?s)"
    using CreateFileMeta_adds [OF a, of ?req w ?s] by fastforce
  have k: "file_key (fms_file_seq ?s + 1) = ''file-1''"
    by (simp add: file_key_def FileMetaServiceImpl_default_def demo_numerals)
  let ?s1 = "file_add (file_of ?req ''file-1'' now) ?s"
  obtain g ctx2 w2 where g: "GetFileMeta ctx \<lparr>gfq_file_id = ''file-1''\<rparr> w1 ?s1 = (g, ctx2, w2)" by (rule prod_cases3)
  have "fms_files ?s1 ''file-1'' = Some (file_of ?req ''file-1'' now)" by (simp add: file_add_def k)
  then have "gfs_file g = file_of ?req ''file-1'' now" "ctx2 = ctx"
    using GetFileMeta_reads(1) [OF a, of ?s1 "''file-1''" _ w1] g a
    by (auto simp: GetFileMeta_def FillTimeoutIfCancelled_active split: prod.splits)
  then show ?thesis using c g by (simp add: demo_files_def k file_of_def show_int_def demo_numerals)
qed

lemma demo_tasks_lines:
  assumes "rpc_deadline ctx = None"
  shows "demo_tasks u i ctx w TaskServiceImpl_default =
    [''CreateTask task_id: task-1'', ''GetTask status: 3, result: task finished'']"
proof -
  note a = rpc_active_no_deadline [OF assms]
  let ?req = "\<lparr>ctq_task_type = ''compress_file'',
      ctq_payload = ''{'' @ [QUOTE] @ ''file_id'' @ [QUOTE] @ '':'' @ [QUOTE] @ i @ [QUOTE] @ ''}'', ctq_user_id = u\<rparr>"
  let ?s = TaskServiceImpl_default
  let ?ev = "\<lparr>ev_task_id = ''task-1'', ev_status = TASK_STATUS_SUCCESS, ev_message = ''task finished'', ev_timestamp = 1234567890\<rparr>"
  obtain m w1 now where c: "CreateTask ctx ?req w ?s =
      (\<lparr>cts_meta = m, cts_task_id = task_key (tms_task_seq ?s + 1)\<rparr>, ctx, w1,
       task_add (task_of ?req (task_key (tms_task_seq ?s + 1)) now) ?s)"
    using CreateTask_adds [OF a, of ?req w ?s] by fastforce
  have k: "task_key (tms_task_seq ?s + 1) = ''task-1''"
    by (simp add: task_key_def TaskServiceImpl_default_def demo_numerals)
  let ?s1 = "task_add (task_of ?req ''task-1'' now) ?s"
  obtain ctx2 w2 s2 where e: "SubmitTaskEvent ctx ?ev w1 ?s1 = (ctx2, w2, s2)" by (rule prod_cases3)
  have "tms_tasks ?s1 ''task-1'' = Some (task_of ?req ''task-1'' now)" by (simp add: task_add_def k)
  then have s2: "tms_tasks s2 ''task-1'' = Some (apply_event ?ev (task_of ?req ''task-1'' now))" "ctx2 = ctx"
    using SubmitTaskEvent_active [OF a e] by simp_all
  obtain g ctx3 w3 where g: "GetTask ctx \<lparr>gtq_task_id = ''task-1''\<rparr> w2 s2 = (g, ctx3, w3)" by (rule prod_cases3)
  then have "ti_status (gts_task g) = 3" "ti_result (gts_task g) = ''task finished''"
    using GetTask_reads(1) [OF a s2(1), of w2] by (simp_all add: apply_event_def TASK_STATUS_SUCCESS_def)
  then show ?thesis
    unfolding demo_tasks_def c [unfolded k] prod.case CreateTaskResponse.simps e s2(2) g
    by (simp add: show_int_def demo_numerals)
qed

text \<open>
  Whatever the clock does, the program prints these six lines, or none if the log cannot be
  set up. The payload of the task appears in none of them: no service keeps it.
\<close>

theorem rpc_demo_prints:
  "rpc_demo L f w =
     (case fst (Logger_Init L (LogConfig_default\<lparr>log_level := ''info'', log_path := ''logs/rpc_demo.log''\<rparr>) None f) of
        Inl e \<Rightarrow> Inl e
      | Inr _ \<Rightarrow> Inr
          [''Login code: 0, message: ok, token: mock-token-rpc-demo-001'',
           ''Profile username: admin, email: admin@example.com'',
           ''CreateFileMeta file_id: file-1'',
           ''GetFileMeta filename: demo.txt, size: 1024'',
           ''CreateTask task_id: task-1'',
           ''GetTask status: 3, result: task finished''])"
proof -
  obtain ctx w1 where c: "demo_context w = (ctx, w1)" by fastforce
  then have x: "rpc_deadline ctx = None" "rpc_request_id ctx = ''rpc-demo-001''"
    by (auto simp: demo_context_def RpcContext_default_def split: prod.splits)
  obtain w2 where u: "demo_users InMemoryUserRepository ctx w1 =
    Inr ([''Login code: 0, message: ok, token: mock-token-rpc-demo-001'',
          ''Profile username: admin, email: admin@example.com''], 10001, ctx, w2)"
    using demo_users_lines [OF x] by blast
  obtain w3 where f: "demo_files 10001 ctx w2 FileMetaServiceImpl_default =
    ([''CreateFileMeta file_id: file-1'', ''GetFileMeta filename: demo.txt, size: 1024''], ''file-1'', ctx, w3)"
    using demo_files_lines [OF x(1)] by blast
  show ?thesis
    by (simp add: rpc_demo_def c u f demo_tasks_lines [OF x(1)] bind_result_def split: sum.split)
qed

end
