(* ===== verification/Spec2Isabelle.thy ===== *)
theory Spec2Isabelle
  imports EndToEnd UserServer RpcDemo
begin

text \<open>
  A verification development of the tRPC gateway platform: an HTTP gateway that routes,
  authenticates, limits and forwards requests to user, file metadata and task services, with
  circuit breakers, metrics and tracing, and a separate user service process. The theories
  translate the C++ sources under \<^verbatim>\<open>src/\<close> and \<^verbatim>\<open>include/tgw/\<close> function by function; names are
  those of the code, with a class name or prefix in front where they clash.

  \<^bold>\<open>How the program works.\<close> \<^verbatim>\<open>main.cc\<close> reads a configuration, builds the components and the
  router, and starts the HTTP server. A session of the server reads a request, gives it an id
  and hands it to the router in a worker thread. The router has a few pages of its own; every
  other request goes to the gateway handler, which matches a route, checks the bearer token
  and the role, checks the rate limit, and forwards the request with the token's identity to
  the governance client. That one enforces the deadline, retries, and asks the circuit breaker
  of the route's upstream before it calls the local RPC client, which decodes the request,
  calls a service and encodes the answer. Metrics and spans are recorded on the way.

  \<^bold>\<open>What the theories model.\<close>
  \<^item> \<^verbatim>\<open>Prelude\<close>, \<^verbatim>\<open>CppStd\<close>: exceptions as values, ordered maps, the clocks of the machine, and
    what the code uses of the C++ library (searching strings, printing and reading numbers).
  \<^item> \<^verbatim>\<open>Http\<close>, \<^verbatim>\<open>Config\<close>: \<^verbatim>\<open>http_types.h\<close>, \<^verbatim>\<open>status.h\<close>, and the structures of \<^verbatim>\<open>config.h\<close>;
    \<^verbatim>\<open>ConfigLoader\<close>: \<^verbatim>\<open>config.cc\<close>, section by section, over a YAML library that is a parameter.
  \<^item> \<^verbatim>\<open>RouteRules\<close>, \<^verbatim>\<open>Sha256\<close>, \<^verbatim>\<open>Base64Url\<close>, \<^verbatim>\<open>TokenService\<close>, \<^verbatim>\<open>AuthFilter\<close>, \<^verbatim>\<open>RateLimit\<close>:
    \<^verbatim>\<open>route_rule.cc\<close>, \<^verbatim>\<open>token_service.cc\<close> down to the bits of its hash function,
    \<^verbatim>\<open>auth_filter.cc\<close> and \<^verbatim>\<open>rate_limit_filter.cc\<close> with its local and its Redis windows.
  \<^item> \<^verbatim>\<open>Deadline\<close>, \<^verbatim>\<open>Upstream\<close>, \<^verbatim>\<open>Governance\<close>: \<^verbatim>\<open>deadline.h\<close>, \<^verbatim>\<open>forward_context.h\<close>, the contract of
    upstream clients with the mock client, and \<^verbatim>\<open>governance_upstream_client.cc\<close>.
  \<^item> \<^verbatim>\<open>Rpc\<close>, \<^verbatim>\<open>Users\<close>, \<^verbatim>\<open>Stores\<close>, \<^verbatim>\<open>FieldParsing\<close>, \<^verbatim>\<open>LocalRpc\<close>: the messages, the user
    repositories and services, the file and task stores, and \<^verbatim>\<open>local_rpc_upstream_client.cc\<close>.
    \<^verbatim>\<open>RemoteUsers\<close>: the user service over the network, the client and the server's sessions;
    \<^verbatim>\<open>UserServer\<close>: the process around them; \<^verbatim>\<open>RpcDemo\<close>: the program \<^verbatim>\<open>rpc_demo.cc\<close>.
  \<^item> \<^verbatim>\<open>Metrics\<close>, \<^verbatim>\<open>JsonShape\<close>, \<^verbatim>\<open>Tracing\<close>, \<^verbatim>\<open>Admin\<close>: \<^verbatim>\<open>metrics.cc\<close>, the shape of the JSON that
    the code prints by hand, \<^verbatim>\<open>tracing.cc\<close> and \<^verbatim>\<open>admin_handler.cc\<close>.
  \<^item> \<^verbatim>\<open>Gateway\<close>, \<^verbatim>\<open>HttpServer\<close>, \<^verbatim>\<open>Logger\<close>, \<^verbatim>\<open>Application\<close>: \<^verbatim>\<open>router.cc\<close> and
    \<^verbatim>\<open>gateway_handler.cc\<close>, \<^verbatim>\<open>http_server.cc\<close>, \<^verbatim>\<open>logger.cc\<close>, and \<^verbatim>\<open>main.cc\<close>, which wires all of
    it. \<^verbatim>\<open>EndToEnd\<close> follows a login and a profile request through router, filter, governance
    client and services; this theory states what holds of every run of the whole program.

  \<^bold>\<open>State and effects.\<close> A component with state is a record that its operations return updated;
  an operation under a mutex is one step. A call that may throw returns \<open>exn + 'a\<close>. The two
  clocks are streams of arbitrary readings in a \<^typ>\<open>World\<close> that counts how many were read, so
  any time may pass between two readings; only where a property needs it does the steady clock
  never go back (\<open>steady_mono\<close>). Machine integers are words where the code relies on their
  width and unbounded with explicit casts elsewhere. Sessions and the server are step
  relations whose steps are completion handlers, so every order of reads, writes, worker
  tasks, timeouts, accepts and signals is covered.

  \<^bold>\<open>Interfaces.\<close> Keyed stores, text encodings, rule selection, upstream clients, user services,
  routers and steps that use up a budget are locales. Their lemmas are proved once from the
  laws, and each is interpreted on the model's own definitions, or its predicate is proved of
  them where it depends on the configuration (\<open>local_upstream_client\<close>, \<open>governed_client\<close>,
  \<open>app_router\<close>).

  \<^bold>\<open>What the lemmas show.\<close> Security: who passes the filter and with which identity a request is
  forwarded; that tokens are accepted exactly when signed and fresh; that the hash is that of
  FIPS 180-4; that SQL text cannot leave its quotes. Bounds: admitted requests in any window,
  attempts, finished spans, steps of a closed session. Invariants: breakers, sessions, the
  whole server. Round trips: tokens, JSON fields, stores, a login over the network. Errors:
  every failure path answers with the status and the id it should. The manifest also lists
  where the code does not do what it or its comments say; the theorems on token text, hosts
  and counters, the extra brace, the open listing, malformed bodies, the client's own user id,
  late timeouts, foreign profiles and the ended user service prove those.

  \<^bold>\<open>Termination and fuel.\<close> All functions are total. Loops that are not structural have a
  measure: the popping of spans and the search for separators. The readers of the small JSON
  library, which only witnesses use, take fuel that their input's length bounds.

  \<^bold>\<open>Not modelled.\<close> Threads are represented by the order of atomic steps; data races between
  them are outside the model (the findings name one). Boost.Asio and Beast, yaml-cpp,
  nlohmann::json, spdlog, sockets, the shell and MySQL, and Redis are parameters with named
  laws, as their code is not part of the repository. Floating point numbers are rationals:
  the code compares configured ratios and prints them, and not-a-number is left out. Log
  messages are left out. The copies of \<^verbatim>\<open>config.cc\<close> and \<^verbatim>\<open>logger.cc\<close> among the headers are
  not compiled. A session of the user service process is one step: its thread shares only the
  service, which keeps no state, with others.
\<close>

section \<open>One request through the whole program\<close>

definition demo_server :: "(HttpRequest, (unit app_upstream, unit) GatewayState) HttpServer" where
  "demo_server = DoAccept ((HttpServer_new (app_server demo_config) (app_runtime demo_config) demo_world
     (build_state demo_config demo_env () ()))\<lparr>hs_acceptor_open := True\<rparr>)"

lemma demo_main:
  "gateway_main (small_yaml demo_document) demo_log () (\<lambda>host port. Inr ()) demo_env [] demo_world () () demo_argv =
     Inr (demo_config, BuildRouter demo_config demo_env [], demo_server)"
  by (simp add: gateway_main_def demo_startup demo_logger HttpServer_Start_def demo_server_def HttpServer_new_def)

lemma only_session:
  assumes "hs_sessions srv = [s]" "\<not> hs_stopped srv" "session_step B (hs_server_config srv) router (s, hs_shared srv) e (s', g')"
  shows "server_step B router srv (srv\<lparr>hs_sessions := [s'], hs_shared := g'\<rparr>)"
  using server_step.session [of 0 srv B router e s' g'] assms by simp

lemma demo_answers:
  "\<exists>srv s r. (server_step demo_beast (BuildRouter demo_config demo_env []))\<^sup>*\<^sup>* demo_server srv \<and>
     hs_sessions srv = [s] \<and> ss_response s = Some r \<and> ss_request s = demo_login_request \<and> ss_pending s = Writing True"
proof -
  let ?B = demo_beast and ?r = "BuildRouter demo_config demo_env []" and ?c = "app_server demo_config"
  let ?step = "server_step ?B ?r"
  let ?s1 = "Session_Start ?B ?c"
  let ?srv1 = "on_accept ?B False demo_server"
  have d: "hs_sessions demo_server = []" "\<not> hs_stopped demo_server" "hs_accepting demo_server" "hs_acceptor_open demo_server"
    "hs_server_config demo_server = ?c"
    by (simp_all add: demo_server_def HttpServer_new_def DoAccept_def)
  then have 1: "?step demo_server ?srv1" by (blast intro: server_step.accept)
  have s1: "hs_sessions ?srv1 = [?s1]" "\<not> hs_stopped ?srv1" "hs_server_config ?srv1 = ?c"
    using d by (simp_all add: on_accept_def DoAccept_def Let_def)
  have p1: "ss_pending ?s1 = Reading" "ss_open ?s1" "ss_parser ?s1 = Some (srv_body_limit_bytes ?c)"
    by (simp_all add: Session_Start_def Session_new_def ReadRequest_def)
  obtain s2 where s2: "on_read demo_login_request ?s1 = Some s2" by (simp add: on_read_def p1)
  then have p2: "ss_pending s2 = Queued" "ss_open s2" "ss_request s2 = demo_login_request" using p1 by (auto simp: on_read_def)
  let ?srv2 = "?srv1\<lparr>hs_sessions := [s2], hs_shared := hs_shared ?srv1\<rparr>"
  have 2: "?step ?srv1 ?srv2"
    using only_session [OF s1(1,2)] session_step.read_done [OF p1(1) s2] by blast
  obtain s3 g3 where g: "DispatchRequest ?B ?r None s2 (hs_shared ?srv2) = (s3, g3)"
    by (cases "DispatchRequest ?B ?r None s2 (hs_shared ?srv2)")
  then obtain rsp where p3: "ss_pending s3 = Answering rsp" "ss_open s3" "ss_request s3 = demo_login_request"
    using p2 by (auto simp: DispatchRequest_def Let_def split: prod.splits)
  let ?srv3 = "?srv2\<lparr>hs_sessions := [s3], hs_shared := g3\<rparr>"
  have 3: "?step ?srv2 ?srv3"
    by (rule only_session) (use s1 session_step.worked [OF p2(1) g] in auto)
  let ?s4 = "WriteResponse ?B ?c rsp s3"
  let ?srv4 = "?srv3\<lparr>hs_sessions := [?s4], hs_shared := hs_shared ?srv3\<rparr>"
  have e4: "session_step ?B ?c ?r (s3, g3) Answered (?s4, g3)" by (rule session_step.answered [OF p3(1)])
  have 4: "?step ?srv3 ?srv4"
    by (rule only_session [where e = Answered]) (use s1 e4 in simp_all)
  have "?step\<^sup>*\<^sup>* demo_server ?srv4"
    using 1 2 3 4 by (meson converse_rtranclp_into_rtranclp rtranclp.rtrancl_refl)
  moreover have "hs_sessions ?srv4 = [?s4]" "ss_request ?s4 = demo_login_request" "ss_pending ?s4 = Writing True"
    "ss_response ?s4 \<noteq> None" using p3 by (simp_all add: WriteResponse_def)
  ultimately show ?thesis by blast
qed

section \<open>Properties of the whole program\<close>

text \<open>
  C2: The running program keeps its invariant from the start, for any configuration that
  loads and any number of connections whose reads, worker tasks, writes and timeouts happen
  in any order: each circuit breaker is in a consistent state (no closed circuit has reached
  its failure threshold, no half-open one its success threshold, no open one stays open for
  longer than configured), at most the configured number of finished spans is kept, and
  limiter and tracer have the configuration they were built with.
\<close>

theorem running_program_invariant:
  assumes "gateway_main y L f listen env listing w n r argv = Inr (config, router, srv)"
    and "io_reads_clocks (env_line_io env)" "steady_mono w" "(server_step B router)\<^sup>*\<^sup>* srv srv'"
    and "hs_shared srv' = (w', st', seq)"
  shows "app_inv config w' st'"
  using gateway_main_runs [OF assms(1-4)] assms(5) by simp

theorem running_program_invariant_witness:
  "\<exists>(srv :: (HttpRequest, (unit app_upstream, unit) GatewayState) HttpServer) w' st' seq. hs_shared srv = (w', st', seq) \<and> hs_sessions srv \<noteq> [] \<and> app_inv demo_config w' st'"
proof -
  obtain srv s where r: "(server_step demo_beast (BuildRouter demo_config demo_env []))\<^sup>*\<^sup>* demo_server srv" "hs_sessions srv = [s]"
    using demo_answers by blast
  obtain w' st' seq where g: "hs_shared srv = (w', st', seq)" by (rule prod_cases3)
  from running_program_invariant [OF demo_main demo_env_reads_clocks steady_mono_demo r(1) g] g r(2)
  show ?thesis by (intro exI [of _ srv] exI [of _ w'] exI [of _ st'] exI [of _ seq]) simp
qed

text \<open>
  C3: Every response that any session of the running program writes names the request it
  answers, and no other: it carries the id the client sent, or one the server generated when
  the client sent none, and the handler's own \<^verbatim>\<open>X-Request-Id\<close>, which is set after it, is
  the same.
\<close>

theorem responses_name_their_request:
  assumes "gateway_main y L f listen env listing w n r argv = Inr (config, router, srv)"
    and "io_reads_clocks (env_line_io env)" "steady_mono w" "(server_step B router)\<^sup>*\<^sup>* srv srv'"
    and "s \<in> set (hs_sessions srv')" "ss_response s = Some response"
  shows "identified B (ss_request s) response"
  using gateway_main_runs [OF assms(1-4)] assms(5,6) by (auto simp: written_inv_def)

theorem responses_name_their_request_witness:
  "\<exists>(s :: HttpRequest Session) response. ss_request s = demo_login_request \<and> ss_pending s = Writing True \<and> ss_response s = Some response \<and>
     identified demo_beast demo_login_request response"
proof -
  obtain srv s response where r: "(server_step demo_beast (BuildRouter demo_config demo_env []))\<^sup>*\<^sup>* demo_server srv"
    "hs_sessions srv = [s]" "ss_response s = Some response" "ss_request s = demo_login_request" "ss_pending s = Writing True"
    using demo_answers by blast
  from responses_name_their_request [OF demo_main demo_env_reads_clocks steady_mono_demo r(1) _ r(3)] r show ?thesis by auto
qed

end
